theory Spec2Isabelle imports Complex_Main "HOL-Library.Word" begin

section \<open>JavaScript numbers and the hashrate scaling\<close>

text \<open>
  A JavaScript Number is an IEEE double. A finite double is carried as the rational it
  denotes (negative zero is identified with zero: \<open>BigInt\<close> and \<open>String\<close>, the only
  consumers below, do not tell them apart); the two infinities and NaN are values of
  their own.
\<close>

datatype jsnum = Fin rat | PosInf | NegInf | NaN

text \<open>
  The fields of the snapshot that hold a number are declared \<open>number\<close>, optional: at
  its declared type such a field is absent (\<open>undefined\<close>), null or a number.
\<close>

datatype jsval = Undefined | Null | Num jsnum

text \<open>
  The declarations are not checked when the script runs: \<open>scaleHashrate\<close> receives
  whatever \<open>JSON.parse\<close> made of the field. That is a value of the declared type, a
  boolean, a string (the list of its UTF-16 code units), an array, or an object (the
  list of its own properties, all of them data properties with string keys). Nothing
  else comes out of \<open>JSON.parse\<close>: no function, symbol or BigInt.
\<close>

type_synonym code_unit = "16 word"

datatype any = Declared jsval | Boolean bool | Str "code_unit list" | Array "any list"
  | Object "(code_unit list \<times> any) list"

text \<open>The code units of a string of ASCII characters.\<close>

definition ascii :: "string \<Rightarrow> code_unit list" where
  "ascii s = map of_char s"

text \<open>
  The errors a run can meet: the RangeError, TypeError and SyntaxError of the built-ins,
  the errors of the file system, of connecting and of a query, an error of the helper
  module, and \<open>new Error(`...: ${error.message}`)\<close> made from a caught error.
\<close>

datatype error = RangeError | TypeError | SyntaxError | FileError | ConnectionError
  | QueryError string | HelperError | Rethrown error

text \<open>\<open>Number.MAX_VALUE\<close>, the largest finite double.\<close>

definition MAX_VALUE :: rat where
  "MAX_VALUE = (2 ^ 53 - 1) * 2 ^ 971"

text \<open>\<open>const HASHRATE_FACTOR = Math.pow(2, 32)\<close>\<close>

definition HASHRATE_FACTOR :: rat where
  "HASHRATE_FACTOR = 2 ^ 32"

text \<open>Truthiness of a number: \<open>0\<close> and NaN are falsy.\<close>

fun truthy :: "jsnum \<Rightarrow> bool" where
  "truthy (Fin r) = (r \<noteq> 0)"
| "truthy NaN = False"
| "truthy PosInf = True"
| "truthy NegInf = True"

text \<open>
  \<open>Number(value || 0)\<close>: \<open>||\<close> replaces every falsy value (undefined, null, \<open>0\<close>, NaN)
  by \<open>0\<close>; \<open>Number\<close> of a number is that number.
\<close>

fun or0 :: "jsval \<Rightarrow> jsnum" where
  "or0 Undefined = Fin 0"
| "or0 Null = Fin 0"
| "or0 (Num n) = (if truthy n then n else Fin 0)"

text \<open>\<open>value ?? 0\<close>: only undefined and null are replaced.\<close>

fun nullish0 :: "jsval \<Rightarrow> jsnum" where
  "nullish0 Undefined = Fin 0"
| "nullish0 Null = Fin 0"
| "nullish0 (Num n) = n"

text \<open>
  \<open>x * HASHRATE_FACTOR\<close>. The factor is a power of two, so the product of a double
  with it is a double again (no rounding) unless it leaves the finite range, where
  IEEE arithmetic gives an infinity. The factor is positive, so the infinities keep
  their sign; NaN stays NaN.
\<close>

fun times_factor :: "jsnum \<Rightarrow> jsnum" where
  "times_factor (Fin r) =
     (if r * HASHRATE_FACTOR > MAX_VALUE then PosInf
      else if r * HASHRATE_FACTOR < - MAX_VALUE then NegInf
      else Fin (r * HASHRATE_FACTOR))"
| "times_factor PosInf = PosInf"
| "times_factor NegInf = NegInf"
| "times_factor NaN = NaN"

text \<open>
  \<open>Math.round\<close>: the integer nearest to the argument, a tie going towards
  \<open>+\<infinity>\<close>, which is \<open>\<lfloor>x + 1/2\<rfloor>\<close>, HOL's \<^const>\<open>round\<close>; infinities and NaN are
  returned as they are.
\<close>

fun Math_round :: "jsnum \<Rightarrow> jsnum" where
  "Math_round (Fin r) = Fin (of_int (round r))"
| "Math_round PosInf = PosInf"
| "Math_round NegInf = NegInf"
| "Math_round NaN = NaN"

text \<open>
  \<open>BigInt(number)\<close>: the exact integer for an integral number; RangeError for a
  number with a fractional part, an infinity or NaN.
\<close>

fun BigInt :: "jsnum \<Rightarrow> error + int" where
  "BigInt (Fin r) = (if r = of_int \<lfloor>r\<rfloor> then Inr \<lfloor>r\<rfloor> else Inl RangeError)"
| "BigInt PosInf = Inl RangeError"
| "BigInt NegInf = Inl RangeError"
| "BigInt NaN = Inl RangeError"

section \<open>Coercion to a number\<close>

text \<open>
  Truthiness of any value: \<open>undefined\<close>, \<open>null\<close>, \<open>0\<close>, NaN, \<open>false\<close> and the empty
  string are falsy; every array and every object is truthy, also the empty ones.
\<close>

fun is_truthy :: "any \<Rightarrow> bool" where
  "is_truthy (Declared Undefined) = False"
| "is_truthy (Declared Null) = False"
| "is_truthy (Declared (Num n)) = truthy n"
| "is_truthy (Boolean b) = b"
| "is_truthy (Str s) = (s \<noteq> [])"
| "is_truthy (Array xs) = True"
| "is_truthy (Object props) = True"

text \<open>\<open>value || 0\<close>\<close>

definition or_zero :: "any \<Rightarrow> any" where
  "or_zero v = (if is_truthy v then v else Declared (Num (Fin 0)))"

text \<open>
  The characters that \<open>Number\<close> strips from both ends of a string (\<open>StrWhiteSpaceChar\<close>):
  tab, line feed, vertical tab, form feed, carriage return, space, no-break space, the
  other Unicode space separators, the line and paragraph separators, and the byte
  order mark.
\<close>

definition white_space :: "code_unit \<Rightarrow> bool" where
  "white_space c \<longleftrightarrow>
     c \<in> {0x9, 0xA, 0xB, 0xC, 0xD, 0x20, 0xA0, 0x1680, 0x2028, 0x2029, 0x202F, 0x205F, 0x3000,
          0xFEFF}
     \<or> (0x2000 \<le> c \<and> c \<le> 0x200A)"

definition trim :: "code_unit list \<Rightarrow> code_unit list" where
  "trim s = rev (dropWhile white_space (rev (dropWhile white_space s)))"

text \<open>The value of a digit \<open>0-9\<close>, \<open>a-f\<close> or \<open>A-F\<close>, and the digits of a base.\<close>

definition digit_of :: "code_unit \<Rightarrow> nat option" where
  "digit_of c =
     (if 0x30 \<le> c \<and> c \<le> 0x39 then Some (unat c - 48)
      else if 0x61 \<le> c \<and> c \<le> 0x66 then Some (unat c - 87)
      else if 0x41 \<le> c \<and> c \<le> 0x46 then Some (unat c - 55)
      else None)"

definition is_digit :: "nat \<Rightarrow> code_unit \<Rightarrow> bool" where
  "is_digit base c = (case digit_of c of None \<Rightarrow> False | Some d \<Rightarrow> d < base)"

definition digits_in_base :: "nat \<Rightarrow> code_unit list \<Rightarrow> nat" where
  "digits_in_base base ds = foldl (\<lambda>a c. a * base + the (digit_of c)) 0 ds"

text \<open>
  The double nearest to a rational, a tie going to the even significand. The binade of
  a positive rational \<open>a\<close> is the largest exponent \<open>e\<close> from \<open>-1022\<close> on with
  \<open>2^e \<le> a\<close> (or \<open>-1022\<close>, for a subnormal), found by bisection; the doubles of that
  binade are the multiples of \<open>2^(e - 52)\<close>. A result beyond the largest finite double
  is an infinity.
\<close>

definition round_half_even :: "rat \<Rightarrow> int" where
  "round_half_even q =
     (let f = \<lfloor>q\<rfloor>; d = q - of_int f
      in if d < 1 / 2 then f else if 1 / 2 < d then f + 1 else if even f then f else f + 1)"

fun bisect :: "nat \<Rightarrow> int \<Rightarrow> int \<Rightarrow> rat \<Rightarrow> int" where
  "bisect 0 lo hi a = lo"
| "bisect (Suc n) lo hi a =
     (let mid = (lo + hi) div 2
      in if 2 powi mid \<le> a then bisect n mid hi a else bisect n lo mid a)"

definition binade :: "rat \<Rightarrow> int" where
  "binade a = bisect 11 (- 1022) 1026 a"

definition to_double :: "rat \<Rightarrow> jsnum" where
  "to_double x =
     (if x = 0 then Fin 0
      else
        let a = \<bar>x\<bar>;
            ulp = 2 powi (binade a - 52);
            y = of_int (round_half_even (a / ulp)) * ulp
        in if MAX_VALUE < y then (if 0 < x then PosInf else NegInf)
           else Fin (if 0 < x then y else - y))"

text \<open>
  The number a string denotes (\<open>StringToNumber\<close>). After trimming, the empty string is
  \<open>0\<close>; a binary, octal or hexadecimal integer (\<open>0b\<close>, \<open>0o\<close>, \<open>0x\<close>, no sign) is its
  value; otherwise the string must be an optional sign followed by \<open>Infinity\<close> or by a
  decimal literal: digits, optionally a point and more digits, or a point and digits,
  optionally an exponent (\<open>e\<close> or \<open>E\<close>, an optional sign, digits). Every other string is
  NaN. The value is rounded to a double.
\<close>

definition exponent_part :: "code_unit list \<Rightarrow> int option" where
  "exponent_part s =
     (case s of
        [] \<Rightarrow> Some 0
      | c # t \<Rightarrow>
          if c = 0x65 \<or> c = 0x45
          then (let (negative, ds) =
                      (case t of
                         [] \<Rightarrow> (False, [])
                       | d # u \<Rightarrow> if d = 0x2D then (True, u) else if d = 0x2B then (False, u)
                                  else (False, t))
                in if ds \<noteq> [] \<and> list_all (is_digit 10) ds
                   then Some (if negative then - int (digits_in_base 10 ds)
                              else int (digits_in_base 10 ds))
                   else None)
          else None)"

definition unsigned_decimal :: "code_unit list \<Rightarrow> rat option" where
  "unsigned_decimal s =
     (let ip = takeWhile (is_digit 10) s; r1 = dropWhile (is_digit 10) s;
          (fp, r2) = (case r1 of
                        [] \<Rightarrow> ([], [])
                      | c # t \<Rightarrow> if c = 0x2E
                                 then (takeWhile (is_digit 10) t, dropWhile (is_digit 10) t)
                                 else ([], r1))
      in if ip = [] \<and> fp = [] then None
         else (case exponent_part r2 of
                 None \<Rightarrow> None
               | Some ex \<Rightarrow>
                   Some ((of_nat (digits_in_base 10 ip)
                          + of_nat (digits_in_base 10 fp) / 10 ^ length fp) * 10 powi ex)))"

definition unsigned_literal :: "code_unit list \<Rightarrow> jsnum" where
  "unsigned_literal s =
     (if s = ascii ''Infinity'' then PosInf
      else case unsigned_decimal s of None \<Rightarrow> NaN | Some m \<Rightarrow> to_double m)"

fun negate :: "jsnum \<Rightarrow> jsnum" where
  "negate (Fin r) = Fin (- r)"
| "negate PosInf = NegInf"
| "negate NegInf = PosInf"
| "negate NaN = NaN"

definition radix_of :: "code_unit \<Rightarrow> nat option" where
  "radix_of c =
     (if c = 0x78 \<or> c = 0x58 then Some 16
      else if c = 0x6F \<or> c = 0x4F then Some 8
      else if c = 0x62 \<or> c = 0x42 then Some 2
      else None)"

definition non_decimal :: "code_unit list \<Rightarrow> rat option" where
  "non_decimal s =
     (case s of
        z # p # ds \<Rightarrow>
          (case radix_of p of
             Some base \<Rightarrow>
               if z = 0x30 \<and> ds \<noteq> [] \<and> list_all (is_digit base) ds
               then Some (of_nat (digits_in_base base ds)) else None
           | None \<Rightarrow> None)
      | _ \<Rightarrow> None)"

definition StringToNumber :: "code_unit list \<Rightarrow> jsnum" where
  "StringToNumber str =
     (let s = trim str
      in if s = [] then Fin 0
         else case non_decimal s of
           Some m \<Rightarrow> to_double m
         | None \<Rightarrow>
             (case s of
                c # t \<Rightarrow> if c = 0x2B then unsigned_literal t
                          else if c = 0x2D then negate (unsigned_literal t)
                          else unsigned_literal s
              | [] \<Rightarrow> Fin 0))"

text \<open>
  An array or an object is first converted to a primitive, by its \<open>valueOf\<close> and
  \<open>toString\<close>. The inherited \<open>valueOf\<close> returns the object itself, so the string of
  \<open>toString\<close> decides: \<open>[object Object]\<close> for an object, the strings of the elements
  joined by commas for an array (\<open>null\<close> and \<open>undefined\<close> give the empty string). An
  own property named \<open>toString\<close> hides the inherited method and, coming from JSON, is
  not a function: such an object has no primitive value and the conversion raises
  TypeError, also when it is met as an element of an array.
\<close>

fun no_primitive :: "any \<Rightarrow> bool" where
  "no_primitive (Object props) = (ascii ''toString'' \<in> set (map fst props))"
| "no_primitive (Array xs) = (\<exists>x\<in>set xs. no_primitive x)"
| "no_primitive (Declared v) = False"
| "no_primitive (Boolean b) = False"
| "no_primitive (Str s) = False"

text \<open>
  The number denoted by the string of a value that has one. The string of a number
  denotes that number (\<open>String\<close> and \<open>Number\<close> are inverse on numbers); \<open>true\<close>,
  \<open>false\<close>, \<open>[object Object]\<close> and every string with a comma, so every array of two
  or more elements, denote NaN; the empty string, so the empty array and an array of
  one \<open>null\<close>, denotes \<open>0\<close>.
\<close>

fun string_number :: "any \<Rightarrow> jsnum" where
  "string_number (Declared Undefined) = Fin 0"
| "string_number (Declared Null) = Fin 0"
| "string_number (Declared (Num n)) = n"
| "string_number (Boolean b) = NaN"
| "string_number (Str s) = StringToNumber s"
| "string_number (Array []) = Fin 0"
| "string_number (Array [x]) = string_number x"
| "string_number (Array (x # y # zs)) = NaN"
| "string_number (Object props) = NaN"

text \<open>\<open>Number(value)\<close>\<close>

fun ToNumber :: "any \<Rightarrow> error + jsnum" where
  "ToNumber (Declared Undefined) = Inr NaN"
| "ToNumber (Declared Null) = Inr (Fin 0)"
| "ToNumber (Declared (Num n)) = Inr n"
| "ToNumber (Boolean b) = Inr (Fin (if b then 1 else 0))"
| "ToNumber (Str s) = Inr (StringToNumber s)"
| "ToNumber (Array xs) =
     (if no_primitive (Array xs) then Inl TypeError else Inr (string_number (Array xs)))"
| "ToNumber (Object props) =
     (if no_primitive (Object props) then Inl TypeError else Inr NaN)"

text \<open>
  \<^verbatim>\<open>function scaleHashrate(value) {
    return BigInt(Math.round(Number(value || 0) * HASHRATE_FACTOR));
  }\<close>
\<close>

definition scaleHashrate :: "any \<Rightarrow> error + int" where
  "scaleHashrate v =
     (case ToNumber (or_zero v) of
        Inl e \<Rightarrow> Inl e
      | Inr n \<Rightarrow> BigInt (Math_round (times_factor n)))"

section \<open>Batching of the user entries\<close>

text \<open>\<open>const BATCH_SIZE = 10;\<close>\<close>

definition BATCH_SIZE :: nat where
  "BATCH_SIZE = 10"

text \<open>
  \<open>Array.prototype.slice(begin, end)\<close> for \<open>0 \<le> begin \<le> end\<close>: the elements at the
  indices \<open>begin, ..., end - 1\<close> that exist; both bounds are clamped to the length.
\<close>

definition slice :: "nat \<Rightarrow> nat \<Rightarrow> 'a list \<Rightarrow> 'a list" where
  "slice i j xs = take (j - i) (drop i xs)"

text \<open>
  The values \<open>batch\<close> takes, in order, in
  \<^verbatim>\<open>for (let i = 0; i < userEntries.length; i += BATCH_SIZE) {
    const batch = userEntries.slice(i, i + BATCH_SIZE);
    ...
  }\<close>
  when the loop runs from index \<open>i\<close> to its end.
\<close>

function batches_from :: "nat \<Rightarrow> 'a list \<Rightarrow> 'a list list" where
  "batches_from i xs =
     (if i < length xs then slice i (i + BATCH_SIZE) xs # batches_from (i + BATCH_SIZE) xs
      else [])"
  by pat_completeness auto
termination
  by (relation "measure (\<lambda>(i, xs). length xs - i)") (auto simp: BATCH_SIZE_def)

declare batches_from.simps [simp del]

definition batches :: "'a list \<Rightarrow> 'a list list" where
  "batches xs = batches_from 0 xs"

section \<open>The snapshot document\<close>

text \<open>
  The parsed \<open>pool_stats.json\<close>, at the types the scripts declare for it
  (\<open>interface P2PoolJson\<close> and its parts). An optional object-valued field is an
  \<open>option\<close> (\<open>None\<close>: absent or null, the falsy cases); an object used as a dictionary
  (\<open>users\<close>, \<open>workers\<close>) is the list of its entries in the order \<open>Object.entries\<close> and
  \<open>Object.values\<close> enumerate them, with distinct keys.
\<close>

record ComputedHashRate =
  hashrate_1m :: jsval
  hashrate_5m :: jsval
  hashrate_15m :: jsval
  hashrate_1hr :: jsval
  hashrate_6hr :: jsval
  hashrate_1d :: jsval
  hashrate_7d :: jsval

record P2PoolWorker =
  w_computed_hash_rate :: "ComputedHashRate option"
  lastshare :: jsval
  w_shares :: "string option"
  w_bestshare :: "string option"
  w_bestever :: "string option"

record P2PoolUser =
  computed_hash_rate :: "ComputedHashRate option"
  workers :: "(string \<times> P2PoolWorker) list option"
  shares :: "string option"
  bestshare :: "string option"
  bestever :: "string option"
  authorised :: jsval

record ComputedShareRate =
  shares_per_second_1m :: jsval
  shares_per_second_5m :: jsval
  shares_per_second_15m :: jsval
  shares_per_second_1h :: jsval

record P2PoolJson =
  start_time :: jsval
  lastupdate :: jsval
  num_users :: jsval
  num_workers :: jsval
  num_idle_users :: jsval
  accepted :: jsval
  rejected :: jsval
  pool_bestshare :: jsval
  difficulty :: jsval
  users :: "(string \<times> P2PoolUser) list option"
  computed_hashrate :: "ComputedHashRate option"
  computed_share_rate :: "ComputedShareRate option"

text \<open>The object literal \<open>{}\<close> read as a \<open>ComputedHashRate\<close>: every field absent.\<close>

definition no_hashrates :: ComputedHashRate where
  "no_hashrates = \<lparr>hashrate_1m = Undefined, hashrate_5m = Undefined,
     hashrate_15m = Undefined, hashrate_1hr = Undefined, hashrate_6hr = Undefined,
     hashrate_1d = Undefined, hashrate_7d = Undefined\<rparr>"

text \<open>\<open>Object.entries(x || {})\<close> and \<open>Object.values(x || {})\<close>.\<close>

definition entries_or_empty :: "('k \<times> 'v) list option \<Rightarrow> ('k \<times> 'v) list" where
  "entries_or_empty m = (case m of None \<Rightarrow> [] | Some kvs \<Rightarrow> kvs)"

definition values_or_empty :: "('k \<times> 'v) list option \<Rightarrow> 'v list" where
  "values_or_empty m = map snd (entries_or_empty m)"

section \<open>Strings of numbers\<close>

text \<open>\<open>BigInt.prototype.toString()\<close>: the decimal digits, with a minus sign when negative.\<close>

definition digit_char :: "nat \<Rightarrow> char" where
  "digit_char d = ''0123456789'' ! d"

function nat_toString :: "nat \<Rightarrow> string" where
  "nat_toString n =
     (if n < 10 then [digit_char n] else nat_toString (n div 10) @ [digit_char (n mod 10)])"
  by pat_completeness auto
termination
  by (relation "measure id") auto

declare nat_toString.simps [simp del]

definition int_toString :: "int \<Rightarrow> string" where
  "int_toString i = (if i < 0 then CHR ''-'' # nat_toString (nat (- i)) else nat_toString (nat i))"

text \<open>
  \<open>String(number)\<close> and \<open>number.toString()\<close>. An integral value below \<open>10^21\<close> in
  magnitude prints as its decimal digits, the infinities and NaN by name. The digits of
  every other finite value (a fraction, or exponent notation from \<open>10^21\<close> on) are those
  of the ECMAScript shortest-representation algorithm, which is a parameter here.
\<close>

fun Number_toString :: "(rat \<Rightarrow> string) \<Rightarrow> jsnum \<Rightarrow> string" where
  "Number_toString other (Fin r) =
     (if r = of_int \<lfloor>r\<rfloor> \<and> \<bar>r\<bar> < 10 ^ 21 then int_toString \<lfloor>r\<rfloor> else other r)"
| "Number_toString other PosInf = ''Infinity''"
| "Number_toString other NegInf = ''-Infinity''"
| "Number_toString other NaN = ''NaN''"

text \<open>
  What the scripts take from outside their own text: the digits algorithm above, the
  built-in \<open>parseFloat\<close>, the helper \<open>convertHashrate\<close> of \<open>utils/helpers\<close> (followed
  by \<open>.toString()\<close>; it may raise), and the clock \<open>Math.floor(Date.now() / 1000)\<close>.
\<close>

record helpers =
  other_digits :: "rat \<Rightarrow> string"
  parseFloat :: "string \<Rightarrow> jsnum"
  convertHashrate :: "string \<Rightarrow> error + string"
  now_seconds :: rat

text \<open>\<open>new Date(seconds * 1000)\<close>, kept as the number of seconds it was built from.\<close>

datatype date = Date_of_seconds jsnum

text \<open>
  A value stored in a column or held by a property of an entity; \<open>Absent\<close> is
  \<open>undefined\<close>.
\<close>

datatype cell = Text string | Number jsnum | Big int | Bool bool | Time date | Key nat | Absent

section \<open>The pool-level rollup (seed script)\<close>

text \<open>
  \<^verbatim>\<open>function scaleHashrate(value?: number | null): string {
    return BigInt(Math.round(Number(value || 0) * HASHRATE_FACTOR)).toString();
  }\<close>
\<close>

definition scaleHashrate_string :: "any \<Rightarrow> error + string" where
  "scaleHashrate_string v = map_sum id int_toString (scaleHashrate v)"

text \<open>
  \<open>interface PoolStatsData\<close>. The two versions of the seed script declare \<open>diff\<close> and
  the four \<open>SPS\<close> fields differently (\<open>number\<close> in one, \<open>string\<close> in the other); they
  hold a cell here.
\<close>

record PoolStatsData =
  ps_runtime :: jsnum
  ps_users :: jsnum
  ps_workers :: jsnum
  ps_idle :: jsnum
  ps_disconnected :: jsnum
  ps_hashrate1m :: string
  ps_hashrate5m :: string
  ps_hashrate15m :: string
  ps_hashrate1hr :: string
  ps_hashrate6hr :: string
  ps_hashrate1d :: string
  ps_hashrate7d :: string
  ps_diff :: cell
  ps_accepted :: string
  ps_rejected :: string
  ps_bestshare :: string
  ps_SPS1m :: cell
  ps_SPS5m :: cell
  ps_SPS15m :: cell
  ps_SPS1h :: cell
  ps_timestamp :: date

text \<open>
  The first part of \<open>p2poolToCkpool\<close>, which settles \<open>hashrateFields\<close>:
  \<^verbatim>\<open>const usersList = Object.values(p2pool.users || {});
  let hashrateFields = p2pool.computed_hashrate;
  if (!hashrateFields && usersList.length > 0) {
    hashrateFields = usersList[0].computed_hash_rate;
  }
  if (!hashrateFields && usersList.length > 0) {
    const workers = Object.values(usersList[0].workers || {});
    if (workers.length > 0 && workers[0].computed_hash_rate) {
      hashrateFields = workers[0].computed_hash_rate;
    }
  }
  if (!hashrateFields) hashrateFields = {};\<close>
\<close>

definition hashrateFields :: "P2PoolJson \<Rightarrow> ComputedHashRate" where
  "hashrateFields p2pool =
     (let usersList = values_or_empty (users p2pool);
          hf0 = computed_hashrate p2pool;
          hf1 = (if hf0 = None \<and> length usersList > 0
                 then computed_hash_rate (usersList ! 0) else hf0);
          hf2 = (if hf1 = None \<and> length usersList > 0
                 then (let ws = values_or_empty (workers (usersList ! 0))
                       in if length ws > 0 \<and> w_computed_hash_rate (ws ! 0) \<noteq> None
                          then w_computed_hash_rate (ws ! 0) else hf1)
                 else hf1)
      in case hf2 of None \<Rightarrow> no_hashrates | Some h \<Rightarrow> h)"

text \<open>Sequencing of computations that may raise.\<close>

definition bind_err :: "error + 'a \<Rightarrow> ('a \<Rightarrow> error + 'b) \<Rightarrow> error + 'b" where
  "bind_err m f = (case m of Inl e \<Rightarrow> Inl e | Inr x \<Rightarrow> f x)"

text \<open>\<open>p2pool.computed_share_rate?.field ?? 0\<close>\<close>

definition share_rate_or0 :: "P2PoolJson \<Rightarrow> (ComputedShareRate \<Rightarrow> jsval) \<Rightarrow> jsnum" where
  "share_rate_or0 p2pool field =
     (case computed_share_rate p2pool of None \<Rightarrow> Fin 0 | Some r \<Rightarrow> nullish0 (field r))"

text \<open>\<open>value ?? Math.floor(Date.now() / 1000)\<close>\<close>

definition or_now :: "helpers \<Rightarrow> jsval \<Rightarrow> jsnum" where
  "or_now H v = (case v of Num n \<Rightarrow> n | _ \<Rightarrow> Fin (now_seconds H))"

text \<open>
  The object literal \<open>p2poolToCkpool\<close> returns; its fields are evaluated in order, and
  the first \<open>scaleHashrate\<close> that raises ends the call.
\<close>

definition p2poolToCkpool :: "helpers \<Rightarrow> P2PoolJson \<Rightarrow> error + PoolStatsData" where
  "p2poolToCkpool H p2pool =
     (let hf = hashrateFields p2pool in
      bind_err (scaleHashrate_string (Declared (hashrate_1m hf))) (\<lambda>h1m.
      bind_err (scaleHashrate_string (Declared (hashrate_5m hf))) (\<lambda>h5m.
      bind_err (scaleHashrate_string (Declared (hashrate_15m hf))) (\<lambda>h15m.
      bind_err (scaleHashrate_string (Declared (hashrate_1hr hf))) (\<lambda>h1hr.
      bind_err (scaleHashrate_string (Declared (hashrate_6hr hf))) (\<lambda>h6hr.
      bind_err (scaleHashrate_string (Declared (hashrate_1d hf))) (\<lambda>h1d.
      bind_err (scaleHashrate_string (Declared (hashrate_7d hf))) (\<lambda>h7d.
      Inr \<lparr>ps_runtime = nullish0 (start_time p2pool),
           ps_users = nullish0 (num_users p2pool),
           ps_workers = nullish0 (num_workers p2pool),
           ps_idle = nullish0 (num_idle_users p2pool),
           ps_disconnected = Fin 0,
           ps_hashrate1m = h1m, ps_hashrate5m = h5m, ps_hashrate15m = h15m,
           ps_hashrate1hr = h1hr, ps_hashrate6hr = h6hr, ps_hashrate1d = h1d,
           ps_hashrate7d = h7d,
           ps_diff = Number (nullish0 (difficulty p2pool)),
           ps_accepted = Number_toString (other_digits H) (nullish0 (accepted p2pool)),
           ps_rejected = Number_toString (other_digits H) (nullish0 (rejected p2pool)),
           ps_bestshare = Number_toString (other_digits H) (nullish0 (pool_bestshare p2pool)),
           ps_SPS1m = Number (share_rate_or0 p2pool shares_per_second_1m),
           ps_SPS5m = Number (share_rate_or0 p2pool shares_per_second_5m),
           ps_SPS15m = Number (share_rate_or0 p2pool shares_per_second_15m),
           ps_SPS1h = Number (share_rate_or0 p2pool shares_per_second_1h),
           ps_timestamp = Date_of_seconds (or_now H (lastupdate p2pool))\<rparr>))))))))"

text \<open>
  The fallback chain as the specification words it: the document's own rollup; else the
  first user's aggregate; else the first user's first worker's aggregate; else all-zero
  (every field absent, which scales to \<open>0\<close>).
\<close>

definition fallback_chain :: "P2PoolJson \<Rightarrow> ComputedHashRate" where
  "fallback_chain p2pool =
     (case computed_hashrate p2pool of
        Some own \<Rightarrow> own
      | None \<Rightarrow>
          (case values_or_empty (users p2pool) of
             [] \<Rightarrow> no_hashrates
           | u # _ \<Rightarrow>
               (case computed_hash_rate u of
                  Some agg \<Rightarrow> agg
                | None \<Rightarrow>
                    (case values_or_empty (workers u) of
                       [] \<Rightarrow> no_hashrates
                     | w # _ \<Rightarrow>
                         (case w_computed_hash_rate w of
                            Some wagg \<Rightarrow> wagg
                          | None \<Rightarrow> no_hashrates)))))"

text \<open>
  The seven hashrate fields of a rollup, as they are passed to \<open>scaleHashrate\<close>, and
  those of the row made from it.
\<close>

definition rollup_fields :: "ComputedHashRate \<Rightarrow> any list" where
  "rollup_fields h = map Declared [hashrate_1m h, hashrate_5m h, hashrate_15m h,
     hashrate_1hr h, hashrate_6hr h, hashrate_1d h, hashrate_7d h]"

definition pool_hashrates :: "PoolStatsData \<Rightarrow> string list" where
  "pool_hashrates s = [ps_hashrate1m s, ps_hashrate5m s, ps_hashrate15m s, ps_hashrate1hr s,
     ps_hashrate6hr s, ps_hashrate1d s, ps_hashrate7d s]"

section \<open>Empty documents and an instance of the outside functions\<close>

text \<open>
  The JSON objects \<open>{}\<close> read at the three document types; concrete snapshots below are
  written as updates of them, as a JSON text lists only the fields it has.
\<close>

definition empty_worker :: P2PoolWorker where
  "empty_worker = \<lparr>w_computed_hash_rate = None, lastshare = Undefined, w_shares = None,
     w_bestshare = None, w_bestever = None\<rparr>"

definition empty_user :: P2PoolUser where
  "empty_user = \<lparr>computed_hash_rate = None, workers = None, shares = None,
     bestshare = None, bestever = None, authorised = Undefined\<rparr>"

definition empty_snapshot :: P2PoolJson where
  "empty_snapshot = \<lparr>start_time = Undefined, lastupdate = Undefined, num_users = Undefined,
     num_workers = Undefined, num_idle_users = Undefined, accepted = Undefined,
     rejected = Undefined, pool_bestshare = Undefined, difficulty = Undefined,
     users = None, computed_hashrate = None, computed_share_rate = None\<rparr>"

text \<open>The rollup \<open>{hashrate_1d: x}\<close>.\<close>

definition only_1d :: "rat \<Rightarrow> ComputedHashRate" where
  "only_1d x = no_hashrates\<lparr>hashrate_1d := Num (Fin x)\<rparr>"

text \<open>
  One choice of the outside functions, for running the scripts on concrete snapshots:
  a clock, a \<open>convertHashrate\<close> that hands its argument back, and placeholders for the
  digits of fractions and for \<open>parseFloat\<close>.
\<close>

definition example_helpers :: helpers where
  "example_helpers = \<lparr>other_digits = (\<lambda>r. ''fraction''), parseFloat = (\<lambda>s. NaN),
     convertHashrate = (\<lambda>s. Inr s), now_seconds = 1700000000\<rparr>"

text \<open>
  \<^verbatim>\<open>{"users": {"addr1": {"workers": {"rig1": {"computed_hash_rate": {"hashrate_1d": 2.5}}}}}}\<close>
\<close>

definition snapshot_worker_rollup :: P2PoolJson where
  "snapshot_worker_rollup = empty_snapshot\<lparr>users := Some [(''addr1'',
     empty_user\<lparr>workers := Some [(''rig1'',
       empty_worker\<lparr>w_computed_hash_rate := Some (only_1d (5 / 2))\<rparr>)]\<rparr>)]\<rparr>"

text \<open>
  \<^verbatim>\<open>{"users": {"addr1": {"computed_hash_rate": {"hashrate_1d": 5},
     "workers": {"rig1": {"computed_hash_rate": {"hashrate_1d": 2.5}}}}}}\<close>
\<close>

definition snapshot_user_and_worker_rollup :: P2PoolJson where
  "snapshot_user_and_worker_rollup = empty_snapshot\<lparr>users := Some [(''addr1'',
     empty_user\<lparr>computed_hash_rate := Some (only_1d 5),
       workers := Some [(''rig1'',
         empty_worker\<lparr>w_computed_hash_rate := Some (only_1d (5 / 2))\<rparr>)]\<rparr>)]\<rparr>"



section \<open>The storage backend\<close>

text \<open>
  The scripts reach the store through an object-relational mapper, by
  \<open>repository.create\<close>, \<open>save\<close>, \<open>findOne\<close> and \<open>db.transaction\<close>; these are modelled
  by what the mapper documents for them.

  An entity object is the map from the names of the columns assigned on it to their
  values; \<open>map_of\<close> of a list of pairs reads an object literal. A column that was never
  assigned is left to the backend (its default) and is not in the map. A table is the
  list of its rows.
\<close>

type_synonym row = "string \<rightharpoonup> cell"

type_synonym columns = "(string \<times> cell) list"

datatype table = User | UserStats | Worker | WorkerStats | PoolStats

type_synonym db = "table \<Rightarrow> row list"

text \<open>Reading a property of an entity (\<open>savedWorker.id\<close>).\<close>

definition get_column :: "row \<Rightarrow> string \<Rightarrow> cell" where
  "get_column r k = (case r k of None \<Rightarrow> Absent | Some c \<Rightarrow> c)"

text \<open>Assigning one property (\<open>dbUser.isActive = true\<close>).\<close>

definition set_column :: "string \<Rightarrow> cell \<Rightarrow> row \<Rightarrow> row" where
  "set_column k v r = r(k \<mapsto> v)"

text \<open>
  \<open>Object.assign(target, source)\<close> and the spread \<open>{...target, ...source}\<close>: the
  properties of the source override those of the target.
\<close>

definition assign :: "row \<Rightarrow> row \<Rightarrow> row" where
  "assign target source = target ++ source"

text \<open>
  Modelled from the spec: the entity declarations (\<open>lib/entities\<close>) are not among the
  sources. The data model gives a User its address as natural key and every other
  entity a surrogate id, which the backend generates on insert.
\<close>

fun primary_key :: "table \<Rightarrow> string" where
  "primary_key User = ''address''"
| "primary_key t = ''id''"

fun generated_key :: "table \<Rightarrow> bool" where
  "generated_key User = False"
| "generated_key t = True"

definition key_of :: "row \<Rightarrow> nat" where
  "key_of r = (case r ''id'' of Some (Key n) \<Rightarrow> n | _ \<Rightarrow> 0)"

text \<open>A generated key: one that no row of the table has.\<close>

definition fresh_key :: "row list \<Rightarrow> nat" where
  "fresh_key rows = Suc (foldr max (map key_of rows) 0)"

text \<open>\<open>repository.findOne({ where: cond })\<close>: the first row that has every column of \<open>cond\<close>.\<close>

definition matches :: "columns \<Rightarrow> row \<Rightarrow> bool" where
  "matches cond r = list_all (\<lambda>(k, v). r k = Some v) cond"

definition findOne :: "columns \<Rightarrow> row list \<Rightarrow> row option" where
  "findOne cond rows = find (matches cond) rows"

text \<open>
  What \<open>repository.save(entity)\<close> does to a table when the backend accepts it: an entity
  whose primary key is that of a row updates the row with the columns assigned on the
  entity; any other entity is inserted, with a generated key where the table has one.
  The entity is returned with its key.
\<close>

definition upsert :: "table \<Rightarrow> row \<Rightarrow> row list \<Rightarrow> row \<times> row list" where
  "upsert t entity rows =
     (let pk = primary_key t in
      case entity pk of
        Some k \<Rightarrow>
          if list_ex (\<lambda>r. r pk = Some k) rows
          then (entity, map (\<lambda>r. if r pk = Some k then assign r entity else r) rows)
          else (entity, rows @ [entity])
      | None \<Rightarrow>
          (let e = (if generated_key t then set_column ''id'' (Key (fresh_key rows)) entity
                    else entity)
           in (e, rows @ [e])))"

section \<open>Running a script: state, exceptions, the outside world\<close>

datatype log_line = Out string | Err string error

record state =
  contents :: db
  console :: "log_line list"

text \<open>
  The world a run meets: the path of the snapshot file, the result of
  \<open>fs.readFileSync\<close> on it, the built-in \<open>JSON.parse\<close>, whether \<open>getDb()\<close> raises,
  which writes the backend rejects (a constraint violation, a timeout, a closed
  connection) and with which error, and whether \<open>db.destroy()\<close> raises. A query that
  only reads is taken to succeed.

  The members of a batch run concurrently, and the world also settles what the code
  leaves open there. For the \<open>k\<close>-th batch and the member at position \<open>i\<close> of it,
  \<open>settles_at\<close> is the time at which that member settles, that is, commits or fails
  (the members settle in the order of these times, members of equal time in the order
  of the list), and \<open>completes\<close> says whether that member, when the connection is
  destroyed while it is still in flight, still reaches the end of its transaction.
\<close>

record world =
  stats_file :: string
  read_file :: "error + string"
  JSON_parse :: "string \<Rightarrow> error + P2PoolJson"
  connect_error :: "error option"
  rejects :: "db \<Rightarrow> table \<Rightarrow> row \<Rightarrow> error option"
  destroy_error :: "error option"
  settles_at :: "nat \<Rightarrow> nat \<Rightarrow> nat"
  completes :: "nat \<Rightarrow> nat \<Rightarrow> bool"

text \<open>
  An asynchronous computation: from a state to a result (a raised error, \<open>Inl\<close>, or a
  value) and the state it leaves. A raised error keeps the state reached so far.
\<close>

type_synonym 'a action = "state \<Rightarrow> (error + 'a) \<times> state"

definition succeed :: "'a \<Rightarrow> 'a action" where
  "succeed x = (\<lambda>s. (Inr x, s))"

definition raise :: "error \<Rightarrow> 'a action" where
  "raise e = (\<lambda>s. (Inl e, s))"

text \<open>\<open>const x = await m; f(x)\<close>\<close>

definition and_then :: "'a action \<Rightarrow> ('a \<Rightarrow> 'b action) \<Rightarrow> 'b action" where
  "and_then m f = (\<lambda>s. case m s of (Inl e, s') \<Rightarrow> (Inl e, s') | (Inr x, s') \<Rightarrow> f x s')"

text \<open>A computation without effects that may raise.\<close>

definition lift :: "error + 'a \<Rightarrow> 'a action" where
  "lift r = (\<lambda>s. (r, s))"

text \<open>\<open>try { m } catch (err) { h(err) }\<close>\<close>

definition try_catch :: "'a action \<Rightarrow> (error \<Rightarrow> 'a action) \<Rightarrow> 'a action" where
  "try_catch m h = (\<lambda>s. case m s of (Inl e, s') \<Rightarrow> h e s' | (Inr x, s') \<Rightarrow> (Inr x, s'))"

text \<open>
  \<open>try { m } finally { f }\<close>: \<open>f\<close> runs either way; the outcome is that of \<open>m\<close> unless
  \<open>f\<close> raises.
\<close>

definition try_finally :: "'a action \<Rightarrow> unit action \<Rightarrow> 'a action" where
  "try_finally m f =
     (\<lambda>s. case m s of (r, s') \<Rightarrow>
        (case f s' of (Inl e, s'') \<Rightarrow> (Inl e, s'') | (Inr _, s'') \<Rightarrow> (r, s'')))"

text \<open>\<open>console.log\<close> and \<open>console.error\<close>.\<close>

definition log :: "log_line \<Rightarrow> unit action" where
  "log line = (\<lambda>s. (Inr (), s\<lparr>console := console s @ [line]\<rparr>))"

text \<open>
  \<open>await getDb()\<close>, of \<open>lib/db.ts\<close>:
  \<^verbatim>\<open>connectionPromise = AppDataSource.initialize().catch((error) => {
    console.error('Database connection error:', error);
    connectionPromise = null;
    throw error;
  });\<close>
  and \<open>await db.destroy()\<close>.
\<close>

definition getDb :: "world \<Rightarrow> unit action" where
  "getDb W =
     (case connect_error W of
        Some e \<Rightarrow> and_then (log (Err ''Database connection error:'' e)) (\<lambda>_. raise e)
      | None \<Rightarrow> succeed ())"

definition destroy :: "world \<Rightarrow> unit action" where
  "destroy W = (case destroy_error W of Some e \<Rightarrow> raise e | None \<Rightarrow> succeed ())"

text \<open>\<open>await repository.save(entity)\<close>, outside or inside a transaction.\<close>

definition save :: "world \<Rightarrow> table \<Rightarrow> row \<Rightarrow> row action" where
  "save W t entity =
     (\<lambda>s. case rejects W (contents s) t entity of
        Some e \<Rightarrow> (Inl e, s)
      | None \<Rightarrow>
          (case upsert t entity (contents s t) of
             (saved, rows) \<Rightarrow> (Inr saved, s\<lparr>contents := (contents s)(t := rows)\<rparr>)))"

text \<open>
  \<open>await db.transaction(async (manager) => body)\<close>: the writes of \<open>body\<close> are committed
  when it returns; when it raises, they are rolled back and the error is raised again.
\<close>

definition transaction :: "'a action \<Rightarrow> 'a action" where
  "transaction body =
     (\<lambda>s. case body s of
        (Inl e, s') \<Rightarrow> (Inl e, s'\<lparr>contents := contents s\<rparr>)
      | (Inr x, s') \<Rightarrow> (Inr x, s'))"

text \<open>\<open>for (const x of xs) { await f(x) }\<close>: the first error leaves the loop.\<close>

fun for_each :: "('a \<Rightarrow> unit action) \<Rightarrow> 'a list \<Rightarrow> unit action" where
  "for_each f [] = succeed ()"
| "for_each f (x # xs) = and_then (f x) (\<lambda>_. for_each f xs)"

text \<open>
  \<open>await Promise.all(xs.map(f))\<close>, for the \<open>k\<close>-th batch. \<open>map\<close> starts every member;
  the members then run concurrently and settle in the order the world gives. Each
  member is a transaction on the rows of its own address: the effect of the members on
  the store is that of their transactions taken one after the other in the order in
  which they settle.

  The aggregate is fulfilled when every member is. It is rejected as soon as one member
  is, with the error of that member: the first failure in time, not in the list.
  \<open>Promise.all\<close> cancels nothing, so the members that are in flight at that moment go
  on; but the caller goes on as well, and here it leaves the loop and destroys the
  connection under them. A member in flight then either still reaches the end of its
  transaction (it commits, or it fails and is rolled back, and its error goes nowhere)
  or is cut off before its commit and leaves nothing. The writes of these members are
  counted in the state the rejection is raised with: what the caller does afterwards
  (\<open>db.destroy()\<close>, \<open>console.error\<close>) neither reads nor writes the tables.
\<close>

definition settle_order :: "world \<Rightarrow> nat \<Rightarrow> nat \<Rightarrow> nat list" where
  "settle_order W k n = sort_key (settles_at W k) [0..<n]"

fun in_flight :: "world \<Rightarrow> nat \<Rightarrow> ('a \<Rightarrow> unit action) \<Rightarrow> (nat \<times> 'a) list \<Rightarrow> state \<Rightarrow> state" where
  "in_flight W k f [] s = s"
| "in_flight W k f ((i, x) # rest) s =
     in_flight W k f rest (if completes W k i then snd (f x s) else s)"

fun settle :: "world \<Rightarrow> nat \<Rightarrow> ('a \<Rightarrow> unit action) \<Rightarrow> (nat \<times> 'a) list \<Rightarrow> unit action" where
  "settle W k f [] = succeed ()"
| "settle W k f ((i, x) # rest) =
     (\<lambda>s. case f x s of
        (Inr _, s') \<Rightarrow> settle W k f rest s'
      | (Inl e, s') \<Rightarrow> (Inl e, in_flight W k f rest s'))"

text \<open>The members of a batch with their positions, in the order in which they settle.\<close>

definition in_settle_order :: "world \<Rightarrow> nat \<Rightarrow> 'a list \<Rightarrow> (nat \<times> 'a) list" where
  "in_settle_order W k xs = map (\<lambda>i. (i, xs ! i)) (settle_order W k (length xs))"

definition promise_all :: "world \<Rightarrow> nat \<Rightarrow> ('a \<Rightarrow> unit action) \<Rightarrow> 'a list \<Rightarrow> unit action" where
  "promise_all W k f xs = settle W k f (in_settle_order W k xs)"

text \<open>\<open>String(x || 0)\<close> and \<open>x || '0'\<close> for an optional string: the empty string is falsy.\<close>

definition str_or0 :: "string option \<Rightarrow> string" where
  "str_or0 x = (case x of None \<Rightarrow> ''0'' | Some s \<Rightarrow> if s = [] then ''0'' else s)"

text \<open>
  \<open>Math.max(...xs)\<close>: \<open>-Infinity\<close> for no arguments, NaN as soon as one argument is NaN.
\<close>

fun num_le :: "jsnum \<Rightarrow> jsnum \<Rightarrow> bool" where
  "num_le NaN y = False"
| "num_le x NaN = False"
| "num_le NegInf y = True"
| "num_le x PosInf = True"
| "num_le (Fin a) (Fin b) = (a \<le> b)"
| "num_le PosInf y = False"
| "num_le x NegInf = False"

definition max2 :: "jsnum \<Rightarrow> jsnum \<Rightarrow> jsnum" where
  "max2 x y = (if x = NaN \<or> y = NaN then NaN else if num_le x y then y else x)"

definition Math_max :: "jsnum list \<Rightarrow> jsnum" where
  "Math_max xs = foldl max2 NegInf xs"

section \<open>The batched updater (\<open>updateUsersFromJson\<close>, TypeScript)\<close>

text \<open>\<open>convertHashrate((field || 0).toString()).toString()\<close>\<close>

definition converted :: "helpers \<Rightarrow> jsval \<Rightarrow> error + cell" where
  "converted H v =
     map_sum id Text (convertHashrate H (Number_toString (other_digits H) (or0 v)))"

text \<open>
  \<^verbatim>\<open>String(user.workers
    ? Math.max(...Object.values(user.workers).map(w => w.lastshare || 0)) : 0)\<close>
  An object is truthy, also the empty one.
\<close>

definition lastShare :: "helpers \<Rightarrow> P2PoolUser \<Rightarrow> string" where
  "lastShare H user =
     Number_toString (other_digits H)
       (case workers user of
          Some ws \<Rightarrow> Math_max (map (\<lambda>w. or0 (lastshare w)) (map snd ws))
        | None \<Rightarrow> Fin 0)"

text \<open>The object given to \<open>userStatsRepository.create\<close>.\<close>

definition userStats_entity :: "helpers \<Rightarrow> string \<Rightarrow> P2PoolUser \<Rightarrow> error + row" where
  "userStats_entity H address user =
     (let hashrate = (case computed_hash_rate user of None \<Rightarrow> no_hashrates | Some h \<Rightarrow> h) in
      bind_err (converted H (hashrate_1m hashrate)) (\<lambda>h1m.
      bind_err (converted H (hashrate_5m hashrate)) (\<lambda>h5m.
      bind_err (converted H (hashrate_1hr hashrate)) (\<lambda>h1hr.
      bind_err (converted H (hashrate_1d hashrate)) (\<lambda>h1d.
      bind_err (converted H (hashrate_7d hashrate)) (\<lambda>h7d.
      Inr (map_of
          [(''userAddress'', Text address),
           (''hashrate1m'', h1m), (''hashrate5m'', h5m), (''hashrate1hr'', h1hr),
           (''hashrate1d'', h1d), (''hashrate7d'', h7d),
           (''shares'', Text (str_or0 (shares user))),
           (''bestShare'', Number (parseFloat H (str_or0 (bestshare user)))),
           (''bestEver'', Text (str_or0 (bestever user))),
           (''workerCount'', Number (Fin (of_nat (length (entries_or_empty (workers user)))))),
           (''lastShare'', Text (lastShare H user))])))))))"

text \<open>The object \<open>workerValues\<close>.\<close>

definition workerValues :: "helpers \<Rightarrow> P2PoolWorker \<Rightarrow> error + row" where
  "workerValues H worker =
     (let wHashrate = (case w_computed_hash_rate worker of None \<Rightarrow> no_hashrates | Some h \<Rightarrow> h) in
      bind_err (converted H (hashrate_1m wHashrate)) (\<lambda>h1m.
      bind_err (converted H (hashrate_5m wHashrate)) (\<lambda>h5m.
      bind_err (converted H (hashrate_1hr wHashrate)) (\<lambda>h1hr.
      bind_err (converted H (hashrate_1d wHashrate)) (\<lambda>h1d.
      bind_err (converted H (hashrate_7d wHashrate)) (\<lambda>h7d.
      Inr (map_of
          [(''hashrate1m'', h1m), (''hashrate5m'', h5m), (''hashrate1hr'', h1hr),
           (''hashrate1d'', h1d), (''hashrate7d'', h7d),
           (''shares'', Text (str_or0 (w_shares worker))),
           (''bestShare'', Number (parseFloat H (str_or0 (w_bestshare worker)))),
           (''bestEver'', Text (str_or0 (w_bestever worker))),
           (''lastUpdate'', Time (Date_of_seconds (or0 (lastshare worker))))])))))))"

text \<open>
  The body of the loop over \<open>Object.entries(user.workers || {})\<close>: find the worker by
  (userAddress, name), update it or create it, save it, and insert a WorkerStats row
  that refers to the saved worker's id.
\<close>

definition worker_step :: "world \<Rightarrow> helpers \<Rightarrow> string \<Rightarrow> string \<times> P2PoolWorker \<Rightarrow> unit action" where
  "worker_step W H address entry =
     (\<lambda>s. case entry of (workerName, worker) \<Rightarrow>
        (let dbWorker = findOne [(''userAddress'', Text address), (''name'', Text workerName)]
                          (contents s Worker)
         in and_then (lift (workerValues H worker)) (\<lambda>vals.
            and_then (save W Worker
                        (case dbWorker of
                           Some found \<Rightarrow> assign found vals
                         | None \<Rightarrow>
                             assign (map_of [(''userAddress'', Text address),
                                             (''name'', Text workerName)]) vals))
              (\<lambda>savedWorker.
            and_then (save W WorkerStats
                        (assign (map_of [(''workerId'', get_column savedWorker ''id'')]) vals))
              (\<lambda>_. succeed ()))) s))"

text \<open>The User entity that is saved: a new one, or the one found, with two assignments.\<close>

definition user_entity :: "helpers \<Rightarrow> string \<Rightarrow> P2PoolUser \<Rightarrow> row option \<Rightarrow> row" where
  "user_entity H address user dbUser =
     (case dbUser of
        None \<Rightarrow> map_of
                 [(''address'', Text address),
                  (''authorised'', Text (Number_toString (other_digits H) (or0 (authorised user)))),
                  (''isActive'', Bool True)]
      | Some found \<Rightarrow>
          set_column ''authorised'' (Text (Number_toString (other_digits H) (or0 (authorised user))))
            (set_column ''isActive'' (Bool True) found))"

text \<open>The callback given to \<open>db.transaction\<close> for one address.\<close>

definition address_writes :: "world \<Rightarrow> helpers \<Rightarrow> string \<times> P2PoolUser \<Rightarrow> unit action" where
  "address_writes W H entry =
     (\<lambda>s. case entry of (address, user) \<Rightarrow>
        (let dbUser = findOne [(''address'', Text address)] (contents s User)
         in and_then (save W User (user_entity H address user dbUser)) (\<lambda>_.
            and_then (lift (userStats_entity H address user)) (\<lambda>userStats.
            and_then (save W UserStats userStats) (\<lambda>_.
            for_each (worker_step W H address) (entries_or_empty (workers user))))) s))"

text \<open>One member of a batch: \<open>async ([address, user]) => { await db.transaction(...) }\<close>.\<close>

definition address_task :: "world \<Rightarrow> helpers \<Rightarrow> string \<times> P2PoolUser \<Rightarrow> unit action" where
  "address_task W H entry = transaction (address_writes W H entry)"

text \<open>
  \<^verbatim>\<open>for (let i = 0; i < userEntries.length; i += BATCH_SIZE) {
    const batch = userEntries.slice(i, i + BATCH_SIZE);
    console.log(`Processing batch ${i / BATCH_SIZE + 1}`);
    await Promise.all(batch.map(async ([address, user]) => { ... }));
  }\<close>
  from index \<open>i\<close> on.
\<close>

function process_batches ::
  "world \<Rightarrow> helpers \<Rightarrow> nat \<Rightarrow> (string \<times> P2PoolUser) list \<Rightarrow> unit action" where
  "process_batches W H i userEntries s =
     (if i < length userEntries
      then (case and_then (log (Out (''Processing batch '' @ nat_toString (i div BATCH_SIZE + 1))))
                   (\<lambda>_. promise_all W (i div BATCH_SIZE + 1) (address_task W H)
                          (slice i (i + BATCH_SIZE) userEntries)) s of
              (Inl e, s') \<Rightarrow> (Inl e, s')
            | (Inr _, s') \<Rightarrow> process_batches W H (i + BATCH_SIZE) userEntries s')
      else (Inr (), s))"
  by pat_completeness auto
termination
  by (relation "measure (\<lambda>(W, H, i, userEntries, s). length userEntries - i)")
     (auto simp: BATCH_SIZE_def)

declare process_batches.simps [simp del]

text \<open>
  \<^verbatim>\<open>async function updateUsersFromJson(): Promise<void> {
    console.log('Reading P2Pool stats from:', statsFile);
    const raw = fs.readFileSync(statsFile, 'utf-8');
    const json: P2PoolJson = JSON.parse(raw);
    const db = await getDb();
    try {
      const userEntries = Object.entries(json.users || {});
      console.log(`Found ${userEntries.length} users in JSON`);
      ... the loop over the batches ...
    } finally {
      await db.destroy();
    }
  }\<close>
\<close>

definition updateUsersFromJson :: "world \<Rightarrow> helpers \<Rightarrow> unit action" where
  "updateUsersFromJson W H =
     and_then (log (Out (''Reading P2Pool stats from: '' @ stats_file W))) (\<lambda>_.
     and_then (lift (read_file W)) (\<lambda>raw.
     and_then (lift (JSON_parse W raw)) (\<lambda>json.
     and_then (getDb W) (\<lambda>_.
     try_finally
       (and_then (log (Out (''Found '' @ nat_toString (length (entries_or_empty (users json)))
                        @ '' users in JSON'')))
          (\<lambda>_. process_batches W H 0 (entries_or_empty (users json))))
       (destroy W)))))"

text \<open>
  The script's last line, \<open>updateUsersFromJson().catch(console.error)\<close>, and the status
  the process exits with: a rejection is handled by logging it, so the process ends
  normally, with status \<open>0\<close>, either way.
\<close>

definition update_main :: "world \<Rightarrow> helpers \<Rightarrow> state \<Rightarrow> nat \<times> state" where
  "update_main W H s =
     (case updateUsersFromJson W H s of
        (Inl e, s') \<Rightarrow> (0, snd (log (Err '''' e) s'))
      | (Inr _, s') \<Rightarrow> (0, s'))"

text \<open>
  The loop seen as a traversal of the list of batches, the \<open>k\<close>-th batch first; it is
  shown below to be what \<open>process_batches\<close> does on \<open>batches_from\<close>.
\<close>

fun run_batches ::
  "world \<Rightarrow> helpers \<Rightarrow> nat \<Rightarrow> (string \<times> P2PoolUser) list list \<Rightarrow> unit action" where
  "run_batches W H k [] = succeed ()"
| "run_batches W H k (batch # later) =
     and_then (log (Out (''Processing batch '' @ nat_toString k))) (\<lambda>_.
     and_then (promise_all W k (address_task W H) batch) (\<lambda>_.
     run_batches W H (Suc k) later))"


section \<open>The sequential updater (\<open>updateUsersFromLogs.js\<close>)\<close>

text \<open>\<open>x.computed_hash_rate?.field\<close>\<close>

definition optional_field :: "ComputedHashRate option \<Rightarrow> (ComputedHashRate \<Rightarrow> jsval) \<Rightarrow> jsval" where
  "optional_field h field = (case h of None \<Rightarrow> Undefined | Some x \<Rightarrow> field x)"

text \<open>
  The five columns \<open>hashrate1m: scaleHashrate(x.computed_hash_rate?.hashrate_1m), ...\<close>
  of an entity, evaluated in order.
\<close>

definition scaled_columns :: "ComputedHashRate option \<Rightarrow> error + columns" where
  "scaled_columns h =
     bind_err (scaleHashrate (Declared (optional_field h hashrate_1m))) (\<lambda>h1m.
     bind_err (scaleHashrate (Declared (optional_field h hashrate_5m))) (\<lambda>h5m.
     bind_err (scaleHashrate (Declared (optional_field h hashrate_1hr))) (\<lambda>h1hr.
     bind_err (scaleHashrate (Declared (optional_field h hashrate_1d))) (\<lambda>h1d.
     bind_err (scaleHashrate (Declared (optional_field h hashrate_7d))) (\<lambda>h7d.
     Inr [(''hashrate1m'', Big h1m), (''hashrate5m'', Big h5m), (''hashrate1hr'', Big h1hr),
          (''hashrate1d'', Big h1d), (''hashrate7d'', Big h7d)])))))"

text \<open>\<open>timestamp: new Date((json.lastupdate ?? Math.floor(Date.now() / 1000)) * 1000)\<close>\<close>

definition timestamp_column :: "helpers \<Rightarrow> P2PoolJson \<Rightarrow> string \<times> cell" where
  "timestamp_column H json = (''timestamp'', Time (Date_of_seconds (or_now H (lastupdate json))))"

text \<open>The body of the inner loop: a Worker row and a WorkerStats row, each saved on its own.\<close>

definition worker_step_js ::
  "world \<Rightarrow> helpers \<Rightarrow> P2PoolJson \<Rightarrow> string \<Rightarrow> string \<times> P2PoolWorker \<Rightarrow> unit action" where
  "worker_step_js W H json address entry =
     (case entry of (workerName, workerData) \<Rightarrow>
        and_then (lift (scaled_columns (w_computed_hash_rate workerData))) (\<lambda>cols.
        and_then (save W Worker
                    (map_of ([(''userAddress'', Text address), (''name'', Text workerName)] @ cols)))
          (\<lambda>workerEntity.
        and_then (lift (scaled_columns (w_computed_hash_rate workerData))) (\<lambda>cols'.
        and_then (save W WorkerStats
                    (map_of ((''workerId'', get_column workerEntity ''id'') # cols'
                             @ [timestamp_column H json])))
          (\<lambda>_. succeed ())))))"

text \<open>The body of the loop over \<open>usersArray\<close>; no transaction surrounds its writes.\<close>

definition user_step_js ::
  "world \<Rightarrow> helpers \<Rightarrow> P2PoolJson \<Rightarrow> string \<times> P2PoolUser \<Rightarrow> unit action" where
  "user_step_js W H json entry =
     (case entry of (address, user) \<Rightarrow>
        and_then (save W User (map_of [(''address'', Text address)])) (\<lambda>_.
        and_then (lift (scaled_columns (computed_hash_rate user))) (\<lambda>cols.
        and_then (save W UserStats
                    (map_of ((''userAddress'', Text address) # cols @ [timestamp_column H json])))
          (\<lambda>_.
        and_then (for_each (worker_step_js W H json address) (entries_or_empty (workers user))) (\<lambda>_.
        log (Out (''Updated user and workers for: '' @ address)))))))"

text \<open>
  \<^verbatim>\<open>async function updateUsersFromJson() {
    let db;
    try {
      const data = fs.readFileSync(filePath, 'utf-8');
      const json = JSON.parse(data);
      const usersArray = Object.entries(json.users || {});
      console.log(`Found ${usersArray.length} users in pool_stats.json`);
      db = await getDb();
      for (const [address, user] of usersArray) { ... }
      console.log('All users and workers updated successfully (JSON updated)');
    } catch (err) {
      console.error('Error updating users:', err);
    } finally {
      if (db) await db.destroy();
    }
  }\<close>
  An error before \<open>db\<close> is set is caught and logged, and \<open>finally\<close> has nothing to
  destroy; after that, \<open>finally\<close> destroys the connection.
\<close>

definition updateUsersFromJson_js :: "world \<Rightarrow> helpers \<Rightarrow> unit action" where
  "updateUsersFromJson_js W H =
     (\<lambda>s. case and_then (lift (read_file W)) (\<lambda>data.
                and_then (lift (JSON_parse W data)) (\<lambda>json.
                and_then (log (Out (''Found '' @ nat_toString (length (entries_or_empty (users json)))
                                 @ '' users in pool_stats.json''))) (\<lambda>_.
                and_then (getDb W) (\<lambda>_. succeed json)))) s of
        (Inl err, s') \<Rightarrow> log (Err ''Error updating users:'' err) s'
      | (Inr json, s') \<Rightarrow>
          try_finally
            (try_catch
               (and_then (for_each (user_step_js W H json) (entries_or_empty (users json))) (\<lambda>_.
                log (Out ''All users and workers updated successfully (JSON updated)'')))
               (\<lambda>err. log (Err ''Error updating users:'' err)))
            (destroy W) s')"

text \<open>
  \<open>(async () => { await updateUsersFromJson(); })();\<close> and the exit status: \<open>0\<close> when
  the promise is fulfilled, \<open>1\<close> (an unhandled rejection) when it is rejected.
\<close>

definition update_main_js :: "world \<Rightarrow> helpers \<Rightarrow> state \<Rightarrow> nat \<times> state" where
  "update_main_js W H s =
     (case updateUsersFromJson_js W H s of
        (Inl e, s') \<Rightarrow> (1, s')
      | (Inr _, s') \<Rightarrow> (0, s'))"

section \<open>The seed script\<close>

text \<open>
  \<open>BigInt(string)\<close>: an optional sign and decimal digits give that integer, the empty
  string gives \<open>0\<close>, anything else raises SyntaxError. (Radix prefixes and surrounding
  white space are not modelled: the argument is always the result of
  \<open>BigInt.prototype.toString\<close>.)
\<close>

definition digit_value :: "char \<Rightarrow> nat option" where
  "digit_value c =
     map_of [(CHR ''0'', 0), (CHR ''1'', 1), (CHR ''2'', 2), (CHR ''3'', 3), (CHR ''4'', 4),
             (CHR ''5'', 5), (CHR ''6'', 6), (CHR ''7'', 7), (CHR ''8'', 8), (CHR ''9'', 9)] c"

fun digits_value :: "nat \<Rightarrow> string \<Rightarrow> nat option" where
  "digits_value acc [] = Some acc"
| "digits_value acc (c # cs) =
     (case digit_value c of None \<Rightarrow> None | Some d \<Rightarrow> digits_value (acc * 10 + d) cs)"

definition BigInt_string :: "string \<Rightarrow> error + int" where
  "BigInt_string s =
     (case s of
        [] \<Rightarrow> Inr 0
      | c # cs \<Rightarrow>
          if (c = CHR ''-'' \<or> c = CHR ''+'') \<and> cs \<noteq> []
          then (case digits_value 0 cs of
                  None \<Rightarrow> Inl SyntaxError
                | Some n \<Rightarrow> Inr (if c = CHR ''-'' then - int n else int n))
          else (case digits_value 0 s of None \<Rightarrow> Inl SyntaxError | Some n \<Rightarrow> Inr (int n)))"

text \<open>
  \<^verbatim>\<open>function readP2PoolJson(): P2PoolJson {
    const data = fs.readFileSync(filePath, 'utf-8');
    return JSON.parse(data);
  }\<close>
\<close>

definition readP2PoolJson :: "world \<Rightarrow> error + P2PoolJson" where
  "readP2PoolJson W = bind_err (read_file W) (JSON_parse W)"

text \<open>
  The object given to \<open>poolRepo.create\<close>: the fields of \<open>stats\<close> in their order, the
  seven hashrates replaced by \<open>BigInt(stats.hashrateX)\<close>.
\<close>

definition poolStats_entity :: "PoolStatsData \<Rightarrow> error + row" where
  "poolStats_entity stats =
     bind_err (BigInt_string (ps_hashrate1m stats)) (\<lambda>h1m.
     bind_err (BigInt_string (ps_hashrate5m stats)) (\<lambda>h5m.
     bind_err (BigInt_string (ps_hashrate15m stats)) (\<lambda>h15m.
     bind_err (BigInt_string (ps_hashrate1hr stats)) (\<lambda>h1hr.
     bind_err (BigInt_string (ps_hashrate6hr stats)) (\<lambda>h6hr.
     bind_err (BigInt_string (ps_hashrate1d stats)) (\<lambda>h1d.
     bind_err (BigInt_string (ps_hashrate7d stats)) (\<lambda>h7d.
     Inr (map_of
         [(''runtime'', Number (ps_runtime stats)), (''users'', Number (ps_users stats)),
          (''workers'', Number (ps_workers stats)), (''idle'', Number (ps_idle stats)),
          (''disconnected'', Number (ps_disconnected stats)),
          (''hashrate1m'', Big h1m), (''hashrate5m'', Big h5m), (''hashrate15m'', Big h15m),
          (''hashrate1hr'', Big h1hr), (''hashrate6hr'', Big h6hr), (''hashrate1d'', Big h1d),
          (''hashrate7d'', Big h7d),
          (''diff'', ps_diff stats), (''accepted'', Text (ps_accepted stats)),
          (''rejected'', Text (ps_rejected stats)), (''bestshare'', Text (ps_bestshare stats)),
          (''SPS1m'', ps_SPS1m stats), (''SPS5m'', ps_SPS5m stats),
          (''SPS15m'', ps_SPS15m stats), (''SPS1h'', ps_SPS1h stats),
          (''timestamp'', Time (ps_timestamp stats))]))))))))"

text \<open>
  The elements \<open>{address, hashrate, raw}\<close> that the top-10 selection maps the entries to,
  with \<open>hashrate: user.computed_hash_rate?.hashrate_1d ?? 0\<close>.
\<close>

record ranked =
  r_address :: string
  r_hashrate :: jsnum
  r_raw :: P2PoolUser

definition rank_entry :: "string \<times> P2PoolUser \<Rightarrow> ranked" where
  "rank_entry entry =
     (case entry of (address, user) \<Rightarrow>
        \<lparr>r_address = address,
         r_hashrate = nullish0 (optional_field (computed_hash_rate user) hashrate_1d),
         r_raw = user\<rparr>)"

text \<open>
  \<open>x - y\<close> on numbers. The difference of two finite doubles is rounded, but it has the
  sign of the exact difference (by gradual underflow it is zero only for equal
  arguments, and an overflow keeps the sign), and the sign is all that \<open>sort\<close> reads;
  the exact difference stands for it here.
\<close>

fun minus_num :: "jsnum \<Rightarrow> jsnum \<Rightarrow> jsnum" where
  "minus_num NaN y = NaN"
| "minus_num x NaN = NaN"
| "minus_num (Fin a) (Fin b) = Fin (a - b)"
| "minus_num (Fin a) PosInf = NegInf"
| "minus_num (Fin a) NegInf = PosInf"
| "minus_num PosInf PosInf = NaN"
| "minus_num PosInf y = PosInf"
| "minus_num NegInf NegInf = NaN"
| "minus_num NegInf y = NegInf"

text \<open>The comparator \<open>(a, b) => b.hashrate - a.hashrate\<close>.\<close>

definition by_hashrate_desc :: "ranked \<Rightarrow> ranked \<Rightarrow> jsnum" where
  "by_hashrate_desc a b = minus_num (r_hashrate b) (r_hashrate a)"

text \<open>
  \<open>Array.prototype.sort(comparefn)\<close>. The sort is stable; \<open>a\<close> is placed after \<open>b\<close> when
  \<open>comparefn(a, b) > 0\<close>, and a NaN result counts as \<open>0\<close>. For a consistent comparator
  the result is the one stable arrangement, computed here by inserting the elements
  from the last to the first, each before the first element it need not follow.
\<close>

fun positive :: "jsnum \<Rightarrow> bool" where
  "positive (Fin d) = (0 < d)"
| "positive PosInf = True"
| "positive NegInf = False"
| "positive NaN = False"

fun insert_sorted :: "('a \<Rightarrow> 'a \<Rightarrow> jsnum) \<Rightarrow> 'a \<Rightarrow> 'a list \<Rightarrow> 'a list" where
  "insert_sorted comparefn x [] = [x]"
| "insert_sorted comparefn x (y # ys) =
     (if positive (comparefn x y) then y # insert_sorted comparefn x ys else x # y # ys)"

definition sort_by :: "('a \<Rightarrow> 'a \<Rightarrow> jsnum) \<Rightarrow> 'a list \<Rightarrow> 'a list" where
  "sort_by comparefn xs = foldr (insert_sorted comparefn) xs []"

text \<open>
  \<^verbatim>\<open>const usersArray = Object.entries(p2poolJson.users || {});
  const topUsers = usersArray
    .map(([address, user]) => ({ address, hashrate: ..., raw: user }))
    .sort((a, b) => b.hashrate - a.hashrate)
    .slice(0, 10);\<close>
\<close>

definition topUsers :: "P2PoolJson \<Rightarrow> ranked list" where
  "topUsers p2poolJson =
     slice 0 10 (sort_by by_hashrate_desc (map rank_entry (entries_or_empty (users p2poolJson))))"

text \<open>
  The body of the loop over \<open>topUsers\<close>: a User row with the address alone, then a
  UserStats row with \<open>hashrate1d: BigInt(u.hashrate)\<close>, the unscaled number, which
  raises RangeError when it is not integral.
\<close>

definition top_user_step :: "world \<Rightarrow> PoolStatsData \<Rightarrow> ranked \<Rightarrow> unit action" where
  "top_user_step W stats u =
     and_then (save W User (map_of [(''address'', Text (r_address u))])) (\<lambda>_.
     and_then (lift (BigInt (r_hashrate u))) (\<lambda>h1d.
     and_then (save W UserStats
                 (map_of [(''userAddress'', Text (r_address u)), (''hashrate1d'', Big h1d),
                          (''timestamp'', Time (ps_timestamp stats))])) (\<lambda>_.
     succeed ())))"

text \<open>
  \<^verbatim>\<open>async function seed() {
    let db: any;
    try {
      console.log('Reading pool stats from disk...');
      const p2poolJson = readP2PoolJson();
      const stats = p2poolToCkpool(p2poolJson);
      db = await getDb();
      const poolStats = poolRepo.create({ ...stats, hashrate1m: BigInt(stats.hashrate1m), ... });
      await poolRepo.save(poolStats);
      ... topUsers and the loop over them ...
      console.log('Database seeded successfully');
    } catch (error) {
      console.error('Error seeding database:', error);
    } finally {
      if (db) await db.destroy();
    }
  }\<close>
\<close>

definition seed :: "world \<Rightarrow> helpers \<Rightarrow> unit action" where
  "seed W H =
     (\<lambda>s. case and_then (log (Out ''Reading pool stats from disk...'')) (\<lambda>_.
                and_then (lift (readP2PoolJson W)) (\<lambda>p2poolJson.
                and_then (lift (p2poolToCkpool H p2poolJson)) (\<lambda>stats.
                and_then (getDb W) (\<lambda>_. succeed (p2poolJson, stats))))) s of
        (Inl err, s') \<Rightarrow> log (Err ''Error seeding database:'' err) s'
      | (Inr (p2poolJson, stats), s') \<Rightarrow>
          try_finally
            (try_catch
               (and_then (lift (poolStats_entity stats)) (\<lambda>poolStats.
                and_then (save W PoolStats poolStats) (\<lambda>_.
                and_then (for_each (top_user_step W stats) (topUsers p2poolJson)) (\<lambda>_.
                log (Out ''Database seeded successfully'')))))
               (\<lambda>err. log (Err ''Error seeding database:'' err)))
            (destroy W) s')"

text \<open>
  \<open>(async () => { await seed(); console.log('Seeding completed successfully.'); })();\<close>
  and the exit status: \<open>1\<close> only for an unhandled rejection.
\<close>

definition seed_main :: "world \<Rightarrow> helpers \<Rightarrow> state \<Rightarrow> nat \<times> state" where
  "seed_main W H s =
     (case and_then (seed W H) (\<lambda>_. log (Out ''Seeding completed successfully.'')) s of
        (Inl e, s') \<Rightarrow> (1, s')
      | (Inr _, s') \<Rightarrow> (0, s'))"

subsection \<open>The version of the seed script that exits with a status\<close>

text \<open>
  This version records the pool rollup only. Its \<open>readP2PoolJson\<close> wraps every error of
  reading or parsing into a new Error, and its \<open>p2poolToCkpool\<close> differs in the fields
  it turns into strings: \<open>String(x ?? '0')\<close>, which is \<open>String(x ?? 0)\<close>.
\<close>

definition readP2PoolJson_v1 :: "world \<Rightarrow> error + P2PoolJson" where
  "readP2PoolJson_v1 W =
     (case bind_err (read_file W) (JSON_parse W) of
        Inl e \<Rightarrow> Inl (Rethrown e)
      | Inr json \<Rightarrow> Inr json)"

definition p2poolToCkpool_v1 :: "helpers \<Rightarrow> P2PoolJson \<Rightarrow> error + PoolStatsData" where
  "p2poolToCkpool_v1 H p2pool =
     bind_err (p2poolToCkpool H p2pool) (\<lambda>stats.
     Inr (stats\<lparr>
       ps_diff := Text (Number_toString (other_digits H) (nullish0 (difficulty p2pool))),
       ps_SPS1m := Text (Number_toString (other_digits H)
                     (share_rate_or0 p2pool shares_per_second_1m)),
       ps_SPS5m := Text (Number_toString (other_digits H)
                     (share_rate_or0 p2pool shares_per_second_5m)),
       ps_SPS15m := Text (Number_toString (other_digits H)
                     (share_rate_or0 p2pool shares_per_second_15m)),
       ps_SPS1h := Text (Number_toString (other_digits H)
                     (share_rate_or0 p2pool shares_per_second_1h))\<rparr>))"

text \<open>\<open>fetchPoolStats\<close>: read, then transform.\<close>

definition fetchPoolStats :: "world \<Rightarrow> helpers \<Rightarrow> error + PoolStatsData" where
  "fetchPoolStats W H = bind_err (readP2PoolJson_v1 W) (p2poolToCkpool_v1 H)"

text \<open>
  \<^verbatim>\<open>async function seed() {
    let db: any;
    try {
      console.log('Reading pool stats from disk...');
      const stats = await fetchPoolStats();
      console.log('Saving pool stats to database...');
      db = await getDb();
      const poolStats = poolStatsRepository.create({ runtime: stats.runtime, ... });
      await poolStatsRepository.save(poolStats);
      console.log('Database seeded successfully');
    } catch (error) {
      console.error('Error seeding database:', error);
    } finally {
      if (db) { await db.destroy(); }
    }
  }\<close>
\<close>

definition seed_v1 :: "world \<Rightarrow> helpers \<Rightarrow> unit action" where
  "seed_v1 W H =
     (\<lambda>s. case and_then (log (Out ''Reading pool stats from disk...'')) (\<lambda>_.
                and_then (lift (fetchPoolStats W H)) (\<lambda>stats.
                and_then (log (Out ''Saving pool stats to database...'')) (\<lambda>_.
                and_then (getDb W) (\<lambda>_. succeed stats)))) s of
        (Inl err, s') \<Rightarrow> log (Err ''Error seeding database:'' err) s'
      | (Inr stats, s') \<Rightarrow>
          try_finally
            (try_catch
               (and_then (lift (poolStats_entity stats)) (\<lambda>poolStats.
                and_then (save W PoolStats poolStats) (\<lambda>_.
                log (Out ''Database seeded successfully''))))
               (\<lambda>err. log (Err ''Error seeding database:'' err)))
            (destroy W) s')"

text \<open>
  \<^verbatim>\<open>(async () => {
    try {
      await seed();
      console.log('Seeding completed successfully.');
    } catch (error) {
      console.error('Error during seeding:', error);
      process.exit(1);
    }
  })();\<close>
\<close>

definition seed_main_v1 :: "world \<Rightarrow> helpers \<Rightarrow> state \<Rightarrow> nat \<times> state" where
  "seed_main_v1 W H s =
     (case and_then (seed_v1 W H) (\<lambda>_. log (Out ''Seeding completed successfully.'')) s of
        (Inl e, s') \<Rightarrow> (1, snd (log (Err ''Error during seeding:'' e) s'))
      | (Inr _, s') \<Rightarrow> (0, s'))"

section \<open>The active flag across a run\<close>

text \<open>
  Every user that is inactive in the store \<open>d\<close> (its \<open>isActive\<close> column is \<open>false\<close>) was
  inactive, under the same address, in the store \<open>d0\<close>: going from \<open>d0\<close> to \<open>d\<close>, no
  user's flag was set to \<open>false\<close>.
\<close>

definition no_user_deactivated :: "db \<Rightarrow> db \<Rightarrow> bool" where
  "no_user_deactivated d0 d =
     (\<forall>r\<in>set (d User). get_column r ''isActive'' = Bool False \<longrightarrow>
        (\<exists>r0\<in>set (d0 User). get_column r0 ''address'' = get_column r ''address''
                             \<and> get_column r0 ''isActive'' = Bool False))"

text \<open>An action that deactivates no user, whatever state it starts in and however it ends.\<close>

definition keeps_active :: "'a action \<Rightarrow> bool" where
  "keeps_active f = (\<forall>s r s'. f s = (r, s') \<longrightarrow> no_user_deactivated (contents s) (contents s'))"

section \<open>Which addresses a run writes\<close>

text \<open>
  Every User row and every UserStats row of the store \<open>d\<close> is a row of the store \<open>d0\<close> or
  carries an address of the set \<open>A\<close>: going from \<open>d0\<close> to \<open>d\<close>, no User or UserStats
  row was written for an address outside \<open>A\<close>.
\<close>

definition writes_within :: "string set \<Rightarrow> db \<Rightarrow> db \<Rightarrow> bool" where
  "writes_within A d0 d =
     ((\<forall>r\<in>set (d User). r \<in> set (d0 User) \<or> (\<exists>a\<in>A. r ''address'' = Some (Text a)))
      \<and> (\<forall>r\<in>set (d UserStats).
            r \<in> set (d0 UserStats) \<or> (\<exists>a\<in>A. r ''userAddress'' = Some (Text a))))"

text \<open>An action whose every run, from any state, is related by \<open>R\<close> to the store it began with.\<close>

definition maintains :: "(db \<Rightarrow> db \<Rightarrow> bool) \<Rightarrow> 'a action \<Rightarrow> bool" where
  "maintains R f = (\<forall>s r s'. f s = (r, s') \<longrightarrow> R (contents s) (contents s'))"

section \<open>Concrete runs\<close>

text \<open>
  In the worlds below, unless it is said otherwise, the members of a batch settle in
  the order of the list and none is cut off.

  An empty store and an empty console.
\<close>

definition empty_state :: state where
  "empty_state = \<lparr>contents = (\<lambda>t. []), console = []\<rparr>"

text \<open>
  Eleven users \<open>a01, ..., a11\<close>, each the empty object, and a world in which the file is
  read and parsed to that snapshot, the connection opens and closes, and the backend
  rejects the User row of \<open>a01\<close> and nothing else. The members of a batch settle in
  the order of the list, so \<open>a01\<close>, rejected at its first write, fails first; of the
  nine members in flight then, the first four still commit and the connection closes
  under the other five.
\<close>

definition eleven_users :: P2PoolJson where
  "eleven_users = empty_snapshot\<lparr>users := Some (map (\<lambda>a. (a, empty_user))
     [''a01'', ''a02'', ''a03'', ''a04'', ''a05'', ''a06'', ''a07'', ''a08'', ''a09'', ''a10'',
      ''a11''])\<rparr>"



text \<open>
  The snapshot
  \<^verbatim>\<open>{"users": {"addr1": {"authorised": 1, "computed_hash_rate": {"hashrate_1d": 2.5},
     "workers": {"rig1": {"computed_hash_rate": {"hashrate_1d": 2.5},
                          "lastshare": 1700000000}}}}}\<close>
  and a world in which the backend rejects every insert into WorkerStats and nothing
  else.
\<close>

definition one_user_one_worker :: P2PoolJson where
  "one_user_one_worker = empty_snapshot\<lparr>users := Some [(''addr1'',
     empty_user\<lparr>authorised := Num (Fin 1), computed_hash_rate := Some (only_1d (5 / 2)),
       workers := Some [(''rig1'',
         empty_worker\<lparr>w_computed_hash_rate := Some (only_1d (5 / 2)),
           lastshare := Num (Fin 1700000000)\<rparr>)]\<rparr>)]\<rparr>"

definition world_worker_stats_rejected :: world where
  "world_worker_stats_rejected = \<lparr>stats_file = ''./pool_stats.json'',
     read_file = Inr ''(the snapshot)'', JSON_parse = (\<lambda>text. Inr one_user_one_worker),
     connect_error = None,
     rejects = (\<lambda>d t r. if t = WorkerStats then Some (QueryError ''worker_stats'') else None),
     destroy_error = None,
     settles_at = (\<lambda>k i. i), completes = (\<lambda>k i. True)\<rparr>"

text \<open>
  A world in which every write is accepted, and a store that already holds two inactive
  users: \<open>addr1\<close>, which the snapshot lists, and \<open>gone\<close>, which it does not.
\<close>

definition world_all_accepted :: world where
  "world_all_accepted = \<lparr>stats_file = ''./pool_stats.json'',
     read_file = Inr ''(the snapshot)'', JSON_parse = (\<lambda>text. Inr one_user_one_worker),
     connect_error = None, rejects = (\<lambda>d t r. None), destroy_error = None,
     settles_at = (\<lambda>k i. i), completes = (\<lambda>k i. True)\<rparr>"

definition two_inactive_users :: state where
  "two_inactive_users = \<lparr>contents = (\<lambda>t. [])(User :=
       [map_of [(''address'', Text ''addr1''), (''authorised'', Text ''0''),
                (''isActive'', Bool False)],
        map_of [(''address'', Text ''gone''), (''authorised'', Text ''0''),
                (''isActive'', Bool False)]]),
     console = []\<rparr>"

text \<open>
  Three worlds with a fatal error: the snapshot file cannot be read; it is read but is
  not JSON; it is read and parsed (to the empty object) but the backend is unreachable.
\<close>

definition world_file_unreadable :: world where
  "world_file_unreadable = \<lparr>stats_file = ''./pool_stats.json'', read_file = Inl FileError,
     JSON_parse = (\<lambda>text. Inr empty_snapshot), connect_error = None,
     rejects = (\<lambda>d t r. None), destroy_error = None,
     settles_at = (\<lambda>k i. i), completes = (\<lambda>k i. True)\<rparr>"

definition world_file_malformed :: world where
  "world_file_malformed = \<lparr>stats_file = ''./pool_stats.json'', read_file = Inr ''{'',
     JSON_parse = (\<lambda>text. Inl SyntaxError), connect_error = None,
     rejects = (\<lambda>d t r. None), destroy_error = None,
     settles_at = (\<lambda>k i. i), completes = (\<lambda>k i. True)\<rparr>"

definition world_backend_unreachable :: world where
  "world_backend_unreachable = \<lparr>stats_file = ''./pool_stats.json'', read_file = Inr ''{}'',
     JSON_parse = (\<lambda>text. Inr empty_snapshot), connect_error = Some ConnectionError,
     rejects = (\<lambda>d t r. None), destroy_error = None,
     settles_at = (\<lambda>k i. i), completes = (\<lambda>k i. True)\<rparr>"

text \<open>
  Twelve users with integral 1-day hashrates, four of them at \<open>7\<close> and two, \<open>u06\<close> and
  \<open>u08\<close>, at \<open>3\<close>, where the selection of ten ends; and a world that reads this
  snapshot and accepts every write.
\<close>

definition twelve_users :: P2PoolJson where
  "twelve_users = empty_snapshot\<lparr>users := Some
     (map (\<lambda>(a, h). (a, empty_user\<lparr>computed_hash_rate := Some (only_1d h)\<rparr>))
        [(''u01'', 5), (''u02'', 7), (''u03'', 7), (''u04'', 1), (''u05'', 9), (''u06'', 3),
         (''u07'', 7), (''u08'', 3), (''u09'', 8), (''u10'', 6), (''u11'', 4), (''u12'', 7)])\<rparr>"

definition world_twelve_users :: world where
  "world_twelve_users = \<lparr>stats_file = ''./pool_stats.json'',
     read_file = Inr ''(the snapshot)'', JSON_parse = (\<lambda>text. Inr twelve_users),
     connect_error = None, rejects = (\<lambda>d t r. None), destroy_error = None,
     settles_at = (\<lambda>k i. i), completes = (\<lambda>k i. True)\<rparr>"


text \<open>
  The same twelve users with the highest hashrate, that of \<open>u05\<close>, at \<open>9.5\<close> instead of
  \<open>9\<close>, and a world that reads this snapshot and accepts every write.
\<close>

definition twelve_users_fractional :: P2PoolJson where
  "twelve_users_fractional = empty_snapshot\<lparr>users := Some
     (map (\<lambda>(a, h). (a, empty_user\<lparr>computed_hash_rate := Some (only_1d h)\<rparr>))
        [(''u01'', 5), (''u02'', 7), (''u03'', 7), (''u04'', 1), (''u05'', 19 / 2), (''u06'', 3),
         (''u07'', 7), (''u08'', 3), (''u09'', 8), (''u10'', 6), (''u11'', 4), (''u12'', 7)])\<rparr>"

definition world_twelve_fractional :: world where
  "world_twelve_fractional = \<lparr>stats_file = ''./pool_stats.json'',
     read_file = Inr ''(the snapshot)'', JSON_parse = (\<lambda>text. Inr twelve_users_fractional),
     connect_error = None, rejects = (\<lambda>d t r. None), destroy_error = None,
     settles_at = (\<lambda>k i. i), completes = (\<lambda>k i. True)\<rparr>"

section \<open>Properties of the hashrate scaling\<close>

lemma MAX_VALUE_pos: "0 < MAX_VALUE"
  by (simp add: MAX_VALUE_def)

lemma BigInt_of_int: "BigInt (Fin (of_int i)) = Inr i"
  by simp

text \<open>At the declared type the coercion is the identity on numbers.\<close>

lemma ToNumber_or_zero_Declared: "ToNumber (or_zero (Declared v)) = Inr (or0 v)"
proof (cases v)
  case (Num n)
  then show ?thesis by (cases n) (simp_all add: or_zero_def)
qed (simp_all add: or_zero_def)

lemma scaleHashrate_Declared:
  "scaleHashrate (Declared v) = BigInt (Math_round (times_factor (or0 v)))"
  by (simp add: scaleHashrate_def ToNumber_or_zero_Declared)

lemma scaleHashrate_in_range:
  assumes "- MAX_VALUE \<le> r * HASHRATE_FACTOR" and "r * HASHRATE_FACTOR \<le> MAX_VALUE"
  shows "scaleHashrate (Declared (Num (Fin r))) = Inr (round (r * HASHRATE_FACTOR))"
proof (cases "r = 0")
  case True
  then show ?thesis
    using MAX_VALUE_pos by (simp add: scaleHashrate_Declared not_less less_imp_le)
next
  case False
  with assms show ?thesis by (simp add: scaleHashrate_Declared)
qed

lemma scaleHashrate_overflow:
  assumes "MAX_VALUE < \<bar>r * HASHRATE_FACTOR\<bar>"
  shows "scaleHashrate (Declared (Num (Fin r))) = Inl RangeError"
proof -
  from assms have nz: "r \<noteq> 0"
    using MAX_VALUE_pos by auto
  from assms consider "MAX_VALUE < r * HASHRATE_FACTOR" | "r * HASHRATE_FACTOR < - MAX_VALUE"
    by linarith
  then show ?thesis
  proof cases
    case 1
    with nz show ?thesis by (simp add: scaleHashrate_Declared)
  next
    case 2
    with MAX_VALUE_pos have "\<not> MAX_VALUE < r * HASHRATE_FACTOR" by linarith
    with 2 nz show ?thesis by (simp add: scaleHashrate_Declared)
  qed
qed

lemma scaleHashrate_falsy:
  "scaleHashrate (Declared Undefined) = Inr 0" "scaleHashrate (Declared Null) = Inr 0"
  "scaleHashrate (Declared (Num NaN)) = Inr 0" "scaleHashrate (Declared (Num (Fin 0))) = Inr 0"
  "scaleHashrate (Boolean False) = Inr 0" "scaleHashrate (Str []) = Inr 0"
  using MAX_VALUE_pos
  by (simp_all add: scaleHashrate_def or_zero_def not_less less_imp_le)

lemma scaleHashrate_infinite:
  "scaleHashrate (Declared (Num PosInf)) = Inl RangeError"
  "scaleHashrate (Declared (Num NegInf)) = Inl RangeError"
  by (simp_all add: scaleHashrate_Declared)

text \<open>
  What \<open>BigInt(Math.round(n * HASHRATE_FACTOR))\<close> does to a number: RangeError for NaN,
  for an infinity and for a product that overflows, the rounded product otherwise.
\<close>

lemma scaled_cases:
  "BigInt (Math_round (times_factor n))
   = (case n of
        Fin q \<Rightarrow> if MAX_VALUE < \<bar>q * 2 ^ 32\<bar> then Inl RangeError else Inr (round (q * 2 ^ 32))
      | _ \<Rightarrow> Inl RangeError)"
proof (cases n)
  case (Fin q)
  show ?thesis
  proof (cases "MAX_VALUE < \<bar>q * 2 ^ 32\<bar>")
    case True
    then have "MAX_VALUE < q * 2 ^ 32 \<or> q * 2 ^ 32 < - MAX_VALUE" by linarith
    with Fin True MAX_VALUE_pos show ?thesis
      by (auto simp: HASHRATE_FACTOR_def)
  next
    case False
    then have "\<not> MAX_VALUE < q * 2 ^ 32" "\<not> q * 2 ^ 32 < - MAX_VALUE" by linarith+
    with Fin False show ?thesis
      by (simp add: HASHRATE_FACTOR_def)
  qed
qed simp_all

lemma scaled_raises:
  "BigInt (Math_round (times_factor n)) = Inl e \<longleftrightarrow>
     e = RangeError
     \<and> (n = NaN \<or> n = PosInf \<or> n = NegInf \<or> (\<exists>q. n = Fin q \<and> MAX_VALUE < \<bar>q * 2 ^ 32\<bar>))"
  unfolding scaled_cases by (cases n) auto

lemma no_primitive_truthy: "no_primitive v \<Longrightarrow> is_truthy v"
  by (cases v) simp_all

lemma ToNumber_raises: "ToNumber v = Inl e \<longleftrightarrow> e = TypeError \<and> no_primitive v"
  by (cases v rule: ToNumber.cases) auto

lemma scaleHashrate_cases:
  "scaleHashrate v = Inl e \<longleftrightarrow>
     ToNumber (or_zero v) = Inl e
     \<or> (\<exists>n. ToNumber (or_zero v) = Inr n \<and> BigInt (Math_round (times_factor n)) = Inl e)"
  unfolding scaleHashrate_def by (cases "ToNumber (or_zero v)") simp_all

lemma scaleHashrate_TypeError: "scaleHashrate v = Inl TypeError \<longleftrightarrow> no_primitive v"
proof
  assume "scaleHashrate v = Inl TypeError"
  then have "ToNumber (or_zero v) = Inl TypeError"
    unfolding scaleHashrate_cases scaled_raises by auto
  then have "no_primitive (or_zero v)" by (simp add: ToNumber_raises)
  then show "no_primitive v" by (simp add: or_zero_def split: if_splits)
next
  assume v: "no_primitive v"
  then have "or_zero v = v" by (simp add: or_zero_def no_primitive_truthy)
  moreover from v have "ToNumber v = Inl TypeError" by (simp add: ToNumber_raises)
  ultimately show "scaleHashrate v = Inl TypeError" by (simp add: scaleHashrate_def)
qed

lemma scaleHashrate_RangeError:
  "scaleHashrate v = Inl RangeError \<longleftrightarrow>
     (\<exists>n. ToNumber (or_zero v) = Inr n
        \<and> (n = NaN \<or> n = PosInf \<or> n = NegInf \<or> (\<exists>q. n = Fin q \<and> MAX_VALUE < \<bar>q * 2 ^ 32\<bar>)))"
  unfolding scaleHashrate_cases scaled_raises ToNumber_raises by auto

lemma scaleHashrate_errors: "scaleHashrate v = Inl e \<Longrightarrow> e = RangeError \<or> e = TypeError"
  unfolding scaleHashrate_cases scaled_raises ToNumber_raises by auto

lemma scaleHashrate_Object:
  "scaleHashrate (Object props) = Inl (if no_primitive (Object props) then TypeError else RangeError)"
  by (simp add: scaleHashrate_def or_zero_def)

lemma scaleHashrate_Str_NaN:
  "s \<noteq> [] \<Longrightarrow> StringToNumber s = NaN \<Longrightarrow> scaleHashrate (Str s) = Inl RangeError"
  by (simp add: scaleHashrate_def or_zero_def)

text \<open>
  Evaluating the coercion of a string: \<open>abc\<close> is no numeric literal; \<open>1.5\<close> is a
  double; \<open>0.1\<close> is not, and is rounded to the nearest one,
  \<open>3602879701896397 / 2^55\<close>.
\<close>

lemmas parse_defs = StringToNumber_def ascii_def trim_def white_space_def non_decimal_def
  radix_of_def unsigned_literal_def unsigned_decimal_def is_digit_def digit_of_def
  exponent_part_def digits_in_base_def Let_def

lemma round_half_even_of_int: "round_half_even (of_int i) = i"
  by (simp add: round_half_even_def)

lemma StringToNumber_abc: "StringToNumber (ascii ''abc'') = NaN"
  by (simp add: parse_defs)

lemma to_double_three_halves: "to_double (3 / 2) = Fin (3 / 2)"
proof -
  have b: "binade (3 / 2) = 0"
    by (simp add: binade_def eval_nat_numeral Let_def power_int_def)
  have "(3 / 2 :: rat) / 2 powi (- 52) = of_int 6755399441055744"
    by (simp add: power_int_def power_divide)
  then have r: "round_half_even ((3 / 2) / 2 powi (- 52)) = 6755399441055744"
    by (simp only: round_half_even_of_int)
  have y: "of_int 6755399441055744 * 2 powi (- 52) = (3 / 2 :: rat)"
    by (simp add: power_int_def power_divide)
  have m: "\<not> MAX_VALUE < 3 / 2"
    by (simp add: MAX_VALUE_def)
  show ?thesis
    using r y m by (simp add: to_double_def b Let_def)
qed

lemma StringToNumber_three_halves: "StringToNumber (ascii ''1.5'') = Fin (3 / 2)"
proof -
  have "StringToNumber (ascii ''1.5'') = to_double (3 / 2)"
    by (simp add: parse_defs)
  then show ?thesis by (simp only: to_double_three_halves)
qed

lemma to_double_tenth: "to_double (1 / 10) = Fin (3602879701896397 / 36028797018963968)"
proof -
  have b: "binade (1 / 10) = - 4"
    by (simp add: binade_def eval_nat_numeral Let_def power_int_def power_divide)
  have q: "(1 / 10 :: rat) / 2 powi (- 56) = 36028797018963968 / 5"
    by (simp add: power_int_def power_divide)
  have f: "\<lfloor>36028797018963968 / 5 :: rat\<rfloor> = 7205759403792793"
    by (simp add: floor_eq_iff)
  have r: "round_half_even (36028797018963968 / 5) = 7205759403792794"
    by (simp add: round_half_even_def f Let_def)
  have y: "of_int 7205759403792794 * 2 powi (- 56) = (3602879701896397 / 36028797018963968 :: rat)"
    by (simp add: power_int_def power_divide)
  have m: "\<not> MAX_VALUE < 3602879701896397 / 36028797018963968"
    by (simp add: MAX_VALUE_def)
  show ?thesis
    using y m by (simp add: to_double_def b q r Let_def)
qed

lemma StringToNumber_tenth:
  "StringToNumber (ascii ''0.1'') = Fin (3602879701896397 / 36028797018963968)"
proof -
  have "StringToNumber (ascii ''0.1'') = to_double (1 / 10)"
    by (simp add: parse_defs)
  then show ?thesis by (simp only: to_double_tenth)
qed

lemma StringToNumber_blank: "StringToNumber (ascii ''  '') = Fin 0"
  by (simp add: parse_defs)

lemma StringToNumber_not_literals:
  "StringToNumber (ascii ''12px'') = NaN" "StringToNumber (ascii ''1,5'') = NaN"
  "StringToNumber (ascii ''0x'') = NaN" "StringToNumber (ascii ''-Infinity'') = NegInf"
  by (simp_all add: parse_defs)

text \<open>
  Some values outside the declared type: \<open>true\<close> scales as \<open>1\<close> and the string \<open>1.5\<close>
  as the number \<open>1.5\<close>; the empty array scales to \<open>0\<close>; the string \<open>abc\<close>, the object
  \<open>{}\<close> and the array \<open>[1, 2]\<close> coerce to NaN, where \<open>BigInt\<close> raises RangeError; the
  object \<open>{"toString": 1}\<close> has no primitive value.
\<close>

lemma scaleHashrate_coercions:
  "scaleHashrate (Boolean True) = Inr 4294967296"
  "scaleHashrate (Str (ascii ''1.5'')) = Inr 6442450944"
  "scaleHashrate (Array []) = Inr 0"
  "scaleHashrate (Str (ascii ''abc'')) = Inl RangeError"
  "scaleHashrate (Object []) = Inl RangeError"
  "scaleHashrate (Array [Declared (Num (Fin 1)), Declared (Num (Fin 2))]) = Inl RangeError"
  "scaleHashrate (Object [(ascii ''toString'', Declared (Num (Fin 1)))]) = Inl TypeError"
proof -
  have one: "BigInt (Math_round (times_factor (Fin 1))) = Inr 4294967296"
    unfolding scaled_cases by (simp add: MAX_VALUE_def round_def floor_eq_iff)
  have half: "BigInt (Math_round (times_factor (Fin (3 / 2)))) = Inr 6442450944"
    unfolding scaled_cases by (simp add: MAX_VALUE_def round_def floor_eq_iff)
  have zero: "BigInt (Math_round (times_factor (Fin 0))) = Inr 0"
    unfolding scaled_cases by (simp add: MAX_VALUE_def)
  show "scaleHashrate (Boolean True) = Inr 4294967296"
    using one by (simp add: scaleHashrate_def or_zero_def)
  have "ascii ''1.5'' \<noteq> []" by (simp add: ascii_def)
  then show "scaleHashrate (Str (ascii ''1.5'')) = Inr 6442450944"
    using half by (simp add: scaleHashrate_def or_zero_def StringToNumber_three_halves)
  show "scaleHashrate (Array []) = Inr 0"
    using zero by (simp add: scaleHashrate_def or_zero_def)
  have "ascii ''abc'' \<noteq> []" by (simp add: ascii_def)
  then show "scaleHashrate (Str (ascii ''abc'')) = Inl RangeError"
    by (simp add: scaleHashrate_Str_NaN StringToNumber_abc)
  show "scaleHashrate (Object []) = Inl RangeError"
    by (simp add: scaleHashrate_Object)
  show "scaleHashrate (Array [Declared (Num (Fin 1)), Declared (Num (Fin 2))]) = Inl RangeError"
    by (simp add: scaleHashrate_def or_zero_def)
  show "scaleHashrate (Object [(ascii ''toString'', Declared (Num (Fin 1)))]) = Inl TypeError"
    by (simp add: scaleHashrate_Object)
qed

text \<open>
  C1 (as amended). For every non-negative finite input \<open>r\<close> whose product with \<open>2^32\<close>
  does not exceed the largest finite double, \<open>scaleHashrate\<close> returns exactly
  \<open>round (r * 2^32)\<close> as an unbounded integer; for a null or undefined (absent) input it
  returns \<open>0\<close>.
\<close>

theorem scaleHashrate_nonneg_exact:
  assumes "0 \<le> r" and "r * 2 ^ 32 \<le> MAX_VALUE"
  shows "scaleHashrate (Declared (Num (Fin r))) = Inr (round (r * 2 ^ 32))
       \<and> scaleHashrate (Declared Null) = Inr 0 \<and> scaleHashrate (Declared Undefined) = Inr 0"
proof -
  from assms(1) have "0 \<le> r * HASHRATE_FACTOR"
    by (simp add: HASHRATE_FACTOR_def)
  with MAX_VALUE_pos have "- MAX_VALUE \<le> r * HASHRATE_FACTOR" by linarith
  moreover from assms(2) have "r * HASHRATE_FACTOR \<le> MAX_VALUE"
    by (simp add: HASHRATE_FACTOR_def)
  ultimately have "scaleHashrate (Declared (Num (Fin r))) = Inr (round (r * HASHRATE_FACTOR))"
    by (rule scaleHashrate_in_range)
  then show ?thesis
    by (simp add: HASHRATE_FACTOR_def scaleHashrate_falsy)
qed

theorem scaleHashrate_nonneg_exact_witness:
  "(0::rat) \<le> 5 / 2 \<and> (5 / 2) * 2 ^ 32 \<le> MAX_VALUE
   \<and> scaleHashrate (Declared (Num (Fin (5 / 2)))) = Inr 10737418240
   \<and> scaleHashrate (Declared Null) = Inr 0 \<and> scaleHashrate (Declared Undefined) = Inr 0"
proof -
  have h1: "(0::rat) \<le> 5 / 2" by simp
  have h2: "(5 / 2) * 2 ^ 32 \<le> MAX_VALUE" by (simp add: MAX_VALUE_def)
  have r: "round ((5 / 2 :: rat) * 2 ^ 32) = 10737418240"
    by (simp add: round_def floor_eq_iff)
  from scaleHashrate_nonneg_exact [OF h1 h2] h1 h2 r show ?thesis by simp
qed

text \<open>
  The claim as written (every non-negative rational) fails where the product leaves
  the finite doubles: \<open>2^1000\<close> is a double, \<open>2^1000 * 2^32\<close> is \<open>Infinity\<close>, and
  \<open>BigInt(Infinity)\<close> raises RangeError.
\<close>

theorem scaleHashrate_overflow_counterexample:
  "(0::rat) \<le> 2 ^ 1000
   \<and> scaleHashrate (Declared (Num (Fin (2 ^ 1000)))) = Inl RangeError
   \<and> scaleHashrate (Declared (Num (Fin (2 ^ 1000)))) \<noteq> Inr (round ((2 ^ 1000 :: rat) * 2 ^ 32))"
proof -
  have "MAX_VALUE < \<bar>2 ^ 1000 * HASHRATE_FACTOR\<bar>"
    by (simp add: MAX_VALUE_def HASHRATE_FACTOR_def)
  then have "scaleHashrate (Declared (Num (Fin (2 ^ 1000)))) = Inl RangeError"
    by (rule scaleHashrate_overflow)
  then show ?thesis by simp
qed

text \<open>
  C2 (as amended). \<open>scaleHashrate\<close> is a function of its argument alone. It returns \<open>0\<close>
  for every falsy value: undefined, null, NaN, \<open>0\<close>, \<open>false\<close> and the empty string. For
  a finite number of either sign whose product with \<open>2^32\<close> stays in the finite double
  range it returns \<open>round (r * 2^32)\<close> and does not raise; a negative input is not
  clamped: its result is negative as soon as \<open>r * 2^32 < -1/2\<close>. Among numbers it
  raises exactly for an infinite one and for a finite one whose product overflows. In
  general it raises RangeError exactly when \<open>Number(value || 0)\<close> is NaN, infinite or
  overflows when scaled, so for every non-empty string that is not a numeric literal
  and for every object that has a primitive value; it raises TypeError exactly when
  the value has no primitive value (an object with an own \<open>toString\<close> property, or an
  array that holds one); it raises nothing else.
\<close>

theorem scaleHashrate_behaviour:
  "scaleHashrate (Declared Undefined) = Inr 0 \<and> scaleHashrate (Declared Null) = Inr 0
   \<and> scaleHashrate (Declared (Num NaN)) = Inr 0 \<and> scaleHashrate (Declared (Num (Fin 0))) = Inr 0
   \<and> scaleHashrate (Boolean False) = Inr 0 \<and> scaleHashrate (Str []) = Inr 0
   \<and> (\<bar>r * 2 ^ 32\<bar> \<le> MAX_VALUE \<longrightarrow>
        scaleHashrate (Declared (Num (Fin r))) = Inr (round (r * 2 ^ 32))
        \<and> (r * 2 ^ 32 < - 1 / 2 \<longrightarrow> round (r * 2 ^ 32) < 0))
   \<and> ((\<exists>e. scaleHashrate (Declared w) = Inl e) \<longleftrightarrow>
        w = Num PosInf \<or> w = Num NegInf \<or> (\<exists>q. w = Num (Fin q) \<and> MAX_VALUE < \<bar>q * 2 ^ 32\<bar>))
   \<and> (scaleHashrate v = Inl RangeError \<longleftrightarrow>
        (\<exists>n. ToNumber (or_zero v) = Inr n
           \<and> (n = NaN \<or> n = PosInf \<or> n = NegInf
               \<or> (\<exists>q. n = Fin q \<and> MAX_VALUE < \<bar>q * 2 ^ 32\<bar>))))
   \<and> (scaleHashrate v = Inl TypeError \<longleftrightarrow> no_primitive v)
   \<and> (scaleHashrate v = Inl e \<longrightarrow> e = RangeError \<or> e = TypeError)
   \<and> (s \<noteq> [] \<and> StringToNumber s = NaN \<longrightarrow> scaleHashrate (Str s) = Inl RangeError)
   \<and> (\<not> no_primitive (Object props) \<longrightarrow> scaleHashrate (Object props) = Inl RangeError)"
proof -
  have in_range: "scaleHashrate (Declared (Num (Fin q))) = Inr (round (q * 2 ^ 32))"
    if "\<bar>q * 2 ^ 32\<bar> \<le> MAX_VALUE" for q
  proof -
    from that have "- MAX_VALUE \<le> q * HASHRATE_FACTOR" "q * HASHRATE_FACTOR \<le> MAX_VALUE"
      by (simp_all add: HASHRATE_FACTOR_def abs_le_iff)
    then show ?thesis
      using scaleHashrate_in_range [of q] by (simp add: HASHRATE_FACTOR_def)
  qed
  have neg: "round (r * 2 ^ 32) < 0" if "r * 2 ^ 32 < - 1 / 2"
  proof -
    from that have "r * 2 ^ 32 + 1 / 2 < 0" by linarith
    then show ?thesis by (simp add: round_def floor_less_iff)
  qed
  have numbers: "(\<exists>e. scaleHashrate (Declared w) = Inl e) \<longleftrightarrow>
        w = Num PosInf \<or> w = Num NegInf \<or> (\<exists>q. w = Num (Fin q) \<and> MAX_VALUE < \<bar>q * 2 ^ 32\<bar>)"
  proof (cases w)
    case Undefined
    then show ?thesis by (simp add: scaleHashrate_falsy)
  next
    case Null
    then show ?thesis by (simp add: scaleHashrate_falsy)
  next
    case (Num n)
    show ?thesis
    proof (cases n)
      case (Fin q)
      show ?thesis
      proof (cases "q = 0")
        case True
        with Num Fin MAX_VALUE_pos show ?thesis by (simp add: scaleHashrate_falsy)
      next
        case False
        with Num Fin show ?thesis
          unfolding scaleHashrate_Declared by (simp add: scaled_cases del: times_factor.simps)
      qed
    next
      case PosInf
      with Num show ?thesis by (simp add: scaleHashrate_infinite)
    next
      case NegInf
      with Num show ?thesis by (simp add: scaleHashrate_infinite)
    next
      case NaN
      with Num show ?thesis by (simp add: scaleHashrate_falsy)
    qed
  qed
  have errors: "scaleHashrate v = Inl e \<longrightarrow> e = RangeError \<or> e = TypeError"
    using scaleHashrate_errors [of v e] by blast
  have strings: "s \<noteq> [] \<and> StringToNumber s = NaN \<longrightarrow> scaleHashrate (Str s) = Inl RangeError"
    using scaleHashrate_Str_NaN [of s] by blast
  have objects: "\<not> no_primitive (Object props) \<longrightarrow> scaleHashrate (Object props) = Inl RangeError"
    by (simp add: scaleHashrate_Object)
  from in_range [of r] neg
  have finite: "\<bar>r * 2 ^ 32\<bar> \<le> MAX_VALUE \<longrightarrow>
        scaleHashrate (Declared (Num (Fin r))) = Inr (round (r * 2 ^ 32))
        \<and> (r * 2 ^ 32 < - 1 / 2 \<longrightarrow> round (r * 2 ^ 32) < 0)"
    by blast
  from finite numbers scaleHashrate_RangeError [of v] scaleHashrate_TypeError [of v]
    errors strings objects
  show ?thesis
    by (simp only: scaleHashrate_falsy simp_thms)
qed

theorem scaleHashrate_behaviour_witness:
  "\<bar>(- 1 :: rat) * 2 ^ 32\<bar> \<le> MAX_VALUE \<and> (- 1 :: rat) * 2 ^ 32 < - 1 / 2
   \<and> scaleHashrate (Declared (Num (Fin (- 1)))) = Inr (- 4294967296)
   \<and> scaleHashrate (Declared (Num PosInf)) = Inl RangeError
   \<and> ascii ''abc'' \<noteq> [] \<and> StringToNumber (ascii ''abc'') = NaN
   \<and> scaleHashrate (Str (ascii ''abc'')) = Inl RangeError
   \<and> ToNumber (or_zero (Str (ascii ''abc''))) = Inr NaN
   \<and> \<not> no_primitive (Object [])
   \<and> scaleHashrate (Object []) = Inl RangeError
   \<and> no_primitive (Object [(ascii ''toString'', Declared (Num (Fin 1)))])
   \<and> scaleHashrate (Object [(ascii ''toString'', Declared (Num (Fin 1)))]) = Inl TypeError
   \<and> scaleHashrate (Str (ascii ''1.5'')) = Inr 6442450944
   \<and> scaleHashrate (Boolean True) = Inr 4294967296"
proof -
  have h1: "\<bar>(- 1 :: rat) * 2 ^ 32\<bar> \<le> MAX_VALUE" by (simp add: MAX_VALUE_def)
  have h2: "(- 1 :: rat) * 2 ^ 32 < - 1 / 2" by simp
  have r: "round ((- 1 :: rat) * 2 ^ 32) = - 4294967296"
    by (simp add: round_def floor_eq_iff)
  have h3: "ascii ''abc'' \<noteq> []" by (simp add: ascii_def)
  have h4: "StringToNumber (ascii ''abc'') = NaN" by (rule StringToNumber_abc)
  have h5: "ToNumber (or_zero (Str (ascii ''abc''))) = Inr NaN"
    using h3 h4 by (simp add: or_zero_def)
  have h6: "\<not> no_primitive (Object [])" by simp
  have inf: "scaleHashrate (Declared (Num PosInf)) = Inl RangeError"
    by (rule scaleHashrate_infinite)
  from scaleHashrate_behaviour
    [of "- 1" "Num PosInf" "Str (ascii ''abc'')" RangeError "ascii ''abc''" "[]"]
    h1 h2 r h3 h4 h5 h6 inf
  have first: "\<bar>(- 1 :: rat) * 2 ^ 32\<bar> \<le> MAX_VALUE \<and> (- 1 :: rat) * 2 ^ 32 < - 1 / 2
   \<and> scaleHashrate (Declared (Num (Fin (- 1)))) = Inr (- 4294967296)
   \<and> scaleHashrate (Declared (Num PosInf)) = Inl RangeError
   \<and> ascii ''abc'' \<noteq> [] \<and> StringToNumber (ascii ''abc'') = NaN
   \<and> scaleHashrate (Str (ascii ''abc'')) = Inl RangeError
   \<and> ToNumber (or_zero (Str (ascii ''abc''))) = Inr NaN
   \<and> \<not> no_primitive (Object [])
   \<and> scaleHashrate (Object []) = Inl RangeError"
    by simp
  have h7: "no_primitive (Object [(ascii ''toString'', Declared (Num (Fin 1)))])" by simp
  from first h7 scaleHashrate_coercions(7,2,1) show ?thesis
    by (simp only: simp_thms)
qed

text \<open>
  The claim as written fails on each kind of input it names: a negative number is
  scaled, not mapped to \<open>0\<close>; an infinite number (JSON \<open>1e999\<close> parses to \<open>Infinity\<close>)
  raises; and so do the non-numeric values \<open>"abc"\<close> and \<open>{}\<close>.
\<close>

theorem scaleHashrate_clamp_counterexample:
  "scaleHashrate (Declared (Num (Fin (- 1)))) = Inr (- 4294967296)
   \<and> scaleHashrate (Declared (Num (Fin (- 1)))) \<noteq> Inr 0
   \<and> scaleHashrate (Declared (Num PosInf)) = Inl RangeError
   \<and> scaleHashrate (Str (ascii ''abc'')) = Inl RangeError
   \<and> scaleHashrate (Object []) = Inl RangeError"
proof -
  have "- MAX_VALUE \<le> (- 1) * HASHRATE_FACTOR" "(- 1) * HASHRATE_FACTOR \<le> MAX_VALUE"
    by (simp_all add: MAX_VALUE_def HASHRATE_FACTOR_def)
  then have "scaleHashrate (Declared (Num (Fin (- 1)))) = Inr (round ((- 1) * HASHRATE_FACTOR))"
    by (rule scaleHashrate_in_range)
  moreover have "round ((- 1) * HASHRATE_FACTOR) = - 4294967296"
    by (simp add: HASHRATE_FACTOR_def round_def floor_eq_iff)
  ultimately show ?thesis
    by (simp add: scaleHashrate_infinite scaleHashrate_coercions)
qed

section \<open>Properties of the batching\<close>

lemma concat_batches_from: "concat (batches_from i xs) = drop i xs"
proof (induction i xs rule: batches_from.induct)
  case (1 i xs)
  show ?case
  proof (cases "i < length xs")
    case True
    have "take BATCH_SIZE (drop i xs) @ drop (i + BATCH_SIZE) xs = drop i xs"
      by (metis append_take_drop_id drop_drop add.commute)
    with True 1 show ?thesis
      by (simp add: batches_from.simps [of i xs] slice_def add.commute)
  next
    case False
    then show ?thesis
      by (simp add: batches_from.simps [of i xs])
  qed
qed

lemma batch_count_step:
  "i < n \<Longrightarrow> Suc ((n - (i + 10) + 9) div 10) = (n - i + 9) div (10::nat)"
proof (cases "i + 10 \<le> n")
  case True
  then obtain d where "n = i + 10 + d" by (metis le_Suc_ex)
  then show ?thesis by simp
next
  case False
  assume "i < n"
  with False obtain d where d: "n = i + d" "0 < d" "d < 10"
    by (metis less_imp_add_positive add_less_cancel_left not_le)
  then show ?thesis by simp
qed

lemma length_batches_from:
  "length (batches_from i xs) = (length xs - i + 9) div 10"
proof (induction i xs rule: batches_from.induct)
  case (1 i xs)
  show ?case
  proof (cases "i < length xs")
    case True
    with 1 have "length (batches_from i xs) = Suc ((length xs - (i + 10) + 9) div 10)"
      by (simp add: batches_from.simps [of i xs] BATCH_SIZE_def)
    with True show ?thesis
      by (simp only: batch_count_step)
  next
    case False
    then show ?thesis
      by (simp add: batches_from.simps [of i xs])
  qed
qed

lemma nth_batches_from:
  "k < length (batches_from i xs) \<Longrightarrow>
   batches_from i xs ! k = take BATCH_SIZE (drop (i + k * BATCH_SIZE) xs)"
proof (induction i xs arbitrary: k rule: batches_from.induct)
  case (1 i xs)
  show ?case
  proof (cases "i < length xs")
    case True
    show ?thesis
    proof (cases k)
      case 0
      with True show ?thesis
        by (simp add: batches_from.simps [of i xs] slice_def)
    next
      case (Suc m)
      with True "1.prems" have "m < length (batches_from (i + BATCH_SIZE) xs)"
        by (simp add: batches_from.simps [of i xs])
      with True have "batches_from (i + BATCH_SIZE) xs ! m
          = take BATCH_SIZE (drop (i + BATCH_SIZE + m * BATCH_SIZE) xs)"
        by (rule "1.IH")
      moreover have "i + BATCH_SIZE + m * BATCH_SIZE = i + Suc m * BATCH_SIZE"
        by simp
      ultimately show ?thesis
        using True Suc by (simp add: batches_from.simps [of i xs])
    qed
  next
    case False
    with "1.prems" show ?thesis
      by (simp add: batches_from.simps [of i xs])
  qed
qed

lemma ceiling_div_10: "\<lceil>rat_of_nat n / 10\<rceil> = int ((n + 9) div 10)"
proof -
  define q where "q = (n + 9) div 10"
  have le: "n \<le> 10 * q" and lt: "10 * q < n + 10"
    unfolding q_def by presburger+
  have "rat_of_nat n \<le> rat_of_nat (10 * q)"
    using le by (simp only: of_nat_le_iff)
  then have a: "rat_of_nat n / 10 \<le> rat_of_nat q" by simp
  have "rat_of_nat (10 * q) < rat_of_nat (n + 10)"
    using lt by (simp only: of_nat_less_iff)
  then have b: "rat_of_nat q - 1 < rat_of_nat n / 10" by simp
  have "\<lceil>rat_of_nat n / 10\<rceil> = int q"
    by (rule ceiling_unique) (use a b in simp_all)
  then show ?thesis by (simp add: q_def)
qed


lemma in_set_take_drop:
  "x \<in> set (take n (drop i xs)) \<longleftrightarrow> (\<exists>m<n. i + m < length xs \<and> xs ! (i + m) = x)"
proof
  assume "x \<in> set (take n (drop i xs))"
  then obtain m where m: "m < length (take n (drop i xs))" "take n (drop i xs) ! m = x"
    by (auto simp: in_set_conv_nth)
  then have mn: "m < n" "i + m < length xs" by auto
  with m have "xs ! (i + m) = x" by simp
  with mn show "\<exists>m<n. i + m < length xs \<and> xs ! (i + m) = x" by blast
next
  assume "\<exists>m<n. i + m < length xs \<and> xs ! (i + m) = x"
  then obtain m where m: "m < n" "i + m < length xs" "xs ! (i + m) = x" by blast
  then have "m < length (take n (drop i xs))" by simp
  moreover from m have "take n (drop i xs) ! m = x" by simp
  ultimately show "x \<in> set (take n (drop i xs))"
    by (metis nth_mem)
qed

lemma batch_of_address_unique:
  assumes d: "distinct (map fst xs)"
    and k: "k < length (batches xs)" "a \<in> fst ` set (batches xs ! k)"
    and k': "k' < length (batches xs)" "a \<in> fst ` set (batches xs ! k')"
  shows "k = k'"
proof -
  have pos: "\<exists>m<10. k * 10 + m < length xs \<and> fst (xs ! (k * 10 + m)) = a"
    if "k < length (batches xs)" "a \<in> fst ` set (batches xs ! k)" for k
  proof -
    from that(1) have "batches xs ! k = take 10 (drop (k * 10) xs)"
      using nth_batches_from [of k 0 xs] by (simp add: batches_def BATCH_SIZE_def)
    with that(2) obtain x where "x \<in> set (take 10 (drop (k * 10) xs))" "fst x = a"
      by auto
    then show ?thesis
      by (auto simp: in_set_take_drop)
  qed
  from pos [OF k] obtain m where m: "m < 10" "k * 10 + m < length xs"
    "fst (xs ! (k * 10 + m)) = a" by blast
  from pos [OF k'] obtain m' where m': "m' < 10" "k' * 10 + m' < length xs"
    "fst (xs ! (k' * 10 + m')) = a" by blast
  from m m' have "map fst xs ! (k * 10 + m) = map fst xs ! (k' * 10 + m')"
    by simp
  moreover from m(2) m'(2) have "k * 10 + m < length (map fst xs)"
    "k' * 10 + m' < length (map fst xs)" by simp_all
  ultimately have "k * 10 + m = k' * 10 + m'"
    using d by (simp only: nth_eq_iff_index_eq)
  with m(1) m'(1) show ?thesis by presburger
qed

section \<open>Properties of the pool-level rollup\<close>

lemma hashrateFields_fallback_chain: "hashrateFields p2pool = fallback_chain p2pool"
  by (auto simp: hashrateFields_def fallback_chain_def Let_def values_or_empty_def
      entries_or_empty_def split: option.splits list.splits)

lemma p2poolToCkpool_hashrates:
  assumes "p2poolToCkpool H p2pool = Inr s"
  shows "map Inr (pool_hashrates s)
       = map scaleHashrate_string (rollup_fields (hashrateFields p2pool))"
  using assms
  by (auto simp: p2poolToCkpool_def bind_err_def Let_def pool_hashrates_def rollup_fields_def
      split: sum.splits)

lemma p2poolToCkpool_returns:
  assumes "\<forall>v\<in>set (rollup_fields (hashrateFields p2pool)). \<exists>i. scaleHashrate v = Inr i"
  shows "\<exists>s. p2poolToCkpool H p2pool = Inr s"
proof -
  from assms have "\<forall>v\<in>set (rollup_fields (hashrateFields p2pool)).
      \<exists>t. scaleHashrate_string v = Inr t"
    by (auto simp: scaleHashrate_string_def)
  then show ?thesis
    by (auto simp: p2poolToCkpool_def bind_err_def Let_def rollup_fields_def)
qed

lemma scaleHashrate_string_absent: "scaleHashrate_string (Declared Undefined) = Inr ''0''"
  by (simp add: scaleHashrate_string_def scaleHashrate_falsy int_toString_def
      nat_toString.simps digit_char_def)

lemma scaleHashrate_five_halves: "scaleHashrate (Declared (Num (Fin (5 / 2)))) = Inr 10737418240"
proof -
  have "- MAX_VALUE \<le> 5 / 2 * HASHRATE_FACTOR" "5 / 2 * HASHRATE_FACTOR \<le> MAX_VALUE"
    by (simp_all add: MAX_VALUE_def HASHRATE_FACTOR_def)
  then have "scaleHashrate (Declared (Num (Fin (5 / 2)))) = Inr (round (5 / 2 * HASHRATE_FACTOR))"
    by (rule scaleHashrate_in_range)
  moreover have "round (5 / 2 * HASHRATE_FACTOR) = 10737418240"
    by (simp add: HASHRATE_FACTOR_def round_def floor_eq_iff)
  ultimately show ?thesis by simp
qed

lemma scaleHashrate_five: "scaleHashrate (Declared (Num (Fin 5))) = Inr 21474836480"
proof -
  have "- MAX_VALUE \<le> 5 * HASHRATE_FACTOR" "5 * HASHRATE_FACTOR \<le> MAX_VALUE"
    by (simp_all add: MAX_VALUE_def HASHRATE_FACTOR_def)
  then have "scaleHashrate (Declared (Num (Fin 5))) = Inr (round (5 * HASHRATE_FACTOR))"
    by (rule scaleHashrate_in_range)
  moreover have "round (5 * HASHRATE_FACTOR) = 21474836480"
    by (simp add: HASHRATE_FACTOR_def round_def floor_eq_iff)
  ultimately show ?thesis by simp
qed

lemma scaleHashrate_string_five_halves:
  "scaleHashrate_string (Declared (Num (Fin (5 / 2)))) = Inr ''10737418240''"
  by (simp add: scaleHashrate_string_def scaleHashrate_five_halves int_toString_def
      nat_toString.simps digit_char_def)

lemma scaleHashrate_string_five:
  "scaleHashrate_string (Declared (Num (Fin 5))) = Inr ''21474836480''"
  by (simp add: scaleHashrate_string_def scaleHashrate_five int_toString_def
      nat_toString.simps digit_char_def)

text \<open>
  C6 (as amended). The hashrate fields of the pool rollup are those of the fallback
  chain: the snapshot's own rollup if present; otherwise the first user's aggregate;
  otherwise the first user's first worker's aggregate; otherwise all absent (zero). The
  seven fields of the row are the chain's fields, each scaled by \<open>2^32\<close>. In particular,
  for a snapshot with no top-level rollup whose first user has no aggregate of its own
  and whose first worker has a rollup, the pool hashrate is that worker's rollup, scaled.
\<close>

theorem pool_hashrate_fallback:
  assumes "p2poolToCkpool H p2pool = Inr s"
  shows "hashrateFields p2pool = fallback_chain p2pool
    \<and> map Inr (pool_hashrates s) = map scaleHashrate_string (rollup_fields (fallback_chain p2pool))
    \<and> (computed_hashrate p2pool = None \<and> users p2pool = Some ((address, u) # others)
        \<and> computed_hash_rate u = None \<and> workers u = Some ((name, w) # ws)
        \<and> w_computed_hash_rate w = Some rollup
       \<longrightarrow> map Inr (pool_hashrates s) = map scaleHashrate_string (rollup_fields rollup))"
proof -
  have chain: "hashrateFields p2pool = fallback_chain p2pool"
    by (rule hashrateFields_fallback_chain)
  from assms have fields: "map Inr (pool_hashrates s)
      = map scaleHashrate_string (rollup_fields (fallback_chain p2pool))"
    using p2poolToCkpool_hashrates [of H p2pool s] by (simp only: chain)
  have "fallback_chain p2pool = rollup"
    if "computed_hashrate p2pool = None" "users p2pool = Some ((address, u) # others)"
      "computed_hash_rate u = None" "workers u = Some ((name, w) # ws)"
      "w_computed_hash_rate w = Some rollup"
    using that by (simp add: fallback_chain_def values_or_empty_def entries_or_empty_def)
  with chain fields show ?thesis by metis
qed

lemma rollup_fields_only_1d:
  "rollup_fields (only_1d x)
   = map Declared [Undefined, Undefined, Undefined, Undefined, Undefined, Num (Fin x), Undefined]"
  by (simp add: rollup_fields_def only_1d_def no_hashrates_def)

lemma worker_rollup_scaled:
  "map scaleHashrate_string (rollup_fields (only_1d (5 / 2)))
   = map Inr [''0'', ''0'', ''0'', ''0'', ''0'', ''10737418240'', ''0'']"
  by (simp add: rollup_fields_only_1d scaleHashrate_string_absent
      scaleHashrate_string_five_halves)

lemma user_rollup_scaled:
  "map scaleHashrate_string (rollup_fields (only_1d 5))
   = map Inr [''0'', ''0'', ''0'', ''0'', ''0'', ''21474836480'', ''0'']"
  by (simp add: rollup_fields_only_1d scaleHashrate_string_absent
      scaleHashrate_string_five)

lemma map_Inr_eq: "map Inr xs = map Inr ys \<Longrightarrow> xs = ys"
  by (simp add: inj_map_eq_map)

theorem pool_hashrate_fallback_witness:
  "computed_hashrate snapshot_worker_rollup = None
   \<and> map_sum id pool_hashrates (p2poolToCkpool example_helpers snapshot_worker_rollup)
     = Inr [''0'', ''0'', ''0'', ''0'', ''0'', ''10737418240'', ''0'']"
proof -
  let ?u = "empty_user\<lparr>workers := Some [(''rig1'',
       empty_worker\<lparr>w_computed_hash_rate := Some (only_1d (5 / 2))\<rparr>)]\<rparr>"
  let ?w = "empty_worker\<lparr>w_computed_hash_rate := Some (only_1d (5 / 2))\<rparr>"
  have h1: "computed_hashrate snapshot_worker_rollup = None"
    by (simp add: snapshot_worker_rollup_def empty_snapshot_def)
  have h2: "users snapshot_worker_rollup = Some ((''addr1'', ?u) # [])"
    by (simp add: snapshot_worker_rollup_def empty_snapshot_def)
  have h3: "computed_hash_rate ?u = None"
    by (simp add: empty_user_def)
  have h4: "workers ?u = Some ((''rig1'', ?w) # [])"
    by simp
  have h5: "w_computed_hash_rate ?w = Some (only_1d (5 / 2))"
    by simp
  have "fallback_chain snapshot_worker_rollup = only_1d (5 / 2)"
    using h1 h2 h3 h4 h5
    by (simp add: fallback_chain_def values_or_empty_def entries_or_empty_def)
  then have "\<forall>v\<in>set (rollup_fields (hashrateFields snapshot_worker_rollup)).
      \<exists>i. scaleHashrate v = Inr i"
    by (simp add: hashrateFields_fallback_chain rollup_fields_only_1d scaleHashrate_falsy
        scaleHashrate_five_halves)
  then obtain s where s: "p2poolToCkpool example_helpers snapshot_worker_rollup = Inr s"
    using p2poolToCkpool_returns by blast
  from pool_hashrate_fallback [OF s, of "''addr1''" ?u "[]" "''rig1''" ?w "[]" "only_1d (5 / 2)"]
    h1 h2 h3 h4 h5
  have "map Inr (pool_hashrates s) = map scaleHashrate_string (rollup_fields (only_1d (5 / 2)))"
    by blast
  then have "pool_hashrates s = [''0'', ''0'', ''0'', ''0'', ''0'', ''10737418240'', ''0'']"
    by (simp only: worker_rollup_scaled map_Inr_eq)
  with s h1 show ?thesis by simp
qed

text \<open>
  The particular case as the claim words it (no top-level rollup, the first user has a
  worker with a rollup) fails when the first user has an aggregate of its own: the
  aggregate, \<open>5\<close>, is recorded, not the worker's \<open>2.5\<close>.
\<close>

theorem pool_hashrate_worker_counterexample:
  "computed_hashrate snapshot_user_and_worker_rollup = None
   \<and> map (map_option (map (w_computed_hash_rate \<circ> snd)) \<circ> workers)
        (values_or_empty (users snapshot_user_and_worker_rollup))
     = [Some [Some (only_1d (5 / 2))]]
   \<and> map_sum id pool_hashrates (p2poolToCkpool example_helpers snapshot_user_and_worker_rollup)
     = Inr [''0'', ''0'', ''0'', ''0'', ''0'', ''21474836480'', ''0'']
   \<and> map scaleHashrate_string (rollup_fields (only_1d (5 / 2)))
     = map Inr [''0'', ''0'', ''0'', ''0'', ''0'', ''10737418240'', ''0'']"
proof -
  have h1: "computed_hashrate snapshot_user_and_worker_rollup = None"
    by (simp add: snapshot_user_and_worker_rollup_def empty_snapshot_def)
  have h2: "map (map_option (map (w_computed_hash_rate \<circ> snd)) \<circ> workers)
        (values_or_empty (users snapshot_user_and_worker_rollup))
     = [Some [Some (only_1d (5 / 2))]]"
    by (simp add: snapshot_user_and_worker_rollup_def values_or_empty_def
        entries_or_empty_def)
  have c: "fallback_chain snapshot_user_and_worker_rollup = only_1d 5"
    by (simp add: fallback_chain_def values_or_empty_def entries_or_empty_def
        snapshot_user_and_worker_rollup_def empty_snapshot_def)
  then have "\<forall>v\<in>set (rollup_fields (hashrateFields snapshot_user_and_worker_rollup)).
      \<exists>i. scaleHashrate v = Inr i"
    by (simp add: hashrateFields_fallback_chain rollup_fields_only_1d scaleHashrate_falsy
        scaleHashrate_five)
  then obtain s where
    s: "p2poolToCkpool example_helpers snapshot_user_and_worker_rollup = Inr s"
    using p2poolToCkpool_returns by blast
  then have "map Inr (pool_hashrates s) = map scaleHashrate_string (rollup_fields (only_1d 5))"
    using p2poolToCkpool_hashrates [OF s] by (simp only: hashrateFields_fallback_chain c)
  then have "pool_hashrates s = [''0'', ''0'', ''0'', ''0'', ''0'', ''21474836480'', ''0'']"
    by (simp only: user_rollup_scaled map_Inr_eq)
  with s h1 h2 worker_rollup_scaled show ?thesis by simp
qed

section \<open>Properties of the last-share column\<close>



lemma num_le_trans: "num_le x y \<Longrightarrow> num_le y z \<Longrightarrow> num_le x z"
  by (cases x; cases y; cases z) simp_all

lemma num_le_total: "x \<noteq> NaN \<Longrightarrow> y \<noteq> NaN \<Longrightarrow> num_le x y \<or> num_le y x"
  by (cases x; cases y) auto

lemma num_le_NegInf: "y \<noteq> NaN \<Longrightarrow> num_le NegInf y"
  by (cases y) simp_all











section \<open>Properties of the batched updater\<close>

lemmas action_defs = succeed_def raise_def and_then_def lift_def try_catch_def try_finally_def
  log_def getDb_def destroy_def save_def transaction_def

lemma save_console: "save W t entity s = (r, s') \<Longrightarrow> console s' = console s"
  by (auto simp: save_def split: option.splits prod.splits)

lemma for_each_console:
  assumes "\<And>x s r s'. f x s = (r, s') \<Longrightarrow> console s' = console s"
  shows "for_each f xs s = (r, s') \<Longrightarrow> console s' = console s"
proof (induction xs arbitrary: s r s')
  case Nil
  then show ?case by (simp add: succeed_def)
next
  case (Cons x xs)
  obtain r1 s1 where f: "f x s = (r1, s1)" by (cases "f x s")
  then have c1: "console s1 = console s" by (rule assms)
  show ?case
  proof (cases r1)
    case (Inl e)
    with f Cons.prems c1 show ?thesis by (simp add: and_then_def)
  next
    case (Inr u)
    with f Cons.prems have "for_each f xs s1 = (r, s')" by (simp add: and_then_def)
    then have "console s' = console s1" by (rule Cons.IH)
    with c1 show ?thesis by simp
  qed
qed

lemma worker_step_console:
  "worker_step W H address entry s = (r, s') \<Longrightarrow> console s' = console s"
  by (auto simp: worker_step_def and_then_def lift_def succeed_def Let_def
      split: prod.splits sum.splits dest!: save_console)

lemma address_writes_console:
  assumes "address_writes W H entry s = (r, s')"
  shows "console s' = console s"
proof -
  obtain address user where entry: "entry = (address, user)" by (cases entry)
  let ?e = "user_entity H address user (findOne [(''address'', Text address)] (contents s User))"
  obtain r1 s1 where s1: "save W User ?e s = (r1, s1)" by (cases "save W User ?e s")
  then have c1: "console s1 = console s" by (rule save_console)
  show ?thesis
  proof (cases r1)
    case (Inl e)
    with assms entry s1 c1 show ?thesis
      by (simp add: address_writes_def and_then_def Let_def)
  next
    case (Inr saved)
    show ?thesis
    proof (cases "userStats_entity H address user")
      case (Inl e)
      with assms entry s1 Inr c1 show ?thesis
        by (simp add: address_writes_def and_then_def lift_def Let_def)
    next
      case stats: (Inr userStats)
      obtain r2 s2 where s2: "save W UserStats userStats s1 = (r2, s2)"
        by (cases "save W UserStats userStats s1")
      then have c2: "console s2 = console s1" by (rule save_console)
      show ?thesis
      proof (cases r2)
        case (Inl e)
        with assms entry s1 Inr stats s2 c1 c2 show ?thesis
          by (simp add: address_writes_def and_then_def lift_def Let_def)
      next
        case r2: (Inr saved2)
        with assms entry s1 Inr stats s2
        have "for_each (worker_step W H address) (entries_or_empty (workers user)) s2 = (r, s')"
          by (simp add: address_writes_def and_then_def lift_def Let_def)
        then have "console s' = console s2"
          using for_each_console [where f = "worker_step W H address"] worker_step_console
          by blast
        with c1 c2 show ?thesis by simp
      qed
    qed
  qed
qed

lemma address_task_rollback:
  assumes "address_task W H entry t = (Inl e, t')"
  shows "t' = t"
proof -
  obtain r s' where w: "address_writes W H entry t = (r, s')"
    by (cases "address_writes W H entry t")
  then have c: "console s' = console t" by (rule address_writes_console)
  from assms w obtain e' where "r = Inl e'" "t' = s'\<lparr>contents := contents t\<rparr>"
    by (cases r) (auto simp: address_task_def transaction_def)
  with c show ?thesis by simp
qed

lemma address_task_commit:
  assumes "address_task W H entry t = (Inr u, t')"
  shows "address_writes W H entry t = (Inr u, t')"
  using assms
  by (auto simp: address_task_def transaction_def split: prod.splits sum.splits)










lemma process_batches_run_batches:
  "i mod BATCH_SIZE = 0 \<Longrightarrow>
   process_batches W H i es s = run_batches W H (Suc (i div BATCH_SIZE)) (batches_from i es) s"
proof (induction W H i es s rule: process_batches.induct)
  case (1 W H i es s)
  show ?case
  proof (cases "i < length es")
    case False
    then show ?thesis
      by (simp add: process_batches.simps [of W H i es s] batches_from.simps [of i es] succeed_def)
  next
    case True
    let ?m = "and_then (log (Out (''Processing batch '' @ nat_toString (i div BATCH_SIZE + 1))))
        (\<lambda>_. promise_all W (i div BATCH_SIZE + 1) (address_task W H)
               (slice i (i + BATCH_SIZE) es))"
    obtain r s' where m: "?m s = (r, s')" by (cases "?m s")
    from "1.prems" have next_mod: "(i + BATCH_SIZE) mod BATCH_SIZE = 0"
      and next_div: "(i + BATCH_SIZE) div BATCH_SIZE = Suc (i div BATCH_SIZE)"
      by (simp_all add: BATCH_SIZE_def)
    show ?thesis
    proof (cases r)
      case (Inl e)
      with True m show ?thesis
        by (simp add: process_batches.simps [of W H i es s] batches_from.simps [of i es]
            and_then_def split: prod.splits sum.splits)
    next
      case (Inr u)
      have "process_batches W H (i + BATCH_SIZE) es s'
          = run_batches W H (Suc ((i + BATCH_SIZE) div BATCH_SIZE)) (batches_from (i + BATCH_SIZE) es) s'"
        by (rule "1.IH" [OF True m [symmetric] Inr next_mod])
      with True m Inr next_div show ?thesis
        by (simp add: process_batches.simps [of W H i es s] batches_from.simps [of i es]
            and_then_def split: prod.splits sum.splits)
    qed
  qed
qed




lemmas store_defs = get_column_def set_column_def assign_def upsert_def findOne_def matches_def
  key_of_def map_add_def
  fresh_key_def

lemmas update_ts_defs = address_task_def address_writes_def user_entity_def userStats_entity_def
  worker_step_def workerValues_def converted_def bind_err_def no_hashrates_def str_or0_def
  lastShare_def entries_or_empty_def Let_def

lemmas string_defs = nat_toString.simps digit_char_def int_toString_def

lemmas settle_defs = promise_all_def in_settle_order_def settle_order_def sort_key_def



section \<open>The partition into batches\<close>

text \<open>
  C5. The users are partitioned, in snapshot order, into consecutive groups of
  \<open>BATCH_SIZE = 10\<close>: group \<open>k\<close> holds the entries \<open>10 k, ..., 10 k + 9\<close> that exist, the
  groups concatenated give back the entries (nothing omitted, nothing twice), every
  address (the keys of one object are distinct) lies in exactly one group, and there are
  \<open>\<lceil>N / 10\<rceil>\<close> groups. The loop processes these groups one after the other, in this
  order.
\<close>

theorem batches_partition:
  assumes "distinct (map fst userEntries)"
  shows "BATCH_SIZE = 10
    \<and> concat (batches userEntries) = userEntries
    \<and> int (length (batches userEntries))
        = \<lceil>rat_of_nat (length userEntries) / rat_of_nat BATCH_SIZE\<rceil>
    \<and> (\<forall>k<length (batches userEntries).
          batches userEntries ! k = take BATCH_SIZE (drop (k * BATCH_SIZE) userEntries))
    \<and> distinct (map fst (concat (batches userEntries)))
    \<and> (\<forall>a\<in>fst ` set userEntries.
          \<exists>!k. k < length (batches userEntries) \<and> a \<in> fst ` set (batches userEntries ! k))
    \<and> process_batches W H 0 userEntries = run_batches W H 1 (batches userEntries)"
proof -
  have c: "concat (batches userEntries) = userEntries"
    by (simp add: batches_def concat_batches_from)
  have n: "int (length (batches userEntries))
        = \<lceil>rat_of_nat (length userEntries) / rat_of_nat BATCH_SIZE\<rceil>"
    by (simp add: batches_def length_batches_from BATCH_SIZE_def ceiling_div_10)
  have g: "\<forall>k<length (batches userEntries).
          batches userEntries ! k = take BATCH_SIZE (drop (k * BATCH_SIZE) userEntries)"
    using nth_batches_from [of _ 0 userEntries] by (simp add: batches_def)
  have u: "\<exists>!k. k < length (batches userEntries) \<and> a \<in> fst ` set (batches userEntries ! k)"
    if "a \<in> fst ` set userEntries" for a
  proof -
    from that c have "a \<in> fst ` set (concat (batches userEntries))" by simp
    then obtain b where "b \<in> set (batches userEntries)" "a \<in> fst ` set b" by auto
    then obtain k where "k < length (batches userEntries)"
      "a \<in> fst ` set (batches userEntries ! k)"
      by (auto simp: in_set_conv_nth)
    then show ?thesis
      using batch_of_address_unique [OF assms] by blast
  qed
  have p: "process_batches W H 0 userEntries = run_batches W H 1 (batches userEntries)"
    using process_batches_run_batches [of 0 W H userEntries]
    by (auto simp: fun_eq_iff batches_def)
  from c n g u p assms show ?thesis
    by (simp add: BATCH_SIZE_def)
qed

theorem batches_partition_witness:
  "distinct (map fst (entries_or_empty (users eleven_users)))
   \<and> batches (entries_or_empty (users eleven_users))
     = [map (\<lambda>a. (a, empty_user))
          [''a01'', ''a02'', ''a03'', ''a04'', ''a05'', ''a06'', ''a07'', ''a08'', ''a09'', ''a10''],
        [(''a11'', empty_user)]]
   \<and> int (length (batches (entries_or_empty (users eleven_users)))) = \<lceil>(11::rat) / 10\<rceil>"
proof -
  let ?xs = "entries_or_empty (users eleven_users)"
  have h: "distinct (map fst ?xs)"
    by (simp add: eleven_users_def entries_or_empty_def empty_snapshot_def)
  have e: "batches ?xs
     = [map (\<lambda>a. (a, empty_user))
          [''a01'', ''a02'', ''a03'', ''a04'', ''a05'', ''a06'', ''a07'', ''a08'', ''a09'', ''a10''],
        [(''a11'', empty_user)]]"
    by (simp add: batches_def batches_from.simps slice_def BATCH_SIZE_def eleven_users_def
        entries_or_empty_def empty_snapshot_def)
  have l: "length ?xs = 11"
    by (simp add: eleven_users_def entries_or_empty_def empty_snapshot_def)
  from batches_partition [OF h] have "int (length (batches ?xs))
      = \<lceil>rat_of_nat (length ?xs) / rat_of_nat BATCH_SIZE\<rceil>"
    by blast
  then have "int (length (batches ?xs)) = \<lceil>(11::rat) / 10\<rceil>"
    by (simp add: BATCH_SIZE_def l)
  with h e show ?thesis by blast
qed

section \<open>Atomicity of an address's writes\<close>

lemmas update_js_defs = update_main_js_def updateUsersFromJson_js_def user_step_js_def
  worker_step_js_def scaled_columns_def optional_field_def timestamp_column_def or_now_def
  bind_err_def entries_or_empty_def Let_def

text \<open>
  In the batched updater every write of an address is made by the one callback given
  to \<open>db.transaction\<close>: a failure of any of them leaves the store as it was before the
  address was touched, and what its siblings committed stays.
\<close>

lemma address_task_all_or_nothing:
  "address_task W H entry s = (Inl e, s') \<Longrightarrow> contents s' = contents s"
  "address_task W H entry s = (Inr u, s') \<Longrightarrow> address_writes W H entry s = (Inr u, s')"
  by (auto dest: address_task_rollback address_task_commit)

text \<open>
  C3. The sequential updater writes without a transaction. On the snapshot with one user
  and one worker, with a backend that rejects the WorkerStats insert, the run ends
  (status \<open>0\<close>, the error logged) with the User row, the UserStats row and the Worker
  row of the address committed and no WorkerStats row: the worker upsert is not rolled
  back. The batched updater, on the same snapshot and backend, leaves every table empty.
\<close>

theorem sequential_updater_not_atomic:
  "(case update_main_js world_worker_stats_rejected example_helpers empty_state of
      (status, s) \<Rightarrow>
        status = 0
        \<and> map (\<lambda>r. get_column r ''address'') (contents s User) = [Text ''addr1'']
        \<and> map (\<lambda>r. get_column r ''userAddress'') (contents s UserStats) = [Text ''addr1'']
        \<and> map (\<lambda>r. (get_column r ''userAddress'', get_column r ''name'', get_column r ''id''))
            (contents s Worker) = [(Text ''addr1'', Text ''rig1'', Key 1)]
        \<and> contents s WorkerStats = []
        \<and> console s = [Out ''Found 1 users in pool_stats.json'',
             Err ''Error updating users:'' (QueryError ''worker_stats'')])
   \<and> (case update_main world_worker_stats_rejected example_helpers empty_state of
        (status, s) \<Rightarrow>
          status = 0
          \<and> map (contents s) [User, UserStats, Worker, WorkerStats] = [[], [], [], []]
          \<and> console s = [Out ''Reading P2Pool stats from: ./pool_stats.json'',
               Out ''Found 1 users in JSON'', Out ''Processing batch 1'',
               Err '''' (QueryError ''worker_stats'')])"
proof -
  have js: "case update_main_js world_worker_stats_rejected example_helpers empty_state of
      (status, s) \<Rightarrow>
        status = 0
        \<and> map (\<lambda>r. get_column r ''address'') (contents s User) = [Text ''addr1'']
        \<and> map (\<lambda>r. get_column r ''userAddress'') (contents s UserStats) = [Text ''addr1'']
        \<and> map (\<lambda>r. (get_column r ''userAddress'', get_column r ''name'', get_column r ''id''))
            (contents s Worker) = [(Text ''addr1'', Text ''rig1'', Key 1)]
        \<and> contents s WorkerStats = []
        \<and> console s = [Out ''Found 1 users in pool_stats.json'',
             Err ''Error updating users:'' (QueryError ''worker_stats'')]"
    by (simp add: update_js_defs action_defs store_defs string_defs
        world_worker_stats_rejected_def one_user_one_worker_def example_helpers_def
        empty_state_def empty_snapshot_def empty_user_def empty_worker_def only_1d_def
        no_hashrates_def scaleHashrate_falsy scaleHashrate_five_halves)
  have ts: "case update_main world_worker_stats_rejected example_helpers empty_state of
        (status, s) \<Rightarrow>
          status = 0
          \<and> map (contents s) [User, UserStats, Worker, WorkerStats] = [[], [], [], []]
          \<and> console s = [Out ''Reading P2Pool stats from: ./pool_stats.json'',
               Out ''Found 1 users in JSON'', Out ''Processing batch 1'',
               Err '''' (QueryError ''worker_stats'')]"
    by (simp add: update_main_def updateUsersFromJson_def process_batches.simps slice_def
        BATCH_SIZE_def settle_defs update_ts_defs action_defs store_defs string_defs
        world_worker_stats_rejected_def one_user_one_worker_def example_helpers_def
        empty_state_def empty_snapshot_def empty_user_def empty_worker_def only_1d_def
        Math_max_def max2_def)
  from js ts show ?thesis by blast
qed

section \<open>The active flag is never cleared\<close>

lemma no_user_deactivated_refl: "no_user_deactivated d d"
  by (auto simp: no_user_deactivated_def)

lemma no_user_deactivated_trans:
  "no_user_deactivated d0 d1 \<Longrightarrow> no_user_deactivated d1 d2 \<Longrightarrow> no_user_deactivated d0 d2"
  unfolding no_user_deactivated_def by (metis (no_types, lifting))

lemma no_user_deactivated_same_users:
  "d' User = d User \<Longrightarrow> no_user_deactivated d d'"
  by (auto simp: no_user_deactivated_def)

lemma keeps_activeI:
  "(\<And>s r s'. f s = (r, s') \<Longrightarrow> no_user_deactivated (contents s) (contents s')) \<Longrightarrow> keeps_active f"
  by (simp add: keeps_active_def)

lemma keeps_activeD:
  "keeps_active f \<Longrightarrow> f s = (r, s') \<Longrightarrow> no_user_deactivated (contents s) (contents s')"
  by (simp add: keeps_active_def)

lemma keeps_active_pure [simp]:
  "keeps_active (succeed x)" "keeps_active (raise e)" "keeps_active (lift r)"
  "keeps_active (log line)" "keeps_active (getDb W)" "keeps_active (destroy W)"
  by (auto simp: keeps_active_def action_defs no_user_deactivated_refl split: option.splits)

lemma keeps_active_and_then:
  assumes "keeps_active m" "\<And>x. keeps_active (f x)"
  shows "keeps_active (and_then m f)"
proof (rule keeps_activeI)
  fix s r s'
  assume run: "and_then m f s = (r, s')"
  obtain r1 s1 where m: "m s = (r1, s1)" by (cases "m s")
  with assms(1) have 1: "no_user_deactivated (contents s) (contents s1)" by (rule keeps_activeD)
  show "no_user_deactivated (contents s) (contents s')"
  proof (cases r1)
    case (Inl e)
    with run m 1 show ?thesis by (simp add: and_then_def)
  next
    case (Inr x)
    with run m have "f x s1 = (r, s')" by (simp add: and_then_def)
    with assms(2) have "no_user_deactivated (contents s1) (contents s')" by (rule keeps_activeD)
    with 1 show ?thesis by (rule no_user_deactivated_trans)
  qed
qed

lemma keeps_active_try_catch:
  assumes "keeps_active m" "\<And>e. keeps_active (h e)"
  shows "keeps_active (try_catch m h)"
proof (rule keeps_activeI)
  fix s r s'
  assume run: "try_catch m h s = (r, s')"
  obtain r1 s1 where m: "m s = (r1, s1)" by (cases "m s")
  with assms(1) have 1: "no_user_deactivated (contents s) (contents s1)" by (rule keeps_activeD)
  show "no_user_deactivated (contents s) (contents s')"
  proof (cases r1)
    case (Inr x)
    with run m 1 show ?thesis by (simp add: try_catch_def)
  next
    case (Inl e)
    with run m have "h e s1 = (r, s')" by (simp add: try_catch_def)
    with assms(2) have "no_user_deactivated (contents s1) (contents s')" by (rule keeps_activeD)
    with 1 show ?thesis by (rule no_user_deactivated_trans)
  qed
qed

lemma keeps_active_try_finally:
  assumes "keeps_active m" "keeps_active f"
  shows "keeps_active (try_finally m f)"
proof (rule keeps_activeI)
  fix s r s'
  assume run: "try_finally m f s = (r, s')"
  obtain r1 s1 where m: "m s = (r1, s1)" by (cases "m s")
  with assms(1) have 1: "no_user_deactivated (contents s) (contents s1)" by (rule keeps_activeD)
  obtain r2 s2 where f: "f s1 = (r2, s2)" by (cases "f s1")
  with assms(2) have 2: "no_user_deactivated (contents s1) (contents s2)" by (rule keeps_activeD)
  from run m f have "s' = s2" by (cases r2) (simp_all add: try_finally_def)
  with 1 2 show "no_user_deactivated (contents s) (contents s')"
    by (auto intro: no_user_deactivated_trans)
qed

lemma keeps_active_transaction:
  assumes "keeps_active body"
  shows "keeps_active (transaction body)"
proof (rule keeps_activeI)
  fix s r s'
  assume run: "transaction body s = (r, s')"
  obtain r1 s1 where b: "body s = (r1, s1)" by (cases "body s")
  with assms have 1: "no_user_deactivated (contents s) (contents s1)" by (rule keeps_activeD)
  show "no_user_deactivated (contents s) (contents s')"
  proof (cases r1)
    case (Inl e)
    with run b show ?thesis by (auto simp: transaction_def no_user_deactivated_refl)
  next
    case (Inr x)
    with run b 1 show ?thesis by (auto simp: transaction_def)
  qed
qed

lemma keeps_active_for_each:
  assumes "\<And>x. keeps_active (f x)"
  shows "keeps_active (for_each f xs)"
  by (induction xs) (simp_all add: keeps_active_and_then assms)

lemma in_flight_keeps_active:
  assumes "\<And>x. keeps_active (f x)"
  shows "no_user_deactivated (contents s) (contents (in_flight W k f rest s))"
proof (induction rest arbitrary: s)
  case Nil
  then show ?case by (simp add: no_user_deactivated_refl)
next
  case (Cons a rest)
  obtain i x where a: "a = (i, x)" by (cases a)
  have 1: "no_user_deactivated (contents s) (contents (snd (f x s)))"
    using assms [of x] keeps_activeD [of "f x" s "fst (f x s)" "snd (f x s)"] by simp
  show ?case
  proof (cases "completes W k i")
    case True
    with a Cons.IH [of "snd (f x s)"] 1 show ?thesis
      by (auto intro: no_user_deactivated_trans)
  next
    case False
    with a Cons.IH [of s] show ?thesis by simp
  qed
qed

lemma keeps_active_settle:
  assumes "\<And>x. keeps_active (f x)"
  shows "keeps_active (settle W k f xs)"
proof (induction xs)
  case Nil
  then show ?case by simp
next
  case (Cons a xs)
  obtain i x where a: "a = (i, x)" by (cases a)
  show ?case
  proof (rule keeps_activeI)
    fix s s' :: state and r :: "error + unit"
    assume run: "settle W k f (a # xs) s = (r, s')"
    obtain r1 s1 where 1: "f x s = (r1, s1)" by (cases "f x s")
    from assms 1 have first: "no_user_deactivated (contents s) (contents s1)"
      by (rule keeps_activeD)
    have "no_user_deactivated (contents s1) (contents s')"
    proof (cases r1)
      case (Inl e)
      with run 1 a have "s' = in_flight W k f xs s1" by simp
      then show ?thesis using in_flight_keeps_active [OF assms] by simp
    next
      case (Inr u)
      with run 1 a have "settle W k f xs s1 = (r, s')" by simp
      with Cons.IH show ?thesis by (rule keeps_activeD)
    qed
    with first show "no_user_deactivated (contents s) (contents s')"
      by (rule no_user_deactivated_trans)
  qed
qed

lemma keeps_active_promise_all:
  assumes "\<And>x. keeps_active (f x)"
  shows "keeps_active (promise_all W k f xs)"
  unfolding promise_all_def using assms by (rule keeps_active_settle)

lemma save_other_table:
  assumes "t \<noteq> User"
  shows "keeps_active (save W t entity)"
proof (rule keeps_activeI)
  fix s r s'
  assume "save W t entity s = (r, s')"
  with assms have "contents s' User = contents s User"
    by (auto simp: save_def split: option.splits prod.splits)
  then show "no_user_deactivated (contents s) (contents s')"
    by (rule no_user_deactivated_same_users)
qed

lemma upsert_User_rows:
  assumes "upsert User entity rows = (saved, rows')" "r' \<in> set rows'"
  shows "r' \<in> set rows \<or> r' = entity
       \<or> (\<exists>r\<in>set rows. r' = assign r entity \<and> r ''address'' = entity ''address'')"
  using assms
  by (auto simp: upsert_def Let_def split: option.splits if_splits)

lemma save_User_keeps_active:
  assumes "entity ''isActive'' \<noteq> Some (Bool False)"
  shows "keeps_active (save W User entity)"
proof (rule keeps_activeI)
  fix s r s'
  assume run: "save W User entity s = (r, s')"
  show "no_user_deactivated (contents s) (contents s')"
  proof (cases "rejects W (contents s) User entity")
    case (Some e)
    with run show ?thesis by (simp add: save_def no_user_deactivated_refl)
  next
    case None
    obtain saved rows' where u: "upsert User entity (contents s User) = (saved, rows')"
      by (cases "upsert User entity (contents s User)")
    with run None have s': "contents s' User = rows'" by (auto simp: save_def)
    show ?thesis
      unfolding no_user_deactivated_def
    proof (intro ballI impI)
      fix r'
      assume r': "r' \<in> set (contents s' User)" and off: "get_column r' ''isActive'' = Bool False"
      from r' s' have "r' \<in> set rows'" by simp
      with u consider "r' \<in> set (contents s User)" | "r' = entity"
        | r0 where "r0 \<in> set (contents s User)" "r' = assign r0 entity"
            "r0 ''address'' = entity ''address''"
        using upsert_User_rows by blast
      then show "\<exists>r0\<in>set (contents s User).
          get_column r0 ''address'' = get_column r' ''address''
          \<and> get_column r0 ''isActive'' = Bool False"
      proof cases
        case 1
        with off show ?thesis by blast
      next
        case 2
        with off assms show ?thesis
          by (auto simp: get_column_def split: option.splits)
      next
        case 3
        from 3(2) off assms have "get_column r0 ''isActive'' = Bool False"
          by (auto simp: get_column_def assign_def map_add_def split: option.splits)
        moreover from 3(2,3) have "get_column r0 ''address'' = get_column r' ''address''"
          by (auto simp: get_column_def assign_def map_add_def split: option.splits)
        ultimately show ?thesis using 3(1) by blast
      qed
    qed
  qed
qed

lemma user_entity_isActive:
  "user_entity H address user found ''isActive'' = Some (Bool True)"
  by (cases found) (simp_all add: user_entity_def set_column_def)

lemma worker_step_keeps_active: "keeps_active (worker_step W H address entry)"
proof (rule keeps_activeI)
  fix s s' :: state and r :: "error + unit"
  obtain workerName worker where entry: "entry = (workerName, worker)" by (cases entry)
  let ?found = "findOne [(''userAddress'', Text address), (''name'', Text workerName)]
      (contents s Worker)"
  let ?m = "and_then (lift (workerValues H worker)) (\<lambda>vals.
            and_then (save W Worker
                        (case ?found of
                           Some found \<Rightarrow> assign found vals
                         | None \<Rightarrow>
                             assign (map_of [(''userAddress'', Text address),
                                             (''name'', Text workerName)]) vals))
              (\<lambda>savedWorker.
            and_then (save W WorkerStats
                        (assign (map_of [(''workerId'', get_column savedWorker ''id'')]) vals))
              (\<lambda>_. succeed ())))"
  have "keeps_active ?m"
    by (intro keeps_active_and_then save_other_table) simp_all
  moreover assume "worker_step W H address entry s = (r, s')"
  with entry have "?m s = (r, s')" by (simp add: worker_step_def Let_def)
  ultimately show "no_user_deactivated (contents s) (contents s')" by (rule keeps_activeD)
qed

lemma address_writes_keeps_active: "keeps_active (address_writes W H entry)"
proof (rule keeps_activeI)
  fix s s' :: state and r :: "error + unit"
  obtain address user where entry: "entry = (address, user)" by (cases entry)
  let ?e = "user_entity H address user (findOne [(''address'', Text address)] (contents s User))"
  let ?m = "and_then (save W User ?e) (\<lambda>_.
            and_then (lift (userStats_entity H address user)) (\<lambda>userStats.
            and_then (save W UserStats userStats) (\<lambda>_.
            for_each (worker_step W H address) (entries_or_empty (workers user)))))"
  have "keeps_active ?m"
    by (intro keeps_active_and_then keeps_active_for_each save_other_table
        save_User_keeps_active worker_step_keeps_active)
      (simp_all add: user_entity_isActive)
  moreover assume "address_writes W H entry s = (r, s')"
  with entry have "?m s = (r, s')" by (simp add: address_writes_def Let_def)
  ultimately show "no_user_deactivated (contents s) (contents s')" by (rule keeps_activeD)
qed

lemma address_task_keeps_active: "keeps_active (address_task W H entry)"
  by (simp add: address_task_def keeps_active_transaction address_writes_keeps_active)

lemma run_batches_keeps_active: "keeps_active (run_batches W H k bs)"
  by (induction bs arbitrary: k)
    (auto intro!: keeps_active_and_then keeps_active_promise_all address_task_keeps_active)

lemma process_batches_keeps_active: "keeps_active (process_batches W H 0 es)"
proof -
  have "process_batches W H 0 es = run_batches W H 1 (batches_from 0 es)"
    using process_batches_run_batches [of 0 W H es] by (auto simp: fun_eq_iff)
  then show ?thesis by (simp add: run_batches_keeps_active)
qed

lemma updateUsersFromJson_keeps_active: "keeps_active (updateUsersFromJson W H)"
  unfolding updateUsersFromJson_def
  by (intro keeps_active_and_then keeps_active_try_finally process_batches_keeps_active)
    simp_all

lemma update_main_keeps_active:
  "no_user_deactivated (contents s) (contents (snd (update_main W H s)))"
proof -
  obtain r s' where run: "updateUsersFromJson W H s = (r, s')"
    by (cases "updateUsersFromJson W H s")
  with updateUsersFromJson_keeps_active have "no_user_deactivated (contents s) (contents s')"
    by (rule keeps_activeD)
  with run show ?thesis
    by (cases r) (simp_all add: update_main_def log_def)
qed

lemma keeps_active_cases:
  assumes "keeps_active m" "\<And>e. keeps_active (h e)" "\<And>x. keeps_active (f x)"
  shows "keeps_active (\<lambda>s. case m s of (Inl e, s') \<Rightarrow> h e s' | (Inr x, s') \<Rightarrow> f x s')"
proof (rule keeps_activeI)
  fix s r s'
  assume run: "(case m s of (Inl e, s') \<Rightarrow> h e s' | (Inr x, s') \<Rightarrow> f x s') = (r, s')"
  obtain r1 s1 where m: "m s = (r1, s1)" by (cases "m s")
  with assms(1) have 1: "no_user_deactivated (contents s) (contents s1)" by (rule keeps_activeD)
  have "no_user_deactivated (contents s1) (contents s')"
  proof (cases r1)
    case (Inl e)
    with run m have "h e s1 = (r, s')" by simp
    with assms(2) show ?thesis by (rule keeps_activeD)
  next
    case (Inr x)
    with run m have "f x s1 = (r, s')" by simp
    with assms(3) show ?thesis by (rule keeps_activeD)
  qed
  with 1 show "no_user_deactivated (contents s) (contents s')"
    by (rule no_user_deactivated_trans)
qed

lemma address_only_isActive: "map_of [(''address'', a)] ''isActive'' \<noteq> Some (Bool False)"
  by simp

lemma worker_step_js_keeps_active: "keeps_active (worker_step_js W H json address entry)"
  unfolding worker_step_js_def
  by (cases entry) (auto intro!: keeps_active_and_then save_other_table)

lemma user_step_js_keeps_active: "keeps_active (user_step_js W H json entry)"
  unfolding user_step_js_def
  by (cases entry)
    (auto intro!: keeps_active_and_then keeps_active_for_each save_other_table
      save_User_keeps_active worker_step_js_keeps_active)

lemma updateUsersFromJson_js_keeps_active: "keeps_active (updateUsersFromJson_js W H)"
  unfolding updateUsersFromJson_js_def
  by (intro keeps_active_cases keeps_active_and_then keeps_active_try_finally
      keeps_active_try_catch keeps_active_for_each user_step_js_keeps_active) simp_all

lemma update_main_js_keeps_active:
  "no_user_deactivated (contents s) (contents (snd (update_main_js W H s)))"
proof -
  obtain r s' where run: "updateUsersFromJson_js W H s = (r, s')"
    by (cases "updateUsersFromJson_js W H s")
  with updateUsersFromJson_js_keeps_active have "no_user_deactivated (contents s) (contents s')"
    by (rule keeps_activeD)
  with run show ?thesis
    by (cases r) (simp_all add: update_main_js_def)
qed

lemma top_user_step_keeps_active: "keeps_active (top_user_step W stats u)"
  unfolding top_user_step_def
  by (auto intro!: keeps_active_and_then save_other_table save_User_keeps_active)

lemma seed_keeps_active: "keeps_active (seed W H)"
proof -
  have tail: "keeps_active (case x of (p2poolJson, stats) \<Rightarrow>
          try_finally
            (try_catch
               (and_then (lift (poolStats_entity stats)) (\<lambda>poolStats.
                and_then (save W PoolStats poolStats) (\<lambda>_.
                and_then (for_each (top_user_step W stats) (topUsers p2poolJson)) (\<lambda>_.
                log (Out ''Database seeded successfully'')))))
               (\<lambda>err. log (Err ''Error seeding database:'' err)))
            (destroy W))" for x
    by (cases x)
      (auto intro!: keeps_active_try_finally keeps_active_try_catch keeps_active_and_then
        keeps_active_for_each save_other_table top_user_step_keeps_active)
  have head: "keeps_active (and_then (log (Out ''Reading pool stats from disk...'')) (\<lambda>_.
                and_then (lift (readP2PoolJson W)) (\<lambda>p2poolJson.
                and_then (lift (p2poolToCkpool H p2poolJson)) (\<lambda>stats.
                and_then (getDb W) (\<lambda>_. succeed (p2poolJson, stats))))))"
    by (intro keeps_active_and_then) simp_all
  show ?thesis
  proof (rule keeps_activeI)
    fix s s' :: state and r :: "error + unit"
    assume run: "seed W H s = (r, s')"
    let ?head = "and_then (log (Out ''Reading pool stats from disk...'')) (\<lambda>_.
                and_then (lift (readP2PoolJson W)) (\<lambda>p2poolJson.
                and_then (lift (p2poolToCkpool H p2poolJson)) (\<lambda>stats.
                and_then (getDb W) (\<lambda>_. succeed (p2poolJson, stats)))))"
    obtain r1 s1 where h: "?head s = (r1, s1)" by (cases "?head s")
    with head have 1: "no_user_deactivated (contents s) (contents s1)" by (rule keeps_activeD)
    have "no_user_deactivated (contents s1) (contents s')"
    proof (cases r1)
      case (Inl e)
      with run h have "log (Err ''Error seeding database:'' e) s1 = (r, s')"
        by (simp add: seed_def)
      then show ?thesis
        using keeps_active_pure(4) by (rule keeps_activeD [rotated])
    next
      case (Inr x)
      with run h have "(case x of (p2poolJson, stats) \<Rightarrow>
          try_finally
            (try_catch
               (and_then (lift (poolStats_entity stats)) (\<lambda>poolStats.
                and_then (save W PoolStats poolStats) (\<lambda>_.
                and_then (for_each (top_user_step W stats) (topUsers p2poolJson)) (\<lambda>_.
                log (Out ''Database seeded successfully'')))))
               (\<lambda>err. log (Err ''Error seeding database:'' err)))
            (destroy W)) s1 = (r, s')"
        by (cases x) (simp add: seed_def)
      with tail show ?thesis by (rule keeps_activeD)
    qed
    with 1 show "no_user_deactivated (contents s) (contents s')"
      by (rule no_user_deactivated_trans)
  qed
qed

lemma seed_main_keeps_active:
  "no_user_deactivated (contents s) (contents (snd (seed_main W H s)))"
proof -
  have "keeps_active (and_then (seed W H) (\<lambda>_. log (Out ''Seeding completed successfully.'')))"
    by (intro keeps_active_and_then seed_keeps_active) simp
  moreover obtain r s' where run:
    "and_then (seed W H) (\<lambda>_. log (Out ''Seeding completed successfully.'')) s = (r, s')"
    by (cases "and_then (seed W H) (\<lambda>_. log (Out ''Seeding completed successfully.'')) s")
  ultimately have "no_user_deactivated (contents s) (contents s')"
    by (rule keeps_activeD)
  with run show ?thesis
    by (cases r) (simp_all add: seed_main_def)
qed

text \<open>
  C9. No run sets a user's \<open>isActive\<close> to \<open>false\<close>. The batched updater assigns \<open>true\<close>
  on every User entity it saves, new or found; the sequential updater and the seed
  script save a User with its address alone and leave the flag as it is. So whichever
  script runs, in whatever world, a user that is inactive afterwards was inactive, under
  the same address, before.
\<close>

theorem isActive_only_set_true:
  "user_entity H address user found ''isActive'' = Some (Bool True)
   \<and> no_user_deactivated (contents s) (contents (snd (update_main W H s)))
   \<and> no_user_deactivated (contents s) (contents (snd (update_main_js W H s)))
   \<and> no_user_deactivated (contents s) (contents (snd (seed_main W H s)))"
  by (simp add: user_entity_isActive update_main_keeps_active update_main_js_keeps_active
      seed_main_keeps_active)

theorem isActive_only_set_true_witness:
  "map (\<lambda>r. (get_column r ''address'', get_column r ''isActive''))
     (contents two_inactive_users User)
     = [(Text ''addr1'', Bool False), (Text ''gone'', Bool False)]
   \<and> map (\<lambda>r. (get_column r ''address'', get_column r ''isActive''))
       (contents (snd (update_main world_all_accepted example_helpers two_inactive_users)) User)
     = [(Text ''addr1'', Bool True), (Text ''gone'', Bool False)]"
proof -
  have before: "map (\<lambda>r. (get_column r ''address'', get_column r ''isActive''))
     (contents two_inactive_users User)
     = [(Text ''addr1'', Bool False), (Text ''gone'', Bool False)]"
    by (simp add: two_inactive_users_def get_column_def)
  have after: "map (\<lambda>r. (get_column r ''address'', get_column r ''isActive''))
       (contents (snd (update_main world_all_accepted example_helpers two_inactive_users)) User)
     = [(Text ''addr1'', Bool True), (Text ''gone'', Bool False)]"
    by (simp add: update_main_def updateUsersFromJson_def process_batches.simps slice_def
        BATCH_SIZE_def settle_defs update_ts_defs action_defs store_defs string_defs
        world_all_accepted_def one_user_one_worker_def example_helpers_def
        two_inactive_users_def empty_snapshot_def empty_user_def empty_worker_def only_1d_def
        Math_max_def max2_def)
  from isActive_only_set_true [of example_helpers "''addr1''" empty_user None
      two_inactive_users world_all_accepted]
  have "no_user_deactivated (contents two_inactive_users)
      (contents (snd (update_main world_all_accepted example_helpers two_inactive_users)))"
    by blast
  with before after show ?thesis by simp
qed

section \<open>The exit status\<close>

lemma try_catch_logged:
  "fst (try_finally (try_catch m (\<lambda>err. log (line err))) (succeed ()) s) = Inr ()"
  by (auto simp: try_finally_def try_catch_def log_def succeed_def split: prod.splits sum.splits)

lemma log_fulfilled: "fst (log line s) = Inr ()"
  by (simp add: log_def)

lemma seed_v1_fulfilled:
  assumes "destroy_error W = None"
  shows "fst (seed_v1 W H s) = Inr ()"
proof -
  from assms have d: "destroy W = succeed ()" by (simp add: destroy_def)
  show ?thesis
    unfolding seed_v1_def d
    by (auto simp: try_catch_logged log_fulfilled split: prod.splits sum.splits)
qed

lemma seed_fulfilled:
  assumes "destroy_error W = None"
  shows "fst (seed W H s) = Inr ()"
proof -
  from assms have d: "destroy W = succeed ()" by (simp add: destroy_def)
  show ?thesis
    unfolding seed_def d
    by (auto simp: try_catch_logged log_fulfilled split: prod.splits sum.splits)
qed

lemma updateUsersFromJson_js_fulfilled:
  assumes "destroy_error W = None"
  shows "fst (updateUsersFromJson_js W H s) = Inr ()"
proof -
  from assms have d: "destroy W = succeed ()" by (simp add: destroy_def)
  show ?thesis
    unfolding updateUsersFromJson_js_def d
    by (auto simp: try_catch_logged log_fulfilled split: prod.splits sum.splits)
qed

text \<open>
  Every script catches its own errors and logs them: unless \<open>db.destroy()\<close> itself
  raises, the exit status is \<open>0\<close> whatever happened, and the \<open>process.exit(1)\<close> of the
  one version that has it is never reached.
\<close>

lemma exit_status_zero:
  "fst (update_main W H s) = 0"
  "destroy_error W = None \<Longrightarrow> fst (seed_main_v1 W H s) = 0"
  "destroy_error W = None \<Longrightarrow> fst (seed_main W H s) = 0"
  "destroy_error W = None \<Longrightarrow> fst (update_main_js W H s) = 0"
proof -
  show "fst (update_main W H s) = 0"
    by (simp add: update_main_def split: prod.splits sum.splits)
next
  assume d: "destroy_error W = None"
  from seed_v1_fulfilled [OF d, of H s] show "fst (seed_main_v1 W H s) = 0"
    by (cases "seed_v1 W H s") (simp add: seed_main_v1_def and_then_def log_def)
  from seed_fulfilled [OF d, of H s] show "fst (seed_main W H s) = 0"
    by (cases "seed W H s") (simp add: seed_main_def and_then_def log_def)
  from updateUsersFromJson_js_fulfilled [OF d, of H s] show "fst (update_main_js W H s) = 0"
    by (cases "updateUsersFromJson_js W H s") (simp add: update_main_js_def)
qed

lemmas seed_defs = seed_main_v1_def seed_v1_def fetchPoolStats_def readP2PoolJson_v1_def
  seed_main_def seed_def readP2PoolJson_def bind_err_def

text \<open>
  C8. With a snapshot file that cannot be read, the seed script logs the error and
  exits with status \<open>0\<close>, after printing that seeding completed; so it does when the
  file is not JSON and when the backend is unreachable. The updater scripts exit with
  status \<open>0\<close> on the unreadable file as well.
\<close>

theorem fatal_errors_exit_zero:
  "seed_main_v1 world_file_unreadable example_helpers empty_state
     = (0, empty_state\<lparr>console := [Out ''Reading pool stats from disk...'',
          Err ''Error seeding database:'' (Rethrown FileError),
          Out ''Seeding completed successfully.'']\<rparr>)
   \<and> seed_main_v1 world_file_malformed example_helpers empty_state
     = (0, empty_state\<lparr>console := [Out ''Reading pool stats from disk...'',
          Err ''Error seeding database:'' (Rethrown SyntaxError),
          Out ''Seeding completed successfully.'']\<rparr>)
   \<and> seed_main_v1 world_backend_unreachable example_helpers empty_state
     = (0, empty_state\<lparr>console := [Out ''Reading pool stats from disk...'',
          Out ''Saving pool stats to database...'',
          Err ''Database connection error:'' ConnectionError,
          Err ''Error seeding database:'' ConnectionError,
          Out ''Seeding completed successfully.'']\<rparr>)
   \<and> seed_main world_file_unreadable example_helpers empty_state
     = (0, empty_state\<lparr>console := [Out ''Reading pool stats from disk...'',
          Err ''Error seeding database:'' FileError,
          Out ''Seeding completed successfully.'']\<rparr>)
   \<and> update_main world_file_unreadable example_helpers empty_state
     = (0, empty_state\<lparr>console := [Out ''Reading P2Pool stats from: ./pool_stats.json'',
          Err '''' FileError]\<rparr>)
   \<and> update_main_js world_file_unreadable example_helpers empty_state
     = (0, empty_state\<lparr>console := [Err ''Error updating users:'' FileError]\<rparr>)"
proof -
  have stats: "\<exists>stats. p2poolToCkpool_v1 example_helpers empty_snapshot = Inr stats"
    by (simp add: p2poolToCkpool_v1_def p2poolToCkpool_def hashrateFields_def bind_err_def
        values_or_empty_def entries_or_empty_def empty_snapshot_def no_hashrates_def
        scaleHashrate_string_absent Let_def)
  have 1: "seed_main_v1 world_file_unreadable example_helpers empty_state
     = (0, empty_state\<lparr>console := [Out ''Reading pool stats from disk...'',
          Err ''Error seeding database:'' (Rethrown FileError),
          Out ''Seeding completed successfully.'']\<rparr>)"
    by (simp add: seed_defs action_defs world_file_unreadable_def empty_state_def)
  have 2: "seed_main_v1 world_file_malformed example_helpers empty_state
     = (0, empty_state\<lparr>console := [Out ''Reading pool stats from disk...'',
          Err ''Error seeding database:'' (Rethrown SyntaxError),
          Out ''Seeding completed successfully.'']\<rparr>)"
    by (simp add: seed_defs action_defs world_file_malformed_def empty_state_def)
  have 3: "seed_main_v1 world_backend_unreachable example_helpers empty_state
     = (0, empty_state\<lparr>console := [Out ''Reading pool stats from disk...'',
          Out ''Saving pool stats to database...'',
          Err ''Database connection error:'' ConnectionError,
          Err ''Error seeding database:'' ConnectionError,
          Out ''Seeding completed successfully.'']\<rparr>)"
    using stats
    by (auto simp: seed_defs action_defs world_backend_unreachable_def empty_state_def)
  have 4: "seed_main world_file_unreadable example_helpers empty_state
     = (0, empty_state\<lparr>console := [Out ''Reading pool stats from disk...'',
          Err ''Error seeding database:'' FileError,
          Out ''Seeding completed successfully.'']\<rparr>)"
    by (simp add: seed_defs action_defs world_file_unreadable_def empty_state_def)
  have 5: "update_main world_file_unreadable example_helpers empty_state
     = (0, empty_state\<lparr>console := [Out ''Reading P2Pool stats from: ./pool_stats.json'',
          Err '''' FileError]\<rparr>)"
    by (simp add: update_main_def updateUsersFromJson_def action_defs
        world_file_unreadable_def empty_state_def)
  have 6: "update_main_js world_file_unreadable example_helpers empty_state
     = (0, empty_state\<lparr>console := [Err ''Error updating users:'' FileError]\<rparr>)"
    by (simp add: update_main_js_def updateUsersFromJson_js_def action_defs
        world_file_unreadable_def empty_state_def)
  from 1 2 3 4 5 6 show ?thesis by blast
qed

section \<open>The top-10 selection\<close>

lemma positive_difference:
  "x \<noteq> NaN \<Longrightarrow> y \<noteq> NaN \<Longrightarrow> positive (minus_num y x) \<longleftrightarrow> \<not> num_le y x"
  by (cases x; cases y) auto

lemma not_positive_self: "\<not> positive (minus_num x x)"
  by (cases x) simp_all

lemma set_insert_sorted [simp]: "set (insert_sorted c x ys) = insert x (set ys)"
  by (induction ys) auto

lemma length_insert_sorted [simp]: "length (insert_sorted c x ys) = Suc (length ys)"
  by (induction ys) auto

lemma set_sort_by [simp]: "set (sort_by c xs) = set xs"
  by (induction xs) (simp_all add: sort_by_def)

lemma length_sort_by [simp]: "length (sort_by c xs) = length xs"
  by (induction xs) (simp_all add: sort_by_def)

lemma sort_by_Cons: "sort_by c (x # xs) = insert_sorted c x (sort_by c xs)"
  by (simp add: sort_by_def)

text \<open>Stability: among equal hashrates the order of the input is kept.\<close>

lemma filter_insert_sorted:
  "filter (\<lambda>u. r_hashrate u = h) (insert_sorted by_hashrate_desc x ys)
   = (if r_hashrate x = h then x # filter (\<lambda>u. r_hashrate u = h) ys
      else filter (\<lambda>u. r_hashrate u = h) ys)"
proof (induction ys)
  case Nil
  then show ?case by simp
next
  case (Cons y ys)
  have "r_hashrate y \<noteq> r_hashrate x" if "positive (by_hashrate_desc x y)"
    using that not_positive_self [of "r_hashrate x"] by (auto simp: by_hashrate_desc_def)
  with Cons show ?case by auto
qed

lemma filter_sort_by:
  "filter (\<lambda>u. r_hashrate u = h) (sort_by by_hashrate_desc xs)
   = filter (\<lambda>u. r_hashrate u = h) xs"
  by (induction xs) (simp_all add: sort_by_Cons filter_insert_sorted, simp add: sort_by_def)

text \<open>The result is in descending order of hashrate.\<close>

lemma sorted_insert_sorted:
  assumes "r_hashrate x \<noteq> NaN" "\<forall>u\<in>set ys. r_hashrate u \<noteq> NaN"
    and "sorted_wrt (\<lambda>a b. num_le (r_hashrate b) (r_hashrate a)) ys"
  shows "sorted_wrt (\<lambda>a b. num_le (r_hashrate b) (r_hashrate a))
           (insert_sorted by_hashrate_desc x ys)"
  using assms
proof (induction ys)
  case Nil
  then show ?case by simp
next
  case (Cons y ys)
  from Cons.prems have y: "r_hashrate y \<noteq> NaN" by simp
  show ?case
  proof (cases "positive (by_hashrate_desc x y)")
    case True
    with Cons.prems(1) y have "\<not> num_le (r_hashrate y) (r_hashrate x)"
      by (simp add: by_hashrate_desc_def positive_difference)
    with Cons.prems(1) y have xy: "num_le (r_hashrate x) (r_hashrate y)"
      using num_le_total by blast
    from Cons have "sorted_wrt (\<lambda>a b. num_le (r_hashrate b) (r_hashrate a))
           (insert_sorted by_hashrate_desc x ys)" by simp
    with True xy Cons.prems(3) show ?thesis by auto
  next
    case False
    with Cons.prems(1) y have yx: "num_le (r_hashrate y) (r_hashrate x)"
      by (simp add: by_hashrate_desc_def positive_difference)
    have "num_le (r_hashrate u) (r_hashrate x)" if "u \<in> set ys" for u
    proof -
      from that Cons.prems(3) have "num_le (r_hashrate u) (r_hashrate y)" by auto
      then show ?thesis using yx by (rule num_le_trans)
    qed
    with False yx Cons.prems(3) show ?thesis by auto
  qed
qed

lemma sorted_sort_by:
  assumes "\<forall>u\<in>set xs. r_hashrate u \<noteq> NaN"
  shows "sorted_wrt (\<lambda>a b. num_le (r_hashrate b) (r_hashrate a)) (sort_by by_hashrate_desc xs)"
  using assms
proof (induction xs)
  case Nil
  then show ?case by (simp add: sort_by_def)
next
  case (Cons x xs)
  then show ?case
    by (simp add: sort_by_Cons sorted_insert_sorted)
qed

lemma filter_take_prefix:
  "\<exists>rest. filter P ys = filter P (take n ys) @ rest"
proof -
  have "filter P ys = filter P (take n ys) @ filter P (drop n ys)"
    by (metis append_take_drop_id filter_append)
  then show ?thesis by blast
qed

lemma take_above_drop:
  assumes "sorted_wrt R ys" "a \<in> set (take n ys)" "b \<in> set (drop n ys)"
  shows "R a b"
proof -
  from assms(1) have "sorted_wrt R (take n ys @ drop n ys)" by simp
  with assms(2,3) show ?thesis
    unfolding sorted_wrt_append by blast
qed

subsection \<open>Relations that every step of a run maintains\<close>

lemma maintainsI:
  "(\<And>s r s'. f s = (r, s') \<Longrightarrow> R (contents s) (contents s')) \<Longrightarrow> maintains R f"
  by (simp add: maintains_def)

lemma maintainsD:
  "maintains R f \<Longrightarrow> f s = (r, s') \<Longrightarrow> R (contents s) (contents s')"
  by (simp add: maintains_def)

lemma maintains_pure:
  assumes "reflp R"
  shows "maintains R (succeed x)" "maintains R (raise e)" "maintains R (lift r)"
    "maintains R (log line)" "maintains R (getDb W)" "maintains R (destroy W)"
  using assms
  by (auto simp: maintains_def action_defs reflp_def split: option.splits)

lemma maintains_and_then:
  assumes "transp R" "maintains R m" "\<And>x. maintains R (f x)"
  shows "maintains R (and_then m f)"
proof (rule maintainsI)
  fix s r s'
  assume run: "and_then m f s = (r, s')"
  obtain r1 s1 where m: "m s = (r1, s1)" by (cases "m s")
  with assms(2) have 1: "R (contents s) (contents s1)" by (rule maintainsD)
  show "R (contents s) (contents s')"
  proof (cases r1)
    case (Inl e)
    with run m 1 show ?thesis by (simp add: and_then_def)
  next
    case (Inr x)
    with run m have "f x s1 = (r, s')" by (simp add: and_then_def)
    with assms(3) have "R (contents s1) (contents s')" by (rule maintainsD)
    with assms(1) 1 show ?thesis by (blast dest: transpD)
  qed
qed

lemma maintains_try_catch:
  assumes "transp R" "maintains R m" "\<And>e. maintains R (h e)"
  shows "maintains R (try_catch m h)"
proof (rule maintainsI)
  fix s r s'
  assume run: "try_catch m h s = (r, s')"
  obtain r1 s1 where m: "m s = (r1, s1)" by (cases "m s")
  with assms(2) have 1: "R (contents s) (contents s1)" by (rule maintainsD)
  show "R (contents s) (contents s')"
  proof (cases r1)
    case (Inr x)
    with run m 1 show ?thesis by (simp add: try_catch_def)
  next
    case (Inl e)
    with run m have "h e s1 = (r, s')" by (simp add: try_catch_def)
    with assms(3) have "R (contents s1) (contents s')" by (rule maintainsD)
    with assms(1) 1 show ?thesis by (blast dest: transpD)
  qed
qed

lemma maintains_try_finally:
  assumes "transp R" "maintains R m" "maintains R f"
  shows "maintains R (try_finally m f)"
proof (rule maintainsI)
  fix s r s'
  assume run: "try_finally m f s = (r, s')"
  obtain r1 s1 where m: "m s = (r1, s1)" by (cases "m s")
  with assms(2) have 1: "R (contents s) (contents s1)" by (rule maintainsD)
  obtain r2 s2 where f: "f s1 = (r2, s2)" by (cases "f s1")
  with assms(3) have 2: "R (contents s1) (contents s2)" by (rule maintainsD)
  from run m f have "s' = s2" by (cases r2) (simp_all add: try_finally_def)
  with assms(1) 1 2 show "R (contents s) (contents s')"
    by (auto dest: transpD)
qed

lemma maintains_for_each:
  assumes "reflp R" "transp R" "\<And>x. x \<in> set xs \<Longrightarrow> maintains R (f x)"
  shows "maintains R (for_each f xs)"
  using assms(3)
proof (induction xs)
  case Nil
  then show ?case by (simp add: maintains_pure [OF assms(1)])
next
  case (Cons x xs)
  then show ?case
    by (simp add: maintains_and_then [OF assms(2)])
qed

subsection \<open>Writes of the seed script\<close>

lemma writes_within_reflp: "reflp (writes_within A)"
  by (auto simp: reflp_def writes_within_def)

lemma writes_within_trans:
  assumes "writes_within A d0 d1" "writes_within A d1 d2"
  shows "writes_within A d0 d2"
  unfolding writes_within_def
proof (intro conjI ballI)
  fix r assume "r \<in> set (d2 User)"
  with assms(2) consider "r \<in> set (d1 User)" | "\<exists>a\<in>A. r ''address'' = Some (Text a)"
    unfolding writes_within_def by blast
  then show "r \<in> set (d0 User) \<or> (\<exists>a\<in>A. r ''address'' = Some (Text a))"
  proof cases
    case 1
    with assms(1) show ?thesis unfolding writes_within_def by blast
  next
    case 2
    then show ?thesis by blast
  qed
next
  fix r assume "r \<in> set (d2 UserStats)"
  with assms(2) consider "r \<in> set (d1 UserStats)" | "\<exists>a\<in>A. r ''userAddress'' = Some (Text a)"
    unfolding writes_within_def by blast
  then show "r \<in> set (d0 UserStats) \<or> (\<exists>a\<in>A. r ''userAddress'' = Some (Text a))"
  proof cases
    case 1
    with assms(1) show ?thesis unfolding writes_within_def by blast
  next
    case 2
    then show ?thesis by blast
  qed
qed

lemma writes_within_transp: "transp (writes_within A)"
  by (rule transpI) (rule writes_within_trans)

lemma upsert_rows:
  assumes "upsert t entity rows = (saved, rows')" "r' \<in> set rows'"
  shows "r' \<in> set rows \<or> (\<forall>k v. entity k = Some v \<longrightarrow> k \<noteq> ''id'' \<longrightarrow> r' k = Some v)"
proof (cases "entity (primary_key t)")
  case None
  let ?e = "if generated_key t then set_column ''id'' (Key (fresh_key rows)) entity else entity"
  from None assms(1) have "rows' = rows @ [?e]"
    by (auto simp: upsert_def Let_def)
  with assms(2) have "r' \<in> set rows \<or> r' = ?e" by auto
  moreover have "\<forall>k v. entity k = Some v \<longrightarrow> k \<noteq> ''id'' \<longrightarrow> ?e k = Some v"
    by (simp add: set_column_def)
  ultimately show ?thesis by blast
next
  case (Some key)
  show ?thesis
  proof (cases "list_ex (\<lambda>r. r (primary_key t) = Some key) rows")
    case False
    with Some assms(1) have "rows' = rows @ [entity]"
      by (auto simp: upsert_def Let_def)
    with assms(2) show ?thesis by auto
  next
    case True
    with Some assms(1) have "rows'
        = map (\<lambda>r. if r (primary_key t) = Some key then assign r entity else r) rows"
      by (auto simp: upsert_def Let_def)
    with assms(2) obtain r where "r \<in> set rows"
      "r' = (if r (primary_key t) = Some key then assign r entity else r)" by auto
    then have "r' \<in> set rows \<or> r' = assign r entity" by (simp split: if_splits)
    moreover have "\<forall>k v. entity k = Some v \<longrightarrow> assign r entity k = Some v"
      by (simp add: assign_def)
    ultimately show ?thesis by blast
  qed
qed

lemma save_elsewhere:
  assumes "t \<noteq> User" "t \<noteq> UserStats"
  shows "maintains (writes_within A) (save W t entity)"
proof (rule maintainsI)
  fix s r s'
  assume "save W t entity s = (r, s')"
  with assms have "contents s' User = contents s User" "contents s' UserStats = contents s UserStats"
    by (auto simp: save_def split: option.splits prod.splits)
  then show "writes_within A (contents s) (contents s')"
    by (simp add: writes_within_def)
qed

lemma save_User_within:
  assumes "a \<in> A" "entity ''address'' = Some (Text a)"
  shows "maintains (writes_within A) (save W User entity)"
proof (rule maintainsI)
  fix s r s'
  assume run: "save W User entity s = (r, s')"
  show "writes_within A (contents s) (contents s')"
  proof (cases "rejects W (contents s) User entity")
    case (Some e)
    with run show ?thesis using writes_within_reflp [of A] by (simp add: save_def reflp_def)
  next
    case None
    obtain saved rows' where u: "upsert User entity (contents s User) = (saved, rows')"
      by (cases "upsert User entity (contents s User)")
    with run None have s': "contents s' User = rows'" "contents s' UserStats = contents s UserStats"
      by (auto simp: save_def)
    have "r' \<in> set (contents s User) \<or> r' ''address'' = Some (Text a)" if "r' \<in> set rows'" for r'
      using upsert_rows [OF u that] assms(2) by auto
    with s' assms(1) show ?thesis
      by (auto simp: writes_within_def)
  qed
qed

lemma save_UserStats_within:
  assumes "a \<in> A" "entity ''userAddress'' = Some (Text a)"
  shows "maintains (writes_within A) (save W UserStats entity)"
proof (rule maintainsI)
  fix s r s'
  assume run: "save W UserStats entity s = (r, s')"
  show "writes_within A (contents s) (contents s')"
  proof (cases "rejects W (contents s) UserStats entity")
    case (Some e)
    with run show ?thesis using writes_within_reflp [of A] by (simp add: save_def reflp_def)
  next
    case None
    obtain saved rows' where u: "upsert UserStats entity (contents s UserStats) = (saved, rows')"
      by (cases "upsert UserStats entity (contents s UserStats)")
    with run None have s': "contents s' UserStats = rows'" "contents s' User = contents s User"
      by (auto simp: save_def)
    have "r' \<in> set (contents s UserStats) \<or> r' ''userAddress'' = Some (Text a)"
      if "r' \<in> set rows'" for r'
      using upsert_rows [OF u that] assms(2) by auto
    with s' assms(1) show ?thesis
      by (auto simp: writes_within_def)
  qed
qed

lemma top_user_step_within:
  assumes "r_address u \<in> A"
  shows "maintains (writes_within A) (top_user_step W stats u)"
  unfolding top_user_step_def
  by (intro maintains_and_then writes_within_transp maintains_pure writes_within_reflp
      save_User_within [OF assms] save_UserStats_within [OF assms]) simp_all

lemma seed_writes_within:
  assumes "readP2PoolJson W = Inr p2poolJson"
  shows "maintains (writes_within (r_address ` set (topUsers p2poolJson))) (seed W H)"
proof (rule maintainsI)
  let ?A = "r_address ` set (topUsers p2poolJson)"
  note R = writes_within_reflp [of ?A] and T = writes_within_transp [of ?A]
  fix s s' :: state and r :: "error + unit"
  assume run: "seed W H s = (r, s')"
  let ?head = "and_then (log (Out ''Reading pool stats from disk...'')) (\<lambda>_.
                and_then (lift (readP2PoolJson W)) (\<lambda>p2poolJson.
                and_then (lift (p2poolToCkpool H p2poolJson)) (\<lambda>stats.
                and_then (getDb W) (\<lambda>_. succeed (p2poolJson, stats)))))"
  have head: "maintains (writes_within ?A) ?head"
    by (intro maintains_and_then T maintains_pure R)
  obtain r1 s1 where h: "?head s = (r1, s1)" by (cases "?head s")
  with head have 1: "writes_within ?A (contents s) (contents s1)" by (rule maintainsD)
  have "writes_within ?A (contents s1) (contents s')"
  proof (cases r1)
    case (Inl e)
    with run h have "log (Err ''Error seeding database:'' e) s1 = (r, s')"
      by (simp add: seed_def)
    with maintains_pure(4) [OF R] show ?thesis by (rule maintainsD)
  next
    case (Inr x)
    obtain p stats where x: "x = (p, stats)" by (cases x)
    from h Inr x assms have p: "p = p2poolJson"
      by (auto simp: and_then_def lift_def log_def succeed_def getDb_def raise_def
          split: sum.splits option.splits)
    let ?tail = "try_finally
            (try_catch
               (and_then (lift (poolStats_entity stats)) (\<lambda>poolStats.
                and_then (save W PoolStats poolStats) (\<lambda>_.
                and_then (for_each (top_user_step W stats) (topUsers p2poolJson)) (\<lambda>_.
                log (Out ''Database seeded successfully'')))))
               (\<lambda>err. log (Err ''Error seeding database:'' err)))
            (destroy W)"
    have "maintains (writes_within ?A) ?tail"
      by (intro maintains_try_finally maintains_try_catch maintains_and_then T
          maintains_pure R maintains_for_each save_elsewhere top_user_step_within)
        simp_all
    moreover from run h Inr x p have "?tail s1 = (r, s')"
      by (simp add: seed_def)
    ultimately show ?thesis by (rule maintainsD)
  qed
  with T 1 show "writes_within ?A (contents s) (contents s')"
    by (blast dest: transpD)
qed

lemma seed_main_writes_within:
  assumes "readP2PoolJson W = Inr p2poolJson"
  shows "writes_within (r_address ` set (topUsers p2poolJson))
           (contents s) (contents (snd (seed_main W H s)))"
proof -
  let ?A = "r_address ` set (topUsers p2poolJson)"
  have "maintains (writes_within ?A)
      (and_then (seed W H) (\<lambda>_. log (Out ''Seeding completed successfully.'')))"
    by (intro maintains_and_then writes_within_transp seed_writes_within [OF assms]
        maintains_pure writes_within_reflp)
  moreover obtain r s' where run:
    "and_then (seed W H) (\<lambda>_. log (Out ''Seeding completed successfully.'')) s = (r, s')"
    by (cases "and_then (seed W H) (\<lambda>_. log (Out ''Seeding completed successfully.'')) s")
  ultimately have "writes_within ?A (contents s) (contents s')"
    by (rule maintainsD)
  with run show ?thesis
    by (cases r) (simp_all add: seed_main_def)
qed

text \<open>
  The selection. For a snapshot with more than ten users (whose hashrates, read from JSON,
  are never NaN), the seed script selects ten of them; the selection is in descending order
  of the 1-day hashrate; every selected user has a hashrate at least that of every user
  left out; among users of equal hashrate the selection keeps the snapshot's order and
  takes the earlier ones first (the selected users of one hashrate are a prefix of the
  snapshot's users of that hashrate). Whatever the world does, every User row and every
  UserStats row the run writes belongs to a selected address.
\<close>

lemma topUsers_selection:
  assumes "readP2PoolJson W = Inr p2poolJson"
    and "10 < length (entries_or_empty (users p2poolJson))"
    and "\<forall>u\<in>set (map rank_entry (entries_or_empty (users p2poolJson))). r_hashrate u \<noteq> NaN"
  shows "length (topUsers p2poolJson) = 10
    \<and> sorted_wrt (\<lambda>a b. num_le (r_hashrate b) (r_hashrate a)) (topUsers p2poolJson)
    \<and> set (topUsers p2poolJson) \<subseteq> set (map rank_entry (entries_or_empty (users p2poolJson)))
    \<and> (\<forall>a\<in>set (topUsers p2poolJson).
          \<forall>b\<in>set (map rank_entry (entries_or_empty (users p2poolJson)))
               - set (topUsers p2poolJson).
            num_le (r_hashrate b) (r_hashrate a))
    \<and> (\<forall>h. \<exists>rest.
          filter (\<lambda>u. r_hashrate u = h) (map rank_entry (entries_or_empty (users p2poolJson)))
          = filter (\<lambda>u. r_hashrate u = h) (topUsers p2poolJson) @ rest)
    \<and> writes_within (r_address ` set (topUsers p2poolJson))
          (contents s) (contents (snd (seed_main W H s)))"
proof -
  let ?ranked = "map rank_entry (entries_or_empty (users p2poolJson))"
  let ?sorted = "sort_by by_hashrate_desc ?ranked"
  have top: "topUsers p2poolJson = take 10 ?sorted"
    by (simp add: topUsers_def slice_def)
  from assms(2) have len: "length (topUsers p2poolJson) = 10"
    by (simp add: top)
  from assms(3) have sorted: "sorted_wrt (\<lambda>a b. num_le (r_hashrate b) (r_hashrate a)) ?sorted"
    by (rule sorted_sort_by)
  then have desc: "sorted_wrt (\<lambda>a b. num_le (r_hashrate b) (r_hashrate a)) (topUsers p2poolJson)"
    unfolding top by (metis append_take_drop_id sorted_wrt_append)
  have sub: "set (topUsers p2poolJson) \<subseteq> set ?ranked"
    unfolding top using set_take_subset [of 10 ?sorted] by simp
  have high: "num_le (r_hashrate b) (r_hashrate a)"
    if "a \<in> set (topUsers p2poolJson)" "b \<in> set ?ranked - set (topUsers p2poolJson)" for a b
  proof -
    from that(2) have "b \<in> set ?sorted" "b \<notin> set (take 10 ?sorted)"
      by (simp_all add: top)
    then have "b \<in> set (drop 10 ?sorted)"
      by (metis Un_iff append_take_drop_id set_append)
    with sorted that(1) show ?thesis
      unfolding top by (rule take_above_drop)
  qed
  have ties: "\<exists>rest. filter (\<lambda>u. r_hashrate u = h) ?ranked
          = filter (\<lambda>u. r_hashrate u = h) (topUsers p2poolJson) @ rest" for h
    using filter_take_prefix [of "\<lambda>u. r_hashrate u = h" ?sorted 10]
    by (simp add: top filter_sort_by)
  from len desc sub high ties seed_main_writes_within [OF assms(1)] show ?thesis
    by blast
qed

lemma topUsers_twelve:
  "map (\<lambda>u. (r_address u, r_hashrate u)) (topUsers twelve_users)
   = [(''u05'', Fin 9), (''u09'', Fin 8), (''u02'', Fin 7), (''u03'', Fin 7), (''u07'', Fin 7),
      (''u12'', Fin 7), (''u10'', Fin 6), (''u01'', Fin 5), (''u11'', Fin 4), (''u06'', Fin 3)]"
  by (simp add: topUsers_def slice_def sort_by_def by_hashrate_desc_def rank_entry_def
      optional_field_def twelve_users_def entries_or_empty_def empty_snapshot_def empty_user_def
      only_1d_def no_hashrates_def)

lemma BigInt_string_examples:
  "BigInt_string ''0'' = Inr 0" "BigInt_string ''21474836480'' = Inr 21474836480"
  by (simp_all add: BigInt_string_def digit_value_def)

lemma seed_twelve:
  "case seed_main world_twelve_users example_helpers empty_state of
     (status, s) \<Rightarrow>
       status = 0
       \<and> map (\<lambda>r. get_column r ''hashrate1d'') (contents s PoolStats) = [Big 21474836480]
       \<and> map (\<lambda>r. get_column r ''address'') (contents s User)
         = [Text ''u05'', Text ''u09'', Text ''u02'', Text ''u03'', Text ''u07'', Text ''u12'',
            Text ''u10'', Text ''u01'', Text ''u11'', Text ''u06'']
       \<and> map (\<lambda>r. (get_column r ''userAddress'', get_column r ''hashrate1d''))
           (contents s UserStats)
         = [(Text ''u05'', Big 9), (Text ''u09'', Big 8), (Text ''u02'', Big 7),
            (Text ''u03'', Big 7), (Text ''u07'', Big 7), (Text ''u12'', Big 7),
            (Text ''u10'', Big 6), (Text ''u01'', Big 5), (Text ''u11'', Big 4),
            (Text ''u06'', Big 3)]"
  by (simp add: seed_defs action_defs store_defs string_defs top_user_step_def
      poolStats_entity_def BigInt_string_examples
      p2poolToCkpool_def hashrateFields_def values_or_empty_def
      scaleHashrate_string_absent scaleHashrate_string_five
      topUsers_def slice_def sort_by_def by_hashrate_desc_def rank_entry_def
      optional_field_def twelve_users_def entries_or_empty_def empty_snapshot_def empty_user_def
      only_1d_def no_hashrates_def world_twelve_users_def example_helpers_def empty_state_def
      or_now_def share_rate_or0_def Let_def)

lemma topUsers_selection_twelve:
  "readP2PoolJson world_twelve_users = Inr twelve_users
   \<and> 10 < length (entries_or_empty (users twelve_users))
   \<and> length (topUsers twelve_users) = 10
   \<and> map (\<lambda>u. (r_address u, r_hashrate u)) (topUsers twelve_users)
     = [(''u05'', Fin 9), (''u09'', Fin 8), (''u02'', Fin 7), (''u03'', Fin 7), (''u07'', Fin 7),
        (''u12'', Fin 7), (''u10'', Fin 6), (''u01'', Fin 5), (''u11'', Fin 4), (''u06'', Fin 3)]
   \<and> map (\<lambda>r. get_column r ''address'')
       (contents (snd (seed_main world_twelve_users example_helpers empty_state)) User)
     = [Text ''u05'', Text ''u09'', Text ''u02'', Text ''u03'', Text ''u07'', Text ''u12'',
        Text ''u10'', Text ''u01'', Text ''u11'', Text ''u06'']"
proof -
  have h1: "readP2PoolJson world_twelve_users = Inr twelve_users"
    by (simp add: readP2PoolJson_def bind_err_def world_twelve_users_def)
  have h2: "10 < length (entries_or_empty (users twelve_users))"
    by (simp add: twelve_users_def entries_or_empty_def empty_snapshot_def)
  have h3: "\<forall>u\<in>set (map rank_entry (entries_or_empty (users twelve_users))). r_hashrate u \<noteq> NaN"
    by (simp add: rank_entry_def optional_field_def twelve_users_def entries_or_empty_def
        empty_snapshot_def empty_user_def only_1d_def no_hashrates_def)
  from topUsers_selection [OF h1 h2 h3, where H = example_helpers and s = empty_state]
  have len: "length (topUsers twelve_users) = 10" by blast
  from seed_twelve have "map (\<lambda>r. get_column r ''address'')
       (contents (snd (seed_main world_twelve_users example_helpers empty_state)) User)
     = [Text ''u05'', Text ''u09'', Text ''u02'', Text ''u03'', Text ''u07'', Text ''u12'',
        Text ''u10'', Text ''u01'', Text ''u11'', Text ''u06'']"
    by (simp add: split_beta)
  with h1 h2 len topUsers_twelve show ?thesis by blast
qed

lemma topUsers_twelve_fractional:
  "map (\<lambda>u. (r_address u, r_hashrate u)) (topUsers twelve_users_fractional)
   = [(''u05'', Fin (19 / 2)), (''u09'', Fin 8), (''u02'', Fin 7), (''u03'', Fin 7),
      (''u07'', Fin 7), (''u12'', Fin 7), (''u10'', Fin 6), (''u01'', Fin 5), (''u11'', Fin 4),
      (''u06'', Fin 3)]"
  by (simp add: topUsers_def slice_def sort_by_def by_hashrate_desc_def rank_entry_def
      optional_field_def twelve_users_fractional_def entries_or_empty_def empty_snapshot_def
      empty_user_def only_1d_def no_hashrates_def)

lemma BigInt_fraction: "BigInt (Fin (19 / 2)) = Inl RangeError"
proof -
  have "\<lfloor>19 / 2 :: rat\<rfloor> = 9" by (simp add: floor_eq_iff)
  then show ?thesis by simp
qed

lemma seed_twelve_fractional:
  "case seed_main world_twelve_fractional example_helpers empty_state of
     (status, s) \<Rightarrow>
       status = 0
       \<and> map (\<lambda>r. get_column r ''hashrate1d'') (contents s PoolStats) = [Big 21474836480]
       \<and> map (\<lambda>r. get_column r ''address'') (contents s User) = [Text ''u05'']
       \<and> contents s UserStats = []
       \<and> console s
         = [Out ''Reading pool stats from disk...'',
            Err ''Error seeding database:'' RangeError,
            Out ''Seeding completed successfully.'']"
  by (simp add: seed_defs action_defs store_defs string_defs top_user_step_def
      poolStats_entity_def BigInt_string_examples BigInt_fraction
      p2poolToCkpool_def hashrateFields_def values_or_empty_def
      scaleHashrate_string_absent scaleHashrate_string_five
      topUsers_def slice_def sort_by_def by_hashrate_desc_def rank_entry_def
      optional_field_def twelve_users_fractional_def entries_or_empty_def empty_snapshot_def
      empty_user_def only_1d_def no_hashrates_def world_twelve_fractional_def example_helpers_def
      empty_state_def or_now_def share_rate_or0_def Let_def del: BigInt.simps)

lemma scaleHashrate_nine_and_a_half:
  "scaleHashrate (Declared (Num (Fin (19 / 2)))) = Inr 40802189312"
proof -
  have "- MAX_VALUE \<le> 19 / 2 * HASHRATE_FACTOR" "19 / 2 * HASHRATE_FACTOR \<le> MAX_VALUE"
    by (simp_all add: MAX_VALUE_def HASHRATE_FACTOR_def)
  then have "scaleHashrate (Declared (Num (Fin (19 / 2))))
      = Inr (round (19 / 2 * HASHRATE_FACTOR))"
    by (rule scaleHashrate_in_range)
  moreover have "round (19 / 2 * HASHRATE_FACTOR) = 40802189312"
    by (simp add: HASHRATE_FACTOR_def round_def floor_eq_iff)
  ultimately show ?thesis by simp
qed

text \<open>
  C7. The selection is as the claim says, the writes are not. On twelve users with
  integral hashrates the seed script writes a User row and a UserStats row for each of
  the ten selected users, in the order of the selection. With the highest hashrate at
  \<open>9.5\<close> instead of \<open>9\<close> the same ten users are selected in the same order, but
  \<open>BigInt(u.hashrate)\<close>, applied to the unscaled number, raises RangeError at the first
  of them: the run ends (status \<open>0\<close>, the error logged) with one User row, that of
  \<open>u05\<close>, and no UserStats row, and the nine other selected users receive nothing.
  \<open>scaleHashrate\<close>, through which every other hashrate column goes, takes \<open>9.5\<close>.
\<close>

theorem top_ten_writes_stop_at_fraction:
  "map (\<lambda>u. (r_address u, r_hashrate u)) (topUsers twelve_users_fractional)
   = [(''u05'', Fin (19 / 2)), (''u09'', Fin 8), (''u02'', Fin 7), (''u03'', Fin 7),
      (''u07'', Fin 7), (''u12'', Fin 7), (''u10'', Fin 6), (''u01'', Fin 5), (''u11'', Fin 4),
      (''u06'', Fin 3)]
   \<and> (case seed_main world_twelve_fractional example_helpers empty_state of
        (status, s) \<Rightarrow>
          status = 0
          \<and> map (\<lambda>r. get_column r ''address'') (contents s User) = [Text ''u05'']
          \<and> contents s UserStats = []
          \<and> console s
            = [Out ''Reading pool stats from disk...'',
               Err ''Error seeding database:'' RangeError,
               Out ''Seeding completed successfully.''])
   \<and> (case seed_main world_twelve_users example_helpers empty_state of
        (status, s) \<Rightarrow>
          status = 0
          \<and> map (\<lambda>r. get_column r ''address'') (contents s User)
            = [Text ''u05'', Text ''u09'', Text ''u02'', Text ''u03'', Text ''u07'',
               Text ''u12'', Text ''u10'', Text ''u01'', Text ''u11'', Text ''u06'']
          \<and> map (\<lambda>r. (get_column r ''userAddress'', get_column r ''hashrate1d''))
              (contents s UserStats)
            = [(Text ''u05'', Big 9), (Text ''u09'', Big 8), (Text ''u02'', Big 7),
               (Text ''u03'', Big 7), (Text ''u07'', Big 7), (Text ''u12'', Big 7),
               (Text ''u10'', Big 6), (Text ''u01'', Big 5), (Text ''u11'', Big 4),
               (Text ''u06'', Big 3)])
   \<and> BigInt (Fin (19 / 2)) = Inl RangeError
   \<and> scaleHashrate (Declared (Num (Fin (19 / 2)))) = Inr 40802189312"
proof -
  have fractional: "case seed_main world_twelve_fractional example_helpers empty_state of
        (status, s) \<Rightarrow>
          status = 0
          \<and> map (\<lambda>r. get_column r ''address'') (contents s User) = [Text ''u05'']
          \<and> contents s UserStats = []
          \<and> console s
            = [Out ''Reading pool stats from disk...'',
               Err ''Error seeding database:'' RangeError,
               Out ''Seeding completed successfully.'']"
    using seed_twelve_fractional by (simp add: split_beta)
  have integral: "case seed_main world_twelve_users example_helpers empty_state of
        (status, s) \<Rightarrow>
          status = 0
          \<and> map (\<lambda>r. get_column r ''address'') (contents s User)
            = [Text ''u05'', Text ''u09'', Text ''u02'', Text ''u03'', Text ''u07'',
               Text ''u12'', Text ''u10'', Text ''u01'', Text ''u11'', Text ''u06'']
          \<and> map (\<lambda>r. (get_column r ''userAddress'', get_column r ''hashrate1d''))
              (contents s UserStats)
            = [(Text ''u05'', Big 9), (Text ''u09'', Big 8), (Text ''u02'', Big 7),
               (Text ''u03'', Big 7), (Text ''u07'', Big 7), (Text ''u12'', Big 7),
               (Text ''u10'', Big 6), (Text ''u01'', Big 5), (Text ''u11'', Big 4),
               (Text ''u06'', Big 3)]"
    using seed_twelve by (simp add: split_beta)
  from topUsers_twelve_fractional fractional integral BigInt_fraction
    scaleHashrate_nine_and_a_half
  show ?thesis by (simp only: simp_thms)
qed

end
